(* ===== verification/Prelude.thy ===== *)
theory Prelude
  imports Main "HOL-Library.AList" "HOL-Library.Sublist" "HOL-Library.Multiset"
begin

text \<open>
  What the components share: the model's basic types (strings as byte lists, instants and
  durations in nanoseconds, results that carry an error value), the collections of rewrite rules
  the component proofs use, and generic facts on lists and association lists.

  A Go \<open>string\<close> is a sequence of bytes, as an Isabelle \<^typ>\<open>string\<close> is; \<open>len(s)\<close> is
  \<^term>\<open>length s\<close>. A \<open>time.Time\<close> is the number of nanoseconds since the zero time, a
  \<open>time.Duration\<close> an \<^typ>\<open>int\<close> within 64 bits where that matters.
\<close>

section \<open>Types\<close>

type_synonym time = int
type_synonym duration = int

text \<open>\<open>os.Getenv\<close>: the empty string for a variable that is not set.\<close>

type_synonym getenv = "string \<Rightarrow> string"

type_synonym ('e, 'a) result = "'e + 'a"

abbreviation (input) Err :: "'e \<Rightarrow> ('e, 'a) result" where "Err \<equiv> Inl"
abbreviation (input) Ok :: "'a \<Rightarrow> ('e, 'a) result" where "Ok \<equiv> Inr"

named_theorems limiter_simps \<open>how the rate limiter's operations act on lookups and sizes\<close>
named_theorems go_string \<open>the models of Go's string functions on the shapes the proofs meet\<close>
named_theorems guard_defs \<open>the definitions of the guards of a request handler\<close>

section \<open>Durations\<close>

definition second :: duration where "second = 1000000000"
definition millisecond :: duration where "millisecond = 1000000"
definition hour :: duration where "hour = 3600 * second"

definition max_duration :: duration where "max_duration = 9223372036854775807"
definition min_duration :: duration where "min_duration = - 9223372036854775808"

text \<open>\<open>t.Sub(u)\<close> saturates at the ends of the 64-bit range.\<close>

definition time_sub :: "time \<Rightarrow> time \<Rightarrow> duration" where
  "time_sub t u = max min_duration (min max_duration (t - u))"

lemma hour_pos [simp]: "0 < hour"
  by (simp add: hour_def second_def)

lemma hour_le_max [simp]: "hour \<le> max_duration" "24 * hour \<le> max_duration"
  by (simp_all add: hour_def second_def max_duration_def)

lemma time_sub_ge_iff:
  "0 < w \<Longrightarrow> w \<le> max_duration \<Longrightarrow> w \<le> time_sub t u \<longleftrightarrow> w \<le> t - u"
  by (auto simp: time_sub_def min_duration_def)

section \<open>Lists\<close>

lemma filter_cong_set: "(\<And>x. x \<in> set xs \<Longrightarrow> P x = Q x) \<Longrightarrow> filter P xs = filter Q xs"
  by (rule filter_cong) auto

lemma length_filter_mono:
  "(\<And>x. x \<in> set xs \<Longrightarrow> P x \<Longrightarrow> Q x) \<Longrightarrow> length (filter P xs) \<le> length (filter Q xs)"
  by (induction xs) auto

lemma find_SomeD: "find P xs = Some x \<Longrightarrow> P x \<and> x \<in> set xs"
  by (auto simp: find_Some_iff)

lemma find_NoneD: "find P xs = None \<Longrightarrow> x \<in> set xs \<Longrightarrow> \<not> P x"
  by (auto simp: find_None_iff)

lemma sorted_last_ge: "sorted xs \<Longrightarrow> x \<in> set xs \<Longrightarrow> x \<le> last xs"
  by (induction xs) auto

lemma sorted_key_take_drop:
  assumes "sorted (map f xs)" and "a \<in> set (take n xs)" and "b \<in> set (drop n xs)"
  shows "f a \<le> f b"
proof -
  from assms(1) have "sorted (map f (take n xs) @ map f (drop n xs))"
    by (simp flip: map_append)
  with assms(2,3) show ?thesis
    by (auto simp: sorted_append)
qed

lemma distinct_take_drop_disjoint:
  "distinct xs \<Longrightarrow> set (take n xs) \<inter> set (drop n xs) = {}"
  by (metis append_take_drop_id distinct_append)

section \<open>Association lists\<close>

abbreviation keys :: "('k \<times> 'v) list \<Rightarrow> 'k list" where
  "keys m \<equiv> map fst m"

text \<open>Reading a Go map at an absent key gives the zero value.\<close>

definition lookup_def :: "'v \<Rightarrow> ('k \<times> 'v) list \<Rightarrow> 'k \<Rightarrow> 'v" where
  "lookup_def z m k = (case map_of m k of None \<Rightarrow> z | Some v \<Rightarrow> v)"

lemma keys_update_in: "k \<in> set (keys m) \<Longrightarrow> keys (AList.update k v m) = keys m"
  by (simp add: update_keys)

lemma keys_update_notin: "k \<notin> set (keys m) \<Longrightarrow> keys (AList.update k v m) = keys m @ [k]"
  by (simp add: update_keys)

lemma set_keys_update [simp]: "fst ` set (AList.update k v m) = insert k (fst ` set m)"
  by (simp add: dom_update)

lemma length_update:
  "length (AList.update k v m) = (if k \<in> set (keys m) then length m else Suc (length m))"
  by (metis keys_update_in keys_update_notin length_append_singleton length_map)

lemma set_update_subset:
  "set (AList.update k v m) \<subseteq> insert (k, v) (set m)"
  by (induction m) auto

lemma map_of_filter_distinct:
  "distinct (keys m) \<Longrightarrow> map_of (filter P m) k =
     (case map_of m k of None \<Rightarrow> None | Some v \<Rightarrow> if P (k, v) then Some v else None)"
proof (induction m)
  case Nil
  then show ?case by simp
next
  case (Cons a m)
  obtain j v where a: "a = (j, v)" by (cases a)
  show ?case
  proof (cases "j = k")
    case True
    with Cons.prems a have "map_of m k = None"
      by (auto simp: map_of_eq_None_iff)
    then have "map_of (filter P m) k = None"
      by (auto simp: map_of_eq_None_iff)
    with True a show ?thesis by simp
  next
    case False
    with Cons a show ?thesis by (auto split: option.split)
  qed
qed

lemma distinct_keys_filter: "distinct (keys m) \<Longrightarrow> distinct (keys (filter P m))"
  by (induction m) auto

lemma fold_delete_filter:
  "fold AList.delete ks m = filter (\<lambda>(k, _). k \<notin> set ks) m"
proof (induction ks arbitrary: m)
  case Nil
  then show ?case by (simp add: case_prod_unfold)
next
  case (Cons k ks)
  have "fold AList.delete (k # ks) m = filter (\<lambda>(j, _). j \<notin> set ks) (AList.delete k m)"
    by (simp add: Cons.IH)
  also have "\<dots> = filter (\<lambda>(j, _). j \<notin> set (k # ks)) m"
    by (simp add: AList.delete_eq case_prod_unfold) (metis (no_types, lifting))
  finally show ?case .
qed

end
