(* ===== verification/SlidingWindow.thy ===== *)
theory SlidingWindow
  imports Prelude
begin

text \<open>
  The contract of a sliding-window limiter, for its clients: an abstract specification on the
  log of granted calls, and the interface as a locale. A provider promises three laws on its own
  state; the locale derives from them that every run takes the decisions of the specification
  and that no trailing window holds more grants than the limit.
\<close>

section \<open>The specification: a log of granted calls\<close>

type_synonym call = "string \<times> time"

definition times_of :: "call list \<Rightarrow> string \<Rightarrow> time list" where
  "times_of log k = map snd (filter (\<lambda>c. fst c = k) log)"

definition spec_allow :: "int \<Rightarrow> duration \<Rightarrow> call list \<Rightarrow> string \<Rightarrow> time \<Rightarrow> bool" where
  "spec_allow lim w log k now \<longleftrightarrow> int (length (filter (\<lambda>t. now - w < t) (times_of log k))) < lim"

fun spec_run :: "int \<Rightarrow> duration \<Rightarrow> call list \<Rightarrow> call list \<Rightarrow> bool list" where
  "spec_run lim w log [] = []"
| "spec_run lim w log ((k, now) # cs) =
     (let ok = spec_allow lim w log k now
      in ok # spec_run lim w (if ok then log @ [(k, now)] else log) cs)"

text \<open>The calls a list of decisions granted.\<close>

fun granted :: "call list \<Rightarrow> bool list \<Rightarrow> call list" where
  "granted (c # cs) (b # bs) = (if b then c # granted cs bs else granted cs bs)"
| "granted _ _ = []"

text \<open>At most \<open>lim\<close> grants per key in every window \<open>(u - w, u]\<close>.\<close>

definition windows_ok :: "int \<Rightarrow> duration \<Rightarrow> call list \<Rightarrow> bool" where
  "windows_ok lim w log \<longleftrightarrow>
     (\<forall>k u. int (length (filter (\<lambda>t. u - w < t \<and> t \<le> u) (times_of log k))) \<le> lim)"

lemma times_append [simp]: "times_of (xs @ ys) k = times_of xs k @ times_of ys k"
  by (simp add: times_of_def)

lemma times_Nil [simp]: "times_of [] k = []"
  by (simp add: times_of_def)

lemma times_Cons [simp]:
  "times_of ((j, t) # log) k = (if j = k then t # times_of log k else times_of log k)"
  by (simp add: times_of_def)

lemma times_single [simp]: "times_of [(j, t)] k = (if j = k then [t] else [])"
  by (simp add: times_of_def)

lemma set_times_of: "set (times_of log k) \<subseteq> snd ` set log"
  by (auto simp: times_of_def)

text \<open>Appending one call the specification admits keeps the bound.\<close>

lemma windows_ok_snoc:
  assumes ok: "windows_ok lim w log" and adm: "spec_allow lim w log k now"
  shows "windows_ok lim w (log @ [(k, now)])"
  unfolding windows_ok_def
proof (intro allI)
  fix j u
  let ?in = "\<lambda>t. u - w < t \<and> t \<le> u"
  have old: "int (length (filter ?in (times_of log j))) \<le> lim"
    using ok by (simp add: windows_ok_def)
  show "int (length (filter ?in (times_of (log @ [(k, now)]) j))) \<le> lim"
  proof (cases "j = k \<and> ?in now")
    case True
    then have "length (filter ?in (times_of log k)) \<le> length (filter (\<lambda>t. now - w < t) (times_of log k))"
      by (intro length_filter_mono) auto
    with adm True show ?thesis by (simp add: spec_allow_def)
  next
    case False
    with old show ?thesis by auto
  qed
qed

lemma windows_ok_spec_run:
  "windows_ok lim w log \<Longrightarrow> windows_ok lim w (log @ granted cs (spec_run lim w log cs))"
proof (induction lim w log cs rule: spec_run.induct)
  case (1 lim w log)
  then show ?case by simp
next
  case (2 lim w log k now cs)
  show ?case
  proof (cases "spec_allow lim w log k now")
    case True
    with 2 windows_ok_snoc [of lim w log k now] show ?thesis by (simp add: Let_def)
  next
    case False
    with 2 show ?thesis by (simp add: Let_def)
  qed
qed

section \<open>Runs of a provider\<close>

text \<open>A run calls the provider once per entry; the first component is whatever the provider
  leaves open in that call (here, a map's iteration order).\<close>

fun run_calls ::
  "('o \<Rightarrow> 's \<Rightarrow> string \<Rightarrow> time \<Rightarrow> bool \<times> 's) \<Rightarrow> 's \<Rightarrow> ('o \<times> call) list \<Rightarrow> bool list \<times> 's" where
  "run_calls step s [] = ([], s)"
| "run_calls step s ((ord, k, now) # cs) =
     (let (b, s1) = step ord s k now; (bs, s2) = run_calls step s1 cs in (b # bs, s2))"

lemma run_calls_Cons:
  "run_calls step s ((ord, k, now) # cs) =
     (fst (step ord s k now) # fst (run_calls step (snd (step ord s k now)) cs),
      snd (run_calls step (snd (step ord s k now)) cs))"
  by (simp add: case_prod_unfold Let_def)

declare run_calls.simps(2) [simp del] run_calls_Cons [simp]

definition calls_from :: "time \<Rightarrow> string set \<Rightarrow> call list \<Rightarrow> bool" where
  "calls_from t K cs \<longleftrightarrow> sorted (t # map snd cs) \<and> (\<forall>c \<in> set cs. fst c \<in> K)"

lemma calls_from_Cons [simp]:
  "calls_from t K ((k, now) # cs) \<longleftrightarrow> t \<le> now \<and> k \<in> K \<and> calls_from now K cs"
  by (auto simp: calls_from_def)

locale window_limiter =
  fixes step :: "'o \<Rightarrow> 's \<Rightarrow> string \<Rightarrow> time \<Rightarrow> bool \<times> 's"
    and recorded :: "'s \<Rightarrow> string \<Rightarrow> time list"
    and inv :: "time \<Rightarrow> 's \<Rightarrow> bool"
    and lim :: int and w :: duration and K :: "string set"
  assumes granted_iff: "inv t s \<Longrightarrow> t \<le> now \<Longrightarrow> k \<in> K \<Longrightarrow>
      fst (step ord s k now) \<longleftrightarrow> int (length (filter (\<lambda>x. now - w < x) (recorded s k))) < lim"
    and inv_step: "inv t s \<Longrightarrow> t \<le> now \<Longrightarrow> k \<in> K \<Longrightarrow> inv now (snd (step ord s k now))"
    and recorded_step: "inv t s \<Longrightarrow> t \<le> now \<Longrightarrow> k \<in> K \<Longrightarrow> now \<le> u \<Longrightarrow>
      filter (\<lambda>x. u - w < x) (recorded (snd (step ord s k now)) j) =
      filter (\<lambda>x. u - w < x)
        (recorded s j @ (if j = k \<and> fst (step ord s k now) then [now] else []))"
begin

definition agrees :: "time \<Rightarrow> 's \<Rightarrow> call list \<Rightarrow> bool" where
  "agrees t s log \<longleftrightarrow> (\<forall>u \<ge> t. \<forall>k.
     filter (\<lambda>x. u - w < x) (recorded s k) = filter (\<lambda>x. u - w < x) (times_of log k))"

lemma agrees_step:
  assumes "inv t s" and "agrees t s log" and "t \<le> now" and "k \<in> K"
  shows "fst (step ord s k now) = spec_allow lim w log k now"
    and "agrees now (snd (step ord s k now))
           (if spec_allow lim w log k now then log @ [(k, now)] else log)"
proof -
  show g: "fst (step ord s k now) = spec_allow lim w log k now"
    using assms granted_iff [of t s now k ord] by (simp add: spec_allow_def agrees_def)
  show "agrees now (snd (step ord s k now))
      (if spec_allow lim w log k now then log @ [(k, now)] else log)"
    unfolding agrees_def
  proof (intro allI impI)
    fix u j
    assume u: "now \<le> u"
    with assms(2,3) have
      "filter (\<lambda>x. u - w < x) (recorded s j) = filter (\<lambda>x. u - w < x) (times_of log j)"
      by (auto simp: agrees_def)
    then show "filter (\<lambda>x. u - w < x) (recorded (snd (step ord s k now)) j) =
        filter (\<lambda>x. u - w < x)
          (times_of (if spec_allow lim w log k now then log @ [(k, now)] else log) j)"
      using recorded_step [OF assms(1,3,4) u, of ord j] g by auto
  qed
qed

text \<open>Refinement: a run decides as the specification does.\<close>

lemma run_refines_spec:
  "inv t s \<Longrightarrow> agrees t s log \<Longrightarrow> calls_from t K (map snd cs) \<Longrightarrow>
     fst (run_calls step s cs) = spec_run lim w log (map snd cs)"
proof (induction cs arbitrary: t s log)
  case Nil
  then show ?case by simp
next
  case (Cons c cs)
  obtain ord k now where c: "c = (ord, k, now)" by (cases c)
  from Cons.prems c have now: "t \<le> now" "k \<in> K" "calls_from now K (map snd cs)" by auto
  note st = agrees_step [OF Cons.prems(1,2) now(1,2), of ord]
  from Cons.IH [OF inv_step [OF Cons.prems(1) now(1,2), of ord] st(2) now(3)]
  show ?case by (simp add: c Let_def st(1))
qed

lemma run_inv:
  "inv t s \<Longrightarrow> calls_from t K (map snd cs) \<Longrightarrow>
     inv (if cs = [] then t else snd (snd (last cs))) (snd (run_calls step s cs))"
proof (induction cs arbitrary: t s)
  case Nil
  then show ?case by simp
next
  case (Cons c cs)
  obtain ord k now where c: "c = (ord, k, now)" by (cases c)
  from Cons.prems c have now: "t \<le> now" "k \<in> K" "calls_from now K (map snd cs)" by auto
  from Cons.IH [OF inv_step [OF Cons.prems(1) now(1,2), of ord] now(3)]
  show ?case by (cases cs) (auto simp: c)
qed

text \<open>Safety: from a state that records nothing, no window holds more than \<open>lim\<close> grants.\<close>

lemma run_windows_ok:
  assumes "inv t s" and "\<And>k. recorded s k = []" and "0 \<le> lim"
    and "calls_from t K (map snd cs)"
  shows "windows_ok lim w (granted (map snd cs) (fst (run_calls step s cs)))"
proof -
  have "agrees t s []" using assms(2) by (simp add: agrees_def)
  then have r: "fst (run_calls step s cs) = spec_run lim w [] (map snd cs)"
    using run_refines_spec assms(1,4) by blast
  have "windows_ok lim w []" using assms(3) by (simp add: windows_ok_def)
  from windows_ok_spec_run [OF this, of "map snd cs"] show ?thesis by (simp add: r)
qed

end

end
