(* ===== verification/RateLimit.thy ===== *)
theory RateLimit
  imports SlidingWindow "HOL-Library.Signed_Division"
begin

text \<open>
  The per-key sliding-window limiter of \<open>services/contact/ratelimit.go\<close>, used three times by
  the contact server (per source IP, globally, and for GitHub issues).

  The state is the struct's; \<open>hits\<close> is an association list with distinct keys. A call runs
  under the limiter's mutex, so it is one atomic step on the state. Go iterates a map in an
  unspecified order, and \<open>sort.Slice\<close> is not stable: \<open>evictBatch\<close> therefore takes the order
  of this iteration as the argument \<open>ord\<close>, any rearrangement of the entries. The loop in
  \<open>allow\<close> that filters a slice in place on its own backing array is modelled as that loop.
\<close>

section \<open>State and operations\<close>

definition maxTrackedKeys :: int where "maxTrackedKeys = 50000"

record rate_limiter =
  limit :: int
  win :: duration
  maxKeys :: int
  hits :: "(string \<times> time list) list"
  lastSweep :: time

type_synonym map_order = "(string \<times> time list) list \<Rightarrow> (string \<times> time list) list"

definition order_of_map :: "map_order \<Rightarrow> bool" where
  "order_of_map ord \<longleftrightarrow> (\<forall>m. mset (ord m) = mset m)"

definition newRateLimiter :: "int \<Rightarrow> duration \<Rightarrow> rate_limiter" where
  "newRateLimiter l w =
     \<lparr>limit = l, win = w, maxKeys = maxTrackedKeys, hits = [], lastSweep = 0\<rparr>"

definition hits_of :: "rate_limiter \<Rightarrow> string \<Rightarrow> time list" where
  "hits_of rl k = lookup_def [] (hits rl) k"

definition sweep :: "time \<Rightarrow> rate_limiter \<Rightarrow> rate_limiter" where
  "sweep now rl =
     (let cutoff = now - win rl in
      rl\<lparr>hits := filter (\<lambda>(k, ts). \<not> (ts = [] \<or> \<not> last ts > cutoff)) (hits rl), lastSweep := now\<rparr>)"

definition last_hit :: "time list \<Rightarrow> time" where
  "last_hit ts = (if ts = [] then 0 else last ts)"

definition evictBatch :: "map_order \<Rightarrow> int \<Rightarrow> rate_limiter \<Rightarrow> rate_limiter" where
  "evictBatch ord target rl =
     (let target = (if target < 0 then 0 else target);
          drop = int (length (hits rl)) - target
      in if drop \<le> 0 then rl
         else let ages = map (\<lambda>(k, ts). (k, last_hit ts)) (ord (hits rl));
                  ages = sort_key snd ages
              in rl\<lparr>hits := fold AList.delete (map fst (take (nat drop) ages)) (hits rl)\<rparr>)"

text \<open>The in-place filter: index \<open>i\<close> reads, index \<open>j\<close> is the length of \<open>kept\<close>, whose
  elements occupy the same array.\<close>

function compact_loop :: "time \<Rightarrow> time list \<Rightarrow> nat \<Rightarrow> nat \<Rightarrow> time list \<times> nat" where
  "compact_loop cutoff a i j =
     (if i < length a
      then (if a ! i > cutoff then compact_loop cutoff (a[j := a ! i]) (Suc i) (Suc j)
            else compact_loop cutoff a (Suc i) j)
      else (a, j))"
  by pat_completeness auto
termination
  by (relation "measure (\<lambda>(c, a, i, j). length a - i)") auto

declare compact_loop.simps [simp del]

definition compact :: "time \<Rightarrow> time list \<Rightarrow> time list" where
  "compact cutoff a = (case compact_loop cutoff a 0 0 of (b, j) \<Rightarrow> take j b)"

definition allow :: "map_order \<Rightarrow> rate_limiter \<Rightarrow> string \<Rightarrow> time \<Rightarrow> bool \<times> rate_limiter" where
  "allow ord rl key now =
     (let rl = (if time_sub now (lastSweep rl) \<ge> win rl then sweep now rl else rl);
          cutoff = now - win rl;
          kept = compact cutoff (hits_of rl key)
      in if int (length kept) \<ge> limit rl
         then (False, rl\<lparr>hits := AList.update key kept (hits rl)\<rparr>)
         else let rl = (if key \<notin> set (keys (hits rl)) \<and> int (length (hits rl)) \<ge> maxKeys rl
                        then let rl = sweep now rl
                             in if int (length (hits rl)) \<ge> maxKeys rl
                                then evictBatch ord (maxKeys rl - maxKeys rl sdiv 10) rl
                                else rl
                        else rl)
              in (True, rl\<lparr>hits := AList.update key (kept @ [now]) (hits rl)\<rparr>))"

section \<open>The in-place filter\<close>

lemma compact_loop_filter:
  "j \<le> i \<Longrightarrow> i \<le> length a \<Longrightarrow> compact_loop cutoff a i j = (b, n) \<Longrightarrow>
     take n b = take j a @ filter (\<lambda>t. t > cutoff) (drop i a)"
proof (induction cutoff a i j arbitrary: b n rule: compact_loop.induct)
  case (1 cutoff a i j)
  show ?case
  proof (cases "i < length a")
    case False
    then have "compact_loop cutoff a i j = (a, j)" by (subst compact_loop.simps) simp
    with False "1.prems" show ?thesis by simp
  next
    case True
    then have d: "drop i a = a ! i # drop (Suc i) a" by (rule Cons_nth_drop_Suc [symmetric])
    show ?thesis
    proof (cases "a ! i > cutoff")
      case keep: True
      have "compact_loop cutoff (a[j := a ! i]) (Suc i) (Suc j) = (b, n)"
        using "1.prems"(3) True keep by (simp add: compact_loop.simps [of cutoff a i j])
      then have "take n b = take (Suc j) (a[j := a ! i]) @
          filter (\<lambda>t. t > cutoff) (drop (Suc i) (a[j := a ! i]))"
        using "1.IH"(1) True keep "1.prems" by simp
      moreover have "take (Suc j) (a[j := a ! i]) = take j a @ [a ! i]"
        using True "1.prems"(1) by (simp add: take_Suc_conv_app_nth)
      moreover have "drop (Suc i) (a[j := a ! i]) = drop (Suc i) a"
        using "1.prems"(1) by simp
      ultimately show ?thesis using d keep by simp
    next
      case False
      with True "1.prems" "1.IH"(2) d show ?thesis
        by (simp add: compact_loop.simps [of cutoff a i j])
    qed
  qed
qed

lemma compact_filter [limiter_simps]: "compact cutoff a = filter (\<lambda>t. t > cutoff) a"
  using compact_loop_filter [of 0 0 a cutoff] by (auto simp: compact_def split: prod.split)

section \<open>What each operation does to the table\<close>

definition rl_wf :: "rate_limiter \<Rightarrow> bool" where
  "rl_wf rl \<longleftrightarrow> distinct (keys (hits rl))"

lemma hits_of_notin: "k \<notin> set (keys (hits rl)) \<Longrightarrow> hits_of rl k = []"
  by (simp add: hits_of_def lookup_def_def flip: map_of_eq_None_iff)

lemma hits_of_in: "rl_wf rl \<Longrightarrow> (k, ts) \<in> set (hits rl) \<Longrightarrow> hits_of rl k = ts"
  by (simp add: hits_of_def lookup_def_def rl_wf_def)

lemma hits_of_ne_in: "hits_of rl k \<noteq> [] \<Longrightarrow> (k, hits_of rl k) \<in> set (hits rl)"
  by (auto simp: hits_of_def lookup_def_def split: option.splits dest: map_of_SomeD)

lemma hits_of_update [limiter_simps]:
  "hits_of (rl\<lparr>hits := AList.update k ts (hits rl)\<rparr>) j = (if j = k then ts else hits_of rl j)"
  by (simp add: hits_of_def lookup_def_def update_conv')

lemma hits_of_filter:
  "rl_wf rl \<Longrightarrow> hits rl' = filter P (hits rl) \<Longrightarrow>
     hits_of rl' k = (if P (k, hits_of rl k) then hits_of rl k else [])"
  by (auto simp: hits_of_def lookup_def_def rl_wf_def map_of_filter_distinct split: option.split)

lemma hits_of_sweep [limiter_simps]:
  "rl_wf rl \<Longrightarrow> hits_of (sweep now rl) k =
     (if hits_of rl k \<noteq> [] \<and> last (hits_of rl k) > now - win rl then hits_of rl k else [])"
  by (subst hits_of_filter [of rl _ "\<lambda>(k, ts). \<not> (ts = [] \<or> \<not> last ts > now - win rl)"])
    (auto simp: sweep_def Let_def)

lemma sweep_fields [simp]:
  "limit (sweep now rl) = limit rl" "win (sweep now rl) = win rl"
  "maxKeys (sweep now rl) = maxKeys rl" "lastSweep (sweep now rl) = now"
  by (simp_all add: sweep_def Let_def)

lemma sweep_wf: "rl_wf rl \<Longrightarrow> rl_wf (sweep now rl)"
  by (simp add: rl_wf_def sweep_def Let_def distinct_keys_filter)

lemma set_sweep: "set (hits (sweep now rl)) \<subseteq> set (hits rl)"
  by (auto simp: sweep_def Let_def)

lemma length_sweep: "length (hits (sweep now rl)) \<le> length (hits rl)"
  by (simp add: sweep_def Let_def)

text \<open>Eviction deletes the first keys of the ages list.\<close>

definition evicted :: "map_order \<Rightarrow> int \<Rightarrow> rate_limiter \<Rightarrow> string list" where
  "evicted ord target rl =
     (let drop = int (length (hits rl)) - max 0 target
      in if drop \<le> 0 then []
         else map fst (take (nat drop) (sort_key snd (map (\<lambda>(k, ts). (k, last_hit ts)) (ord (hits rl))))))"

lemma evictBatch_filter:
  "evictBatch ord target rl =
     rl\<lparr>hits := filter (\<lambda>(k, _). k \<notin> set (evicted ord target rl)) (hits rl)\<rparr>"
  by (auto simp: evictBatch_def evicted_def Let_def fold_delete_filter case_prod_unfold max_def)

lemma evictBatch_fields [simp]:
  "limit (evictBatch ord n rl) = limit rl" "win (evictBatch ord n rl) = win rl"
  "maxKeys (evictBatch ord n rl) = maxKeys rl" "lastSweep (evictBatch ord n rl) = lastSweep rl"
  by (simp_all add: evictBatch_filter)

lemma evictBatch_wf: "rl_wf rl \<Longrightarrow> rl_wf (evictBatch ord n rl)"
  by (simp add: rl_wf_def evictBatch_filter distinct_keys_filter)

lemma set_evictBatch: "set (hits (evictBatch ord n rl)) \<subseteq> set (hits rl)"
  by (auto simp: evictBatch_filter)

lemma hits_of_evictBatch [limiter_simps]:
  "rl_wf rl \<Longrightarrow> hits_of (evictBatch ord n rl) k =
     (if k \<in> set (evicted ord n rl) then [] else hits_of rl k)"
  by (subst hits_of_filter [of rl _ "\<lambda>(k, _). k \<notin> set (evicted ord n rl)"])
    (auto simp: evictBatch_filter)

lemma evicted_mset:
  assumes "order_of_map ord"
  shows "mset (map (\<lambda>(k, ts). (k, last_hit ts)) (ord m)) = mset (map (\<lambda>(k, ts). (k, last_hit ts)) m)"
  using assms by (simp add: order_of_map_def)

section \<open>The window of a key\<close>

text \<open>The hits of a key that still count at an instant.\<close>

definition live :: "rate_limiter \<Rightarrow> string \<Rightarrow> time \<Rightarrow> time list" where
  "live rl k u = filter (\<lambda>t. u - win rl < t) (hits_of rl k)"

text \<open>The steps of \<open>allow\<close>, named: the scheduled sweep, and making room for a new key.\<close>

definition swept :: "rate_limiter \<Rightarrow> time \<Rightarrow> rate_limiter" where
  "swept rl now = (if time_sub now (lastSweep rl) \<ge> win rl then sweep now rl else rl)"

definition make_room :: "map_order \<Rightarrow> rate_limiter \<Rightarrow> string \<Rightarrow> time \<Rightarrow> rate_limiter" where
  "make_room ord rl key now =
     (if key \<notin> set (keys (hits rl)) \<and> int (length (hits rl)) \<ge> maxKeys rl
      then let rl = sweep now rl
           in if int (length (hits rl)) \<ge> maxKeys rl
              then evictBatch ord (maxKeys rl - maxKeys rl sdiv 10) rl else rl
      else rl)"

lemma swept_fields [simp]:
  "limit (swept rl now) = limit rl" "win (swept rl now) = win rl"
  "maxKeys (swept rl now) = maxKeys rl"
  by (simp_all add: swept_def)

lemma make_room_fields [simp]:
  "limit (make_room ord rl k now) = limit rl" "win (make_room ord rl k now) = win rl"
  "maxKeys (make_room ord rl k now) = maxKeys rl"
  by (simp_all add: make_room_def Let_def)

lemma swept_wf: "rl_wf rl \<Longrightarrow> rl_wf (swept rl now)"
  by (simp add: swept_def sweep_wf)

lemma make_room_wf: "rl_wf rl \<Longrightarrow> rl_wf (make_room ord rl k now)"
  by (simp add: make_room_def Let_def sweep_wf evictBatch_wf)

text \<open>\<open>allow\<close> in terms of these steps.\<close>

lemma allow_steps:
  "allow ord rl key now =
     (let s = swept rl now; kept = live s key now
      in if int (length kept) \<ge> limit s
         then (False, s\<lparr>hits := AList.update key kept (hits s)\<rparr>)
         else let r = make_room ord s key now
              in (True, r\<lparr>hits := AList.update key (kept @ [now]) (hits r)\<rparr>))"
  by (simp add: allow_def swept_def make_room_def live_def compact_filter Let_def
      del: not_less not_le)

lemma allow_fields [simp]:
  "limit (snd (allow ord rl k now)) = limit rl"
  "win (snd (allow ord rl k now)) = win rl"
  "maxKeys (snd (allow ord rl k now)) = maxKeys rl"
  by (simp_all add: allow_steps Let_def)

lemma rl_wf_update: "rl_wf rl \<Longrightarrow> rl_wf (rl\<lparr>hits := AList.update k ts (hits rl)\<rparr>)"
  by (simp add: rl_wf_def distinct_update)

lemma allow_wf: "rl_wf rl \<Longrightarrow> rl_wf (snd (allow ord rl k now))"
  by (simp add: allow_steps Let_def rl_wf_update swept_wf make_room_wf)

lemma newRateLimiter_wf [simp]: "rl_wf (newRateLimiter l w)"
  by (simp add: rl_wf_def newRateLimiter_def)

lemma hits_of_new [simp]: "hits_of (newRateLimiter l w) k = []"
  by (simp add: hits_of_def lookup_def_def newRateLimiter_def)

lemma granted_iff_live:
  "fst (allow ord rl k now) \<longleftrightarrow> int (length (live (swept rl now) k now)) < limit rl"
  by (simp add: allow_steps Let_def not_le)

section \<open>Eviction\<close>

definition ages_of :: "map_order \<Rightarrow> rate_limiter \<Rightarrow> (string \<times> time) list" where
  "ages_of ord rl = sort_key snd (map (\<lambda>(k, ts). (k, last_hit ts)) (ord (hits rl)))"

lemma evicted_ages:
  "evicted ord n rl = map fst (take (nat (int (length (hits rl)) - max 0 n)) (ages_of ord rl))"
  by (simp add: evicted_def ages_of_def Let_def)

lemma ages_of_mset:
  "order_of_map ord \<Longrightarrow>
     mset (ages_of ord rl) = mset (map (\<lambda>(k, ts). (k, last_hit ts)) (hits rl))"
  by (simp add: ages_of_def order_of_map_def)

lemma ages_of_keys:
  assumes "order_of_map ord"
  shows "mset (map fst (ages_of ord rl)) = mset (keys (hits rl))"
proof -
  have "mset (map fst (ages_of ord rl)) = image_mset fst (mset (ages_of ord rl))" by simp
  also have "\<dots> = mset (map fst (map (\<lambda>(k, ts). (k, last_hit ts)) (hits rl)))"
    by (simp only: ages_of_mset [OF assms] mset_map)
  also have "map fst (map (\<lambda>(k, ts). (k, last_hit ts)) (hits rl)) = keys (hits rl)"
    by (induction "hits rl") auto
  finally show ?thesis .
qed

lemma ages_of_distinct:
  "order_of_map ord \<Longrightarrow> rl_wf rl \<Longrightarrow> distinct (map fst (ages_of ord rl))"
  using ages_of_keys [of ord rl] by (metis mset_eq_imp_distinct_iff rl_wf_def)

lemma ages_of_entry:
  assumes "order_of_map ord" and "rl_wf rl" and "(k, t) \<in> set (ages_of ord rl)"
  shows "k \<in> set (keys (hits rl)) \<and> t = last_hit (hits_of rl k)"
proof -
  have "set (ages_of ord rl) = set (map (\<lambda>(k, ts). (k, last_hit ts)) (hits rl))"
    using ages_of_mset [OF assms(1), of rl] by (metis set_mset_mset)
  with assms(3) obtain ts where "(k, ts) \<in> set (hits rl)" "t = last_hit ts" by auto
  with assms(2) show ?thesis by (force simp: hits_of_in)
qed

lemma ages_of_has_key:
  assumes "order_of_map ord" and "rl_wf rl" and "k \<in> set (keys (hits rl))"
  shows "(k, last_hit (hits_of rl k)) \<in> set (ages_of ord rl)"
proof -
  have "k \<in> set (map fst (ages_of ord rl))"
    using ages_of_keys [OF assms(1), of rl] assms(3) by (metis set_mset_mset)
  with ages_of_entry [OF assms(1,2)] show ?thesis by force
qed

lemma evicted_facts:
  assumes "order_of_map ord" and "rl_wf rl"
  shows "distinct (evicted ord n rl)" and "set (evicted ord n rl) \<subseteq> set (keys (hits rl))"
    and "length (evicted ord n rl) = min (length (hits rl)) (nat (int (length (hits rl)) - max 0 n))"
proof -
  let ?d = "nat (int (length (hits rl)) - max 0 n)"
  have e: "evicted ord n rl = take ?d (map fst (ages_of ord rl))"
    by (simp add: evicted_ages take_map)
  show "distinct (evicted ord n rl)"
    unfolding e using ages_of_distinct [OF assms] by (rule distinct_take)
  have "set (map fst (ages_of ord rl)) = set (keys (hits rl))"
    using ages_of_keys [OF assms(1), of rl] by (metis set_mset_mset)
  then show "set (evicted ord n rl) \<subseteq> set (keys (hits rl))"
    unfolding e by (metis set_take_subset)
  have "length (map fst (ages_of ord rl)) = length (keys (hits rl))"
    using ages_of_keys [OF assms(1), of rl] by (metis size_mset)
  then show "length (evicted ord n rl) = min (length (hits rl)) ?d"
    unfolding e by simp
qed

lemma length_filter_keys:
  assumes "distinct (keys m)" and "distinct ks" and "set ks \<subseteq> set (keys m)"
  shows "length (filter (\<lambda>(k, _). k \<notin> set ks) m) = length m - length ks"
proof -
  have "length (filter (\<lambda>(k, _). k \<notin> set ks) m) = length (filter (\<lambda>k. k \<notin> set ks) (keys m))"
    by (simp add: filter_map comp_def case_prod_unfold)
  also have "\<dots> = card (set (filter (\<lambda>k. k \<notin> set ks) (keys m)))"
    using assms(1) by (simp only: distinct_card distinct_filter)
  also have "set (filter (\<lambda>k. k \<notin> set ks) (keys m)) = set (keys m) - set ks" by auto
  also have "card (set (keys m) - set ks) = card (set (keys m)) - card (set ks)"
    using assms(3) by (simp add: card_Diff_subset)
  also have "\<dots> = length m - length ks"
    using distinct_card [OF assms(1)] distinct_card [OF assms(2)] by simp
  finally show ?thesis .
qed

lemma length_evictBatch:
  assumes "order_of_map ord" and "rl_wf rl"
  shows "length (hits (evictBatch ord n rl)) = min (length (hits rl)) (nat (max 0 n))"
proof -
  have "length (hits (evictBatch ord n rl)) = length (hits rl) - length (evicted ord n rl)"
    using evicted_facts [OF assms] assms(2)
    by (simp add: evictBatch_filter rl_wf_def length_filter_keys)
  then show ?thesis using evicted_facts(3) [OF assms, of n] by (auto simp: min_def max_def)
qed



section \<open>The interface\<close>

text \<open>The state after a call, key by key.\<close>

lemma recorded_allow:
  "hits_of (snd (allow ord rl k now)) j =
     (if j = k then live (swept rl now) k now @ (if fst (allow ord rl k now) then [now] else [])
      else if fst (allow ord rl k now) then hits_of (make_room ord (swept rl now) k now) j
      else hits_of (swept rl now) j)"
  by (simp add: allow_steps Let_def hits_of_update)

definition window_inv :: "string set \<Rightarrow> int \<Rightarrow> duration \<Rightarrow> time \<Rightarrow> rate_limiter \<Rightarrow> bool" where
  "window_inv K lim w t rl \<longleftrightarrow>
     rl_wf rl \<and> limit rl = lim \<and> win rl = w \<and> 0 < w \<and> w \<le> max_duration
     \<and> finite K \<and> int (card K) \<le> maxKeys rl \<and> set (keys (hits rl)) \<subseteq> K
     \<and> (\<forall>k. sorted (hits_of rl k) \<and> (\<forall>x \<in> set (hits_of rl k). x \<le> t))"

lemma window_inv_new:
  "finite K \<Longrightarrow> int (card K) \<le> maxTrackedKeys \<Longrightarrow> 0 < w \<Longrightarrow> w \<le> max_duration \<Longrightarrow>
     window_inv K lim w t (newRateLimiter lim w)"
  by (simp add: window_inv_def) (simp add: newRateLimiter_def)

text \<open>A key of \<open>K\<close> never finds the table full.\<close>

lemma no_eviction:
  assumes "rl_wf rl" and "finite K" and "int (card K) \<le> maxKeys rl"
    and "set (keys (hits rl)) \<subseteq> K" and "k \<in> K"
  shows "make_room ord rl k now = rl"
proof (cases "k \<in> set (keys (hits rl))")
  case True
  then show ?thesis by (simp add: make_room_def)
next
  case False
  have "length (hits rl) = card (set (keys (hits rl)))"
    using assms(1) distinct_card [of "keys (hits rl)"] by (simp add: rl_wf_def)
  also have "\<dots> < card K"
    using False assms by (intro psubset_card_mono) auto
  finally show ?thesis using assms(3) by (simp add: make_room_def)
qed

text \<open>With hits in order, the scheduled sweep forgets no hit that still counts.\<close>

lemma live_swept:
  assumes "rl_wf rl" and "sorted (hits_of rl k)" and "now \<le> u"
  shows "live (swept rl now) k u = live rl k u"
proof (cases "hits_of rl k \<noteq> [] \<and> last (hits_of rl k) \<le> now - win rl")
  case True
  then have "x \<le> u - win rl" if "x \<in> set (hits_of rl k)" for x
    using sorted_last_ge [OF assms(2) that] assms(3) by linarith
  then have "live rl k u = []" by (auto simp: live_def filter_empty_conv not_less)
  with True assms(1) show ?thesis by (auto simp: live_def swept_def hits_of_sweep)
next
  case False
  with assms(1) show ?thesis by (auto simp: live_def swept_def hits_of_sweep)
qed

lemma swept_hits: "rl_wf rl \<Longrightarrow> hits_of (swept rl now) k = hits_of rl k \<or> hits_of (swept rl now) k = []"
  by (auto simp: swept_def hits_of_sweep)

lemma set_swept: "set (hits (swept rl now)) \<subseteq> set (hits rl)"
  using set_sweep by (auto simp: swept_def)

lemma keys_swept: "set (keys (hits (swept rl now))) \<subseteq> set (keys (hits rl))"
  by (simp add: image_mono set_swept)

lemma room_swept:
  assumes "window_inv K lim w t rl" and "k \<in> K"
  shows "make_room ord (swept rl now) k now = swept rl now"
proof (rule no_eviction)
  show "set (keys (hits (swept rl now))) \<subseteq> K"
    using assms(1) keys_swept [of rl now] unfolding window_inv_def by blast
qed (use assms in \<open>auto simp: window_inv_def swept_wf\<close>)

lemma window_inv_allow:
  assumes i: "window_inv K lim w t rl" and now: "t \<le> now" and k: "k \<in> K"
  shows "window_inv K lim w now (snd (allow ord rl k now))"
proof -
  let ?s = "swept rl now" and ?r = "snd (allow ord rl k now)"
  have s: "rl_wf ?s" "set (keys (hits ?s)) \<subseteq> K"
    using i swept_wf keys_swept [of rl now] unfolding window_inv_def by (blast, blast)
  note room = room_swept [OF i k]
  have old: "sorted (hits_of ?s j) \<and> (\<forall>x \<in> set (hits_of ?s j). x \<le> now)" for j
    using i now swept_hits [of rl now j] by (fastforce simp: window_inv_def)
  have "set (keys (hits ?r)) \<subseteq> insert k (set (keys (hits ?s)))"
    by (simp add: allow_steps Let_def room)
  then have "set (keys (hits ?r)) \<subseteq> K" using s(2) k by blast
  moreover have "sorted (hits_of ?r j) \<and> (\<forall>x \<in> set (hits_of ?r j). x \<le> now)" for j
    using old [of j] by (auto simp: recorded_allow room live_def sorted_append sorted_wrt_filter)
  ultimately show ?thesis
    using i by (simp add: window_inv_def allow_wf)
qed

interpretation rl: window_limiter allow hits_of "window_inv K lim w" lim w K for K lim w
proof
  fix t s now k ord u j
  assume i: "window_inv K lim w t s" and now: "t \<le> now" and k: "k \<in> K"
  then have wf: "rl_wf s" "\<And>j. sorted (hits_of s j)" "win s = w" "limit s = lim"
    by (auto simp: window_inv_def)
  show "fst (allow ord s k now) \<longleftrightarrow> int (length (filter (\<lambda>x. now - w < x) (hits_of s k))) < lim"
    using live_swept [OF wf(1,2), of now now k] wf(3,4) by (simp add: granted_iff_live live_def)
  show "window_inv K lim w now (snd (allow ord s k now))"
    using i now k by (rule window_inv_allow)
  assume u: "now \<le> u"
  note room = room_swept [OF i k]
  have "filter (\<lambda>x. u - w < x) (hits_of (swept s now) j) = filter (\<lambda>x. u - w < x) (hits_of s j)" for j
    using live_swept [OF wf(1,2) u] wf(3) by (simp add: live_def)
  moreover have "filter (\<lambda>x. u - w < x) (live (swept s now) k now) =
      filter (\<lambda>x. u - w < x) (hits_of (swept s now) k)"
    using u wf(3) by (auto simp: live_def intro: filter_cong_set)
  ultimately show "filter (\<lambda>x. u - w < x) (hits_of (snd (allow ord s k now)) j) =
      filter (\<lambda>x. u - w < x) (hits_of s j @ (if j = k \<and> fst (allow ord s k now) then [now] else []))"
    by (simp add: recorded_allow room)
qed

section \<open>Properties of runs\<close>

text \<open>C1. From a fresh limiter, calls made in time order on at most \<open>maxTrackedKeys\<close> keys are
  decided exactly as the sliding-window specification decides them: a call is allowed if and only
  if fewer than \<open>limit\<close> earlier calls of its key were granted within the last window. Sweeping,
  pruning in place and the iteration order of maps do not show.\<close>

theorem limiter_refines_window:
  assumes "finite K" and "int (card K) \<le> maxTrackedKeys" and "0 < w" and "w \<le> max_duration"
    and "calls_from t K (map snd cs)"
  shows "fst (run_calls allow (newRateLimiter lim w) cs) = spec_run lim w [] (map snd cs)"
proof -
  have "rl.agrees w t (newRateLimiter lim w) []" by (simp add: rl.agrees_def)
  with rl.run_refines_spec [OF window_inv_new [OF assms(1-4)]] assms(5) show ?thesis by blast
qed

theorem limiter_refines_window_witness:
  "fst (run_calls allow (newRateLimiter 1 hour)
     [(id, ''a'', 5), (rev, ''a'', 6), (id, ''b'', 7), (id, ''a'', 5 + hour)]) = [True, False, True, True]"
proof -
  let ?cs = "[(id :: map_order, ''a'', 5), (rev, ''a'', 6), (id, ''b'', 7), (id, ''a'', 5 + hour)]"
  have "fst (run_calls allow (newRateLimiter 1 hour) ?cs) = spec_run 1 hour [] (map snd ?cs)"
    by (rule limiter_refines_window [of "{''a'', ''b''}" hour 0])
      (simp_all add: maxTrackedKeys_def calls_from_def hour_def second_def max_duration_def)
  also have "\<dots> = [True, False, True, True]" by code_simp
  finally show ?thesis .
qed

text \<open>C2. The limit holds in every window: over a run as in C1, no key is granted more than
  \<open>limit\<close> calls within any span of one window length.\<close>

theorem limiter_window_bound:
  assumes "finite K" and "int (card K) \<le> maxTrackedKeys" and "0 < w" and "w \<le> max_duration"
    and "0 \<le> lim" and "calls_from t K (map snd cs)"
  shows "windows_ok lim w (granted (map snd cs) (fst (run_calls allow (newRateLimiter lim w) cs)))"
  using rl.run_windows_ok [OF window_inv_new [OF assms(1-4)] _ assms(5,6)] by simp

theorem limiter_window_bound_witness:
  "windows_ok 1 hour [(''a'', 5), (''b'', 7)]"
proof -
  let ?cs = "[(id :: map_order, ''a'', 5), (rev, ''a'', 6), (id, ''b'', 7)]"
  have "windows_ok 1 hour
      (granted (map snd ?cs) (fst (run_calls allow (newRateLimiter 1 hour) ?cs)))"
    by (rule limiter_window_bound [of "{''a'', ''b''}" hour 1 0])
      (simp_all add: maxTrackedKeys_def calls_from_def)
  moreover have "granted (map snd ?cs) (fst (run_calls allow (newRateLimiter 1 hour) ?cs)) =
      [(''a'', 5), (''b'', 7)]"
    by code_simp
  ultimately show ?thesis by simp
qed

text \<open>An invariant of single calls is an invariant of runs; the orders may be restricted.\<close>

lemma run_calls_invariant:
  assumes "\<And>ord s k now. P s \<Longrightarrow> Q ord \<Longrightarrow> P (snd (step ord s k now))"
  shows "P s \<Longrightarrow> \<forall>c \<in> set cs. Q (fst c) \<Longrightarrow> P (snd (run_calls step s cs))"
proof (induction cs arbitrary: s)
  case Nil
  then show ?case by simp
next
  case (Cons c cs)
  obtain ord k now where c: "c = (ord, k, now)" by (cases c)
  with Cons assms show ?case by simp
qed

definition size_ok :: "rate_limiter \<Rightarrow> bool" where
  "size_ok rl \<longleftrightarrow> rl_wf rl \<and> int (length (hits rl)) \<le> maxKeys rl
     \<and> (\<forall>(k, ts) \<in> set (hits rl). ts \<noteq> [] \<and> int (length ts) \<le> limit rl)"

lemma size_ok_subset:
  "size_ok rl \<Longrightarrow> rl_wf rl' \<Longrightarrow> set (hits rl') \<subseteq> set (hits rl) \<Longrightarrow>
     limit rl' = limit rl \<Longrightarrow> maxKeys rl' = maxKeys rl \<Longrightarrow> size_ok rl'"
proof -
  assume a: "size_ok rl" "rl_wf rl'" "set (hits rl') \<subseteq> set (hits rl)"
    "limit rl' = limit rl" "maxKeys rl' = maxKeys rl"
  have "length (hits rl') = card (set (hits rl'))"
    using a(2) by (metis distinct_card distinct_map rl_wf_def)
  also have "\<dots> \<le> card (set (hits rl))" using a(3) by (simp add: card_mono)
  also have "\<dots> \<le> length (hits rl)" by (rule card_length)
  finally show "size_ok rl'" using a by (auto simp: size_ok_def)
qed

lemma make_room_set: "set (hits (make_room ord rl k now)) \<subseteq> set (hits rl)"
  unfolding make_room_def Let_def using set_sweep set_evictBatch by (auto, blast+)

lemma make_room_space:
  assumes "order_of_map ord" and "rl_wf rl" and "10 \<le> maxKeys rl"
    and "k \<notin> set (keys (hits rl))" and "int (length (hits rl)) \<le> maxKeys rl"
  shows "int (length (hits (make_room ord rl k now))) < maxKeys rl"
proof -
  let ?n = "maxKeys rl - maxKeys rl sdiv 10"
  have "?n = maxKeys rl - maxKeys rl div 10"
    using assms(3) by (simp add: signed_divide_int_def)
  then have "0 \<le> ?n" "?n < maxKeys rl" using assms(3) by auto
  then have "int (length (hits (evictBatch ord ?n (sweep now rl)))) < maxKeys rl"
    using length_evictBatch [OF assms(1) sweep_wf [OF assms(2)], of ?n now] by simp
  then show ?thesis using assms(4) by (auto simp: make_room_def Let_def)
qed

lemma size_ok_allow:
  assumes "size_ok rl" and "order_of_map ord" and "10 \<le> maxKeys rl" and "1 \<le> limit rl"
  shows "size_ok (snd (allow ord rl k now))"
proof -
  let ?s = "swept rl now" and ?kept = "live (swept rl now) k now"
  have s: "size_ok ?s"
    using assms(1) by (rule size_ok_subset)
      (use assms(1) set_swept in \<open>auto simp: size_ok_def swept_wf\<close>)
  have wf: "rl_wf ?s" using s by (simp add: size_ok_def)
  let ?r = "make_room ord ?s k now"
  have r: "size_ok ?r"
    using s by (rule size_ok_subset) (use wf make_room_set in \<open>auto simp: make_room_wf\<close>)
  have upd: "size_ok (q\<lparr>hits := AList.update k ts (hits q)\<rparr>)"
    if "size_ok q" "ts \<noteq> []" "int (length ts) \<le> limit q"
      "k \<notin> set (keys (hits q)) \<Longrightarrow> int (length (hits q)) < maxKeys q" for q ts
    using that set_update_subset [of k ts "hits q"]
    by (fastforce simp: size_ok_def rl_wf_update length_update)
  have kept_le: "int (length ?kept) \<le> limit ?s"
  proof (cases "hits_of ?s k = []")
    case True
    then show ?thesis using assms(4) by (simp add: live_def)
  next
    case False
    from hits_of_ne_in [OF this] s have "int (length (hits_of ?s k)) \<le> limit ?s"
      by (auto simp: size_ok_def)
    moreover have "length ?kept \<le> length (hits_of ?s k)" by (simp add: live_def)
    ultimately show ?thesis by linarith
  qed
  show ?thesis
  proof (cases "int (length ?kept) \<ge> limit ?s")
    case True
    then have ne: "?kept \<noteq> []" using assms(4) by auto
    then have "hits_of ?s k \<noteq> []" by (metis filter.simps(1) live_def)
    then have "k \<in> set (keys (hits ?s))" using hits_of_notin by blast
    then have "size_ok (?s\<lparr>hits := AList.update k ?kept (hits ?s)\<rparr>)"
      using s ne kept_le by (intro upd) auto
    with True show ?thesis by (simp add: allow_steps Let_def)
  next
    case False
    have "int (length (hits ?r)) < maxKeys ?r" if "k \<notin> set (keys (hits ?r))"
    proof (cases "k \<in> set (keys (hits ?s))")
      case True
      then have "?r = ?s" by (simp add: make_room_def)
      with True that show ?thesis by simp
    next
      case new: False
      then show ?thesis
        using make_room_space [OF assms(2) wf, of k now] s assms(3) by (simp add: size_ok_def)
    qed
    then have "size_ok (?r\<lparr>hits := AList.update k (?kept @ [now]) (hits ?r)\<rparr>)"
      using r False by (intro upd) auto
    with False show ?thesis by (simp add: allow_steps Let_def)
  qed
qed

text \<open>C3. Memory stays bounded: whatever calls arrive, in whatever order and at whatever times, a
  limiter made by \<open>newRateLimiter\<close> with a limit of at least 1 (which \<open>validate\<close> enforces) never
  tracks more than \<open>maxTrackedKeys\<close> keys, each with at most \<open>limit\<close> timestamps.\<close>

theorem limiter_memory_bound:
  assumes "1 \<le> lim" and "\<forall>c \<in> set cs. order_of_map (fst c)"
  shows "let rl = snd (run_calls allow (newRateLimiter lim w) cs)
         in int (length (hits rl)) \<le> maxTrackedKeys
            \<and> (\<forall>(k, ts) \<in> set (hits rl). int (length ts) \<le> lim)"
proof -
  let ?P = "\<lambda>rl. size_ok rl \<and> maxKeys rl = maxTrackedKeys \<and> limit rl = lim"
  have "?P (snd (run_calls allow (newRateLimiter lim w) cs))"
  proof (rule run_calls_invariant [where Q = order_of_map])
    show "?P (newRateLimiter lim w)"
      by (simp add: size_ok_def) (simp add: newRateLimiter_def maxTrackedKeys_def)
  qed (use assms size_ok_allow in \<open>auto simp: maxTrackedKeys_def\<close>)
  then show ?thesis by (auto simp: size_ok_def Let_def)
qed

theorem limiter_memory_bound_witness:
  "let rl = snd (run_calls allow (newRateLimiter 2 hour)
               [(rev, ''a'', 5), (rev, ''a'', 3), (id, ''a'', 4), (id, ''b'', 9)])
   in hits rl = [(''a'', [5, 3]), (''b'', [9])] \<and> int (length (hits rl)) \<le> maxTrackedKeys"
proof -
  let ?cs = "[(rev, ''a'', 5), (rev, ''a'', 3), (id :: map_order, ''a'', 4), (id, ''b'', 9)]"
  have "hits (snd (run_calls allow (newRateLimiter 2 hour) ?cs)) = [(''a'', [5, 3]), (''b'', [9])]"
    by code_simp
  moreover have "\<forall>c \<in> set ?cs. order_of_map (fst c)" by (simp add: order_of_map_def)
  ultimately show ?thesis using limiter_memory_bound [of 2 ?cs hour] by (simp add: Let_def)
qed

text \<open>What the limiter records of a key is part of what it granted, however calls interleave.\<close>

lemma mset_recorded_allow:
  assumes "rl_wf rl"
  shows "mset (hits_of (snd (allow ord rl k now)) j) \<subseteq>#
     mset (hits_of rl j @ (if j = k \<and> fst (allow ord rl k now) then [now] else []))"
proof -
  let ?s = "swept rl now"
  have s: "mset (hits_of ?s j) \<subseteq># mset (hits_of rl j)" for j
    using swept_hits [OF assms, of now j] by auto
  have wf: "rl_wf ?s" using assms by (rule swept_wf)
  have r: "mset (hits_of (make_room ord ?s k now) j) \<subseteq># mset (hits_of ?s j)" for j
    using wf by (auto simp: make_room_def Let_def hits_of_sweep hits_of_evictBatch sweep_wf)
  have "mset (live ?s k now) \<subseteq># mset (hits_of rl k)"
    using s [of k] by (auto simp: live_def intro: subset_mset.order_trans multiset_filter_subset)
  then show ?thesis
    using s [of j] subset_mset.order_trans [OF r [of j] s [of j]] by (auto simp: recorded_allow)
qed

lemma mset_recorded_run:
  "rl_wf rl \<Longrightarrow> \<forall>k. mset (hits_of rl k) \<subseteq># mset (times_of log k) \<Longrightarrow>
   run_calls allow rl cs = (bs, rl') \<Longrightarrow>
     rl_wf rl' \<and> (\<forall>k. mset (hits_of rl' k) \<subseteq># mset (times_of (log @ granted (map snd cs) bs) k))"
proof (induction cs arbitrary: rl log bs)
  case Nil
  then show ?case by simp
next
  case (Cons c cs)
  obtain ord k now where c: "c = (ord, k, now)" by (cases c)
  let ?ok = "fst (allow ord rl k now)" and ?rl1 = "snd (allow ord rl k now)"
  obtain bs' where bs: "bs = ?ok # bs'" "run_calls allow ?rl1 cs = (bs', rl')"
    using Cons.prems(3) by (cases "run_calls allow ?rl1 cs") (auto simp: c)
  let ?log1 = "if ?ok then log @ [(k, now)] else log"
  have "mset (hits_of ?rl1 j) \<subseteq># mset (times_of ?log1 j)" for j
  proof -
    have "mset (hits_of rl j @ (if j = k \<and> ?ok then [now] else [])) \<subseteq># mset (times_of ?log1 j)"
      using Cons.prems(2) by (auto simp: subset_mset.add_right_mono)
    with mset_recorded_allow [OF Cons.prems(1), of ord k now j] show ?thesis
      by (rule subset_mset.order_trans)
  qed
  with Cons.IH [OF allow_wf [OF Cons.prems(1), of ord k now] _ bs(2), of ?log1]
  have ih: "rl_wf rl'"
    "\<And>j. mset (hits_of rl' j) \<subseteq># mset (times_of (?log1 @ granted (map snd cs) bs') j)" by blast+
  have "mset (hits_of rl' j) \<subseteq># mset (times_of (log @ granted (map snd (c # cs)) bs) j)" for j
    using ih(2) [of j] by (cases "?ok"; cases "k = j") (simp_all add: c bs(1))
  with ih(1) show ?case by blast
qed



text \<open>Every tracked key was seen after the last sweep's cutoff.\<close>

definition fresh_inv :: "time \<Rightarrow> rate_limiter \<Rightarrow> bool" where
  "fresh_inv t rl \<longleftrightarrow> rl_wf rl \<and> lastSweep rl \<le> t
     \<and> (\<forall>(k, ts) \<in> set (hits rl). ts \<noteq> [] \<and> lastSweep rl - win rl < last ts)"

lemma fresh_inv_sweep: "fresh_inv t rl \<Longrightarrow> t \<le> now \<Longrightarrow> fresh_inv now (sweep now rl)"
  by (auto simp: fresh_inv_def sweep_wf) (auto simp: sweep_def Let_def)

lemma fresh_inv_swept:
  assumes "fresh_inv t rl" and "t \<le> now" and "0 < win rl" and "win rl \<le> max_duration"
  shows "fresh_inv now (swept rl now) \<and> now - lastSweep (swept rl now) < win rl"
proof (cases "time_sub now (lastSweep rl) \<ge> win rl")
  case True
  with assms fresh_inv_sweep show ?thesis by (auto simp: swept_def)
next
  case False
  with assms show ?thesis by (auto simp: swept_def fresh_inv_def time_sub_ge_iff)
qed

lemma fresh_inv_make_room: "fresh_inv now rl \<Longrightarrow> fresh_inv now (make_room ord rl k now)"
  using fresh_inv_sweep [of now rl now] set_evictBatch
  by (fastforce simp: make_room_def Let_def fresh_inv_def evictBatch_wf)

lemma make_room_lastSweep: "lastSweep (make_room ord rl k now) \<in> {lastSweep rl, now}"
  by (simp add: make_room_def Let_def)

lemma fresh_inv_update:
  assumes "fresh_inv now rl" and "ts \<noteq> []" and "lastSweep rl - win rl < last ts"
  shows "fresh_inv now (rl\<lparr>hits := AList.update k ts (hits rl)\<rparr>)"
  using assms set_update_subset [of k ts "hits rl"]
  by (fastforce simp: fresh_inv_def rl_wf_update)

lemma last_live: "live rl k now \<noteq> [] \<Longrightarrow> now - win rl < last (live rl k now)"
  using last_in_set [of "live rl k now"] by (auto simp: live_def)

lemma fresh_inv_allow:
  assumes "fresh_inv t rl" and "t \<le> now" and "0 < win rl" and "win rl \<le> max_duration"
    and "1 \<le> limit rl"
  shows "fresh_inv now (snd (allow ord rl k now))
     \<and> now - lastSweep (snd (allow ord rl k now)) < win rl"
proof -
  let ?s = "swept rl now" and ?kept = "live (swept rl now) k now"
  let ?r = "make_room ord ?s k now"
  from fresh_inv_swept [OF assms(1-4)] have s: "fresh_inv now ?s" "now - lastSweep ?s < win rl"
    by auto
  have r: "fresh_inv now ?r" "now - lastSweep ?r < win rl" "lastSweep ?r \<le> now"
    using fresh_inv_make_room [OF s(1), of ord k] make_room_lastSweep [of ord ?s k now] s assms(3)
    by (auto simp: fresh_inv_def)
  have le: "lastSweep ?s \<le> now" using s(1) by (simp add: fresh_inv_def)
  show ?thesis
  proof (cases "int (length ?kept) \<ge> limit ?s")
    case True
    then have ne: "?kept \<noteq> []" using assms(5) by auto
    then have "fresh_inv now (?s\<lparr>hits := AList.update k ?kept (hits ?s)\<rparr>)"
      using s(1) last_live [of ?s k now] le by (intro fresh_inv_update) auto
    with True s show ?thesis by (simp add: allow_steps Let_def)
  next
    case False
    have "fresh_inv now (?r\<lparr>hits := AList.update k (?kept @ [now]) (hits ?r)\<rparr>)"
      using r assms(3) by (intro fresh_inv_update) auto
    with False r show ?thesis by (simp add: allow_steps Let_def)
  qed
qed

lemma fresh_inv_run:
  "fresh_inv t rl \<Longrightarrow> calls_from t UNIV (map snd cs) \<Longrightarrow> cs \<noteq> [] \<Longrightarrow>
   0 < win rl \<Longrightarrow> win rl \<le> max_duration \<Longrightarrow> 1 \<le> limit rl \<Longrightarrow>
   (let rl' = snd (run_calls allow rl cs); now = snd (snd (last cs))
    in fresh_inv now rl' \<and> now - lastSweep rl' < win rl \<and> win rl' = win rl)"
proof (induction cs arbitrary: rl t)
  case Nil
  then show ?case by simp
next
  case (Cons c cs)
  obtain ord k now where c: "c = (ord, k, now)" by (cases c)
  let ?rl1 = "snd (allow ord rl k now)"
  have a: "fresh_inv now ?rl1" "now - lastSweep ?rl1 < win rl"
    using Cons.prems fresh_inv_allow [of t rl now ord k] by (auto simp: c)
  show ?case
  proof (cases "cs = []")
    case True
    with a show ?thesis by (simp add: c)
  next
    case False
    with Cons.IH [OF a(1)] Cons.prems show ?thesis by (simp add: c Let_def)
  qed
qed

text \<open>C6. Idle keys are forgotten: after any run in time order, every tracked key was seen within
  the last two windows. (One window is not enough: a sweep runs at most once per window, so a
  key may outlive its own window by almost another, as \<open>idle_key_outlives_window\<close> shows.)\<close>

theorem limiter_forgets_idle_keys:
  assumes "0 < w" and "w \<le> max_duration" and "1 \<le> lim" and "0 \<le> t"
    and "calls_from t UNIV (map snd cs)" and "cs \<noteq> []"
    and "(k, ts) \<in> set (hits (snd (run_calls allow (newRateLimiter lim w) cs)))"
  shows "ts \<noteq> [] \<and> snd (snd (last cs)) - 2 * w < last ts"
proof -
  have "fresh_inv t (newRateLimiter lim w)"
    using assms(4) by (simp add: fresh_inv_def) (simp add: newRateLimiter_def)
  from fresh_inv_run [OF this assms(5,6)] assms(1-3,7) show ?thesis
    by (force simp: newRateLimiter_def fresh_inv_def Let_def)
qed

theorem limiter_forgets_idle_keys_witness:
  "let cs = [(id, ''a'', hour), (id, ''b'', 4 * hour)]
   in hits (snd (run_calls allow (newRateLimiter 1 hour) cs)) = [(''b'', [4 * hour])]
      \<and> 4 * hour - 2 * hour < last [4 * hour]"
proof -
  let ?cs = "[(id :: map_order, ''a'', hour), (id, ''b'', 4 * hour)]"
  have e: "hits (snd (run_calls allow (newRateLimiter 1 hour) ?cs)) = [(''b'', [4 * hour])]"
    by code_simp
  have "snd (snd (last ?cs)) - 2 * hour < last [4 * hour]"
    using limiter_forgets_idle_keys [of hour 1 0 ?cs "''b''" "[4 * hour]"] e hour_pos
    by (simp add: calls_from_def hour_def second_def max_duration_def)
  with e show ?thesis by (simp add: Let_def)
qed

lemma idle_key_outlives_window:
  "let minute = 60 * second;
       cs = [(id, ''a'', 10 * hour), (id, ''b'', 10 * hour + 30 * minute),
             (id, ''c'', 11 * hour + 15 * minute), (id, ''c'', 12 * hour + 10 * minute)];
       b_hit = 10 * hour + 30 * minute; now = snd (snd (last cs))
   in (''b'', [b_hit]) \<in> set (hits (snd (run_calls allow (newRateLimiter 5 hour) cs)))
      \<and> b_hit \<le> now - hour"
  by code_simp

text \<open>C7. The in-place filter of \<open>allow\<close>: appending to \<open>hits[key][:0]\<close> while ranging over the
  same backing array never overwrites an element before it is read; what is left in the prefix is
  exactly the unexpired hits in order, and the array keeps its length.\<close>

lemma compact_loop_length: "length (fst (compact_loop cutoff a i j)) = length a"
proof (induction cutoff a i j rule: compact_loop.induct)
  case (1 cutoff a i j)
  then show ?case by (simp add: compact_loop.simps [of cutoff a i j])
qed

theorem allow_filters_in_place:
  "let (b, n) = compact_loop cutoff a 0 0
   in take n b = filter (\<lambda>t. t > cutoff) a \<and> length b = length a"
  using compact_loop_filter [of 0 0 a cutoff] compact_loop_length [of cutoff a 0 0]
  by (auto split: prod.split)

end
