(* ===== verification/GoStrings.thy ===== *)
theory GoStrings
  imports Prelude
begin

text \<open>
  The functions of Go's packages \<open>strings\<close>, \<open>strconv\<close> and \<open>unicode/utf8\<close> that
  the services call, on byte strings. UTF-8 decoding is Go's (an invalid byte decodes as the
  replacement rune, width one). The Unicode case tables are not modelled: they are the function
  \<open>tab\<close> that the case-mapping functions take, consulted for runes outside ASCII only.
\<close>

section \<open>UTF-8\<close>

lemma of_char_int [simp]: "(0::int) \<le> of_char c" "of_char c < (256::int)"
  using nat_of_char_less_256 [of c]
  by (metis of_nat_0_le_iff of_nat_of_char, metis of_nat_less_iff of_nat_numeral of_nat_of_char)

type_synonym rune = int

definition rune_error :: rune where "rune_error = 0xFFFD"

definition cont :: "int \<Rightarrow> bool" where "cont b \<longleftrightarrow> 0x80 \<le> b \<and> b \<le> 0xBF"

text \<open>\<open>utf8.DecodeRune\<close>: the first rune of a byte sequence and its width.\<close>

definition decode2 :: "int \<Rightarrow> int list \<Rightarrow> rune \<times> nat" where
  "decode2 a r = (case r of
     b # _ \<Rightarrow> if cont b then ((a - 0xC0) * 64 + (b - 0x80), 2) else (rune_error, 1)
   | [] \<Rightarrow> (rune_error, 1))"

definition decode3 :: "int \<Rightarrow> int list \<Rightarrow> rune \<times> nat" where
  "decode3 a r = (case r of
     b # c # _ \<Rightarrow>
       if (if a = 0xE0 then 0xA0 else 0x80) \<le> b \<and> b \<le> (if a = 0xED then 0x9F else 0xBF) \<and> cont c
       then ((a - 0xE0) * 4096 + (b - 0x80) * 64 + (c - 0x80), 3) else (rune_error, 1)
   | _ \<Rightarrow> (rune_error, 1))"

definition decode4 :: "int \<Rightarrow> int list \<Rightarrow> rune \<times> nat" where
  "decode4 a r = (case r of
     b # c # d # _ \<Rightarrow>
       if (if a = 0xF0 then 0x90 else 0x80) \<le> b \<and> b \<le> (if a = 0xF4 then 0x8F else 0xBF)
          \<and> cont c \<and> cont d
       then ((a - 0xF0) * 262144 + (b - 0x80) * 4096 + (c - 0x80) * 64 + (d - 0x80), 4)
       else (rune_error, 1)
   | _ \<Rightarrow> (rune_error, 1))"

fun decode_rune :: "int list \<Rightarrow> rune \<times> nat" where
  "decode_rune [] = (rune_error, 0)"
| "decode_rune (a # r) =
     (if a < 0x80 then (a, 1)
      else if 0xC2 \<le> a \<and> a \<le> 0xDF then decode2 a r
      else if 0xE0 \<le> a \<and> a \<le> 0xEF then decode3 a r
      else if 0xF0 \<le> a \<and> a \<le> 0xF4 then decode4 a r
      else (rune_error, 1))"

lemma decode_rune_width: "bs \<noteq> [] \<Longrightarrow> 1 \<le> snd (decode_rune bs)"
  by (cases bs) (auto simp: decode2_def decode3_def decode4_def split: list.split)

text \<open>\<open>[]rune(s)\<close>, and \<open>for _, c := range s\<close>: the runes of the whole string.\<close>

function runes_of :: "int list \<Rightarrow> rune list" where
  "runes_of bs = (if bs = [] then []
     else fst (decode_rune bs) # runes_of (drop (snd (decode_rune bs)) bs))"
  by pat_completeness auto
termination
  by (relation "measure length") (use decode_rune_width in \<open>fastforce\<close>)+

declare runes_of.simps [simp del]

definition runes :: "string \<Rightarrow> rune list" where
  "runes s = runes_of (map of_char s)"

text \<open>\<open>utf8.AppendRune\<close> and \<open>string(rs)\<close>: surrogates and values past the last code
  point are written as the replacement rune.\<close>

definition valid_rune :: "rune \<Rightarrow> bool" where
  "valid_rune r \<longleftrightarrow> 0 \<le> r \<and> r \<le> 0x10FFFF \<and> \<not> (0xD800 \<le> r \<and> r \<le> 0xDFFF)"

definition encode_bytes :: "rune \<Rightarrow> int list" where
  "encode_bytes r =
     (let r = (if valid_rune r then r else rune_error) in
      if r < 0x80 then [r]
      else if r < 0x800 then [0xC0 + r div 64, 0x80 + r mod 64]
      else if r < 0x10000 then [0xE0 + r div 4096, 0x80 + r div 64 mod 64, 0x80 + r mod 64]
      else [0xF0 + r div 262144, 0x80 + r div 4096 mod 64, 0x80 + r div 64 mod 64, 0x80 + r mod 64])"

definition encode_runes :: "rune list \<Rightarrow> string" where
  "encode_runes rs = map char_of (concat (map encode_bytes rs))"

lemma encode_bytes_byte: "b \<in> set (encode_bytes r) \<Longrightarrow> 0 \<le> b \<and> b < 256"
  by (auto simp: encode_bytes_def Let_def valid_rune_def rune_error_def split: if_splits)

text \<open>Each width on its digits in base 64; the bounds are the shortest-form and surrogate rules.\<close>

lemma decode2_digits:
  "2 \<le> x \<Longrightarrow> x \<le> 31 \<Longrightarrow> 0 \<le> y \<Longrightarrow> y < 64 \<Longrightarrow>
     decode_rune ((0xC0 + x) # (0x80 + y) # bs) = (x * 64 + y, 2)"
  by (simp add: decode2_def cont_def)

lemma decode3_digits:
  "0 \<le> x \<Longrightarrow> x \<le> 15 \<Longrightarrow> 0 \<le> y \<Longrightarrow> y < 64 \<Longrightarrow> 0 \<le> z \<Longrightarrow> z < 64 \<Longrightarrow>
   (x = 0 \<Longrightarrow> 32 \<le> y) \<Longrightarrow> (x = 13 \<Longrightarrow> y < 32) \<Longrightarrow>
     decode_rune ((0xE0 + x) # (0x80 + y) # (0x80 + z) # bs) = (x * 4096 + y * 64 + z, 3)"
  by (auto simp: decode3_def cont_def)

lemma decode4_digits:
  "0 \<le> x \<Longrightarrow> x \<le> 4 \<Longrightarrow> 0 \<le> y \<Longrightarrow> y < 64 \<Longrightarrow> 0 \<le> z \<Longrightarrow> z < 64 \<Longrightarrow> 0 \<le> w \<Longrightarrow> w < 64 \<Longrightarrow>
   (x = 0 \<Longrightarrow> 16 \<le> y) \<Longrightarrow> (x = 4 \<Longrightarrow> y < 16) \<Longrightarrow>
     decode_rune ((0xF0 + x) # (0x80 + y) # (0x80 + z) # (0x80 + w) # bs)
       = (x * 262144 + y * 4096 + z * 64 + w, 4)"
  by (auto simp: decode4_def cont_def)

lemma digits2: "(r::int) div 64 * 64 + r mod 64 = r"
  by (rule div_mult_mod_eq)

lemma digits3: "(r::int) div 4096 * 4096 + r div 64 mod 64 * 64 + r mod 64 = r"
proof -
  have "r div 64 div 64 = r div 4096" by (simp add: zdiv_zmult2_eq [symmetric])
  then show ?thesis
    using digits2 [of r] digits2 [of "r div 64"] by linarith
qed

lemma digits4:
  "(r::int) div 262144 * 262144 + r div 4096 mod 64 * 4096 + r div 64 mod 64 * 64 + r mod 64 = r"
proof -
  have "r div 4096 div 64 = r div 262144" by (simp add: zdiv_zmult2_eq [symmetric])
  then show ?thesis
    using digits3 [of r] digits2 [of "r div 4096"] by linarith
qed

lemma decode_encode:
  assumes v: "valid_rune r"
  shows "decode_rune (encode_bytes r @ bs) = (r, length (encode_bytes r))"
proof -
  consider "0 \<le> r" "r < 0x80" | "0x80 \<le> r" "r < 0x800" | "0x800 \<le> r" "r < 0x10000"
    | "0x10000 \<le> r" "r < 0x110000"
    using v by (force simp: valid_rune_def)
  then show ?thesis
  proof cases
    case 1
    with v show ?thesis by (simp add: encode_bytes_def)
  next
    case 2
    obtain x y where xy: "x = r div 64" "y = r mod 64" by blast
    have d: "x * 64 + y = r" "0 \<le> y" "y < 64" unfolding xy by (simp_all add: digits2)
    with 2 have "2 \<le> x" "x \<le> 31" by linarith+
    from decode2_digits [OF this d(2,3), of bs] 2 v show ?thesis
      by (simp add: encode_bytes_def d(1) del: decode_rune.simps flip: xy)
  next
    case 3
    obtain x y z where xyz: "x = r div 4096" "y = r div 64 mod 64" "z = r mod 64" by blast
    have d: "x * 4096 + y * 64 + z = r" "0 \<le> y" "y < 64" "0 \<le> z" "z < 64"
      unfolding xyz by (simp_all add: digits3)
    have b: "0 \<le> x" "x \<le> 15" using 3 d by linarith+
    have e: "x = 0 \<Longrightarrow> 32 \<le> y" using 3 d by linarith
    have f: "x = 13 \<Longrightarrow> y < 32"
    proof -
      assume "x = 13"
      with v d have "r < 0xD800" by (auto simp: valid_rune_def)
      with \<open>x = 13\<close> d show ?thesis by linarith
    qed
    from decode3_digits [OF b d(2-5) e f, of bs] 3 v show ?thesis
      by (simp add: encode_bytes_def d(1) del: decode_rune.simps flip: xyz)
  next
    case 4
    obtain x y z w where xyz: "x = r div 262144" "y = r div 4096 mod 64" "z = r div 64 mod 64"
      "w = r mod 64" by blast
    have d: "x * 262144 + y * 4096 + z * 64 + w = r" "0 \<le> y" "y < 64" "0 \<le> z" "z < 64"
      "0 \<le> w" "w < 64"
      unfolding xyz by (simp_all add: digits4)
    have b: "0 \<le> x" "x \<le> 4" using 4 d by linarith+
    have e: "x = 0 \<Longrightarrow> 16 \<le> y" "x = 4 \<Longrightarrow> y < 16" using 4 d by linarith+
    from decode4_digits [OF b d(2-7) e, of bs] 4 v show ?thesis
      by (simp add: encode_bytes_def d(1) del: decode_rune.simps flip: xyz)
  qed
qed

lemma encode_bytes_ne [simp]: "encode_bytes r \<noteq> []"
  by (simp add: encode_bytes_def Let_def)

lemma runes_of_encode:
  "valid_rune r \<Longrightarrow> runes_of (encode_bytes r @ bs) = r # runes_of bs"
proof -
  assume v: "valid_rune r"
  show ?thesis
    using decode_encode [OF v, of bs] by (subst runes_of.simps) simp
qed

lemma runes_encode_runes: "list_all valid_rune rs \<Longrightarrow> runes (encode_runes rs) = rs"
proof (induction rs)
  case Nil
  show ?case by (simp add: runes_def encode_runes_def runes_of.simps)
next
  case (Cons r rs)
  have m: "map of_char (map char_of bs) = bs" if "\<forall>b \<in> set bs. 0 \<le> b \<and> b < 256" for bs :: "int list"
    using that by (induction bs) auto
  have "map of_char (encode_runes qs) = concat (map encode_bytes qs)" for qs
    unfolding encode_runes_def by (rule m) (auto dest: encode_bytes_byte)
  with Cons show ?case
    by (simp add: runes_def runes_of_encode)
qed

lemma runes_of_ascii: "list_all (\<lambda>b. b < 0x80) bs \<Longrightarrow> runes_of bs = bs"
  by (induction bs) (simp_all add: runes_of.simps)

definition ascii :: "string \<Rightarrow> bool" where
  "ascii s \<longleftrightarrow> list_all (\<lambda>c. of_char c < (0x80::int)) s"

lemma runes_ascii [go_string]: "ascii s \<Longrightarrow> runes s = map of_char s"
  unfolding runes_def by (rule runes_of_ascii) (simp add: ascii_def list_all_iff)

text \<open>An ASCII byte never belongs to the encoding of another rune, so it splits the runes of a
  string; and what decoding returns is always a valid rune.\<close>

lemma decode_rune_ascii_stop:
  assumes "b < 0x80" and "bs \<noteq> []"
  shows "decode_rune (bs @ b # ys) = decode_rune bs \<and> snd (decode_rune bs) \<le> length bs"
proof -
  from assms(2) obtain a r where bs: "bs = a # r" by (cases bs) auto
  have "decode2 a (r @ b # ys) = decode2 a r \<and> snd (decode2 a r) \<le> Suc (length r)"
    using assms(1) by (cases r) (auto simp: decode2_def cont_def)
  moreover have "decode3 a (r @ b # ys) = decode3 a r \<and> snd (decode3 a r) \<le> Suc (length r)"
    using assms(1) by (auto simp: decode3_def cont_def Cons_eq_append_conv split: list.split)
  moreover have "decode4 a (r @ b # ys) = decode4 a r \<and> snd (decode4 a r) \<le> Suc (length r)"
    using assms(1) by (auto simp: decode4_def cont_def Cons_eq_append_conv split: list.split)
  ultimately show ?thesis by (simp add: bs)
qed

lemma runes_of_Cons_ascii: "b < 0x80 \<Longrightarrow> runes_of (b # bs) = b # runes_of bs"
  by (subst runes_of.simps) simp

lemma runes_of_ascii_boundary:
  "b < 0x80 \<Longrightarrow> runes_of (xs @ b # ys) = runes_of xs @ b # runes_of ys"
proof (induction xs rule: runes_of.induct)
  case (1 xs)
  show ?case
  proof (cases "xs = []")
    case True
    with 1 show ?thesis by (simp add: runes_of_Cons_ascii runes_of.simps [of "[]"])
  next
    case False
    note stop = decode_rune_ascii_stop [OF 1(2) False, of ys]
    with 1(1) [OF False 1(2)] False show ?thesis
      by (subst runes_of.simps, subst (2) runes_of.simps) simp
  qed
qed

lemma runes_of_ascii_run:
  "b < 0x80 \<Longrightarrow> 0 < k \<Longrightarrow>
     runes_of (xs @ replicate k b @ ys) = runes_of xs @ replicate k b @ runes_of ys"
proof (induction k arbitrary: xs)
  case 0
  then show ?case by simp
next
  case (Suc k)
  show ?case
  proof (cases "k = 0")
    case True
    with Suc.prems show ?thesis by (simp add: runes_of_ascii_boundary)
  next
    case False
    with Suc show ?thesis
      using Suc.IH [of "xs @ [b]"] runes_of_ascii_boundary [of b xs "[]"]
      by (simp add: runes_of.simps [of "[]"])
  qed
qed

text \<open>A run of an ASCII byte in a string is a run of that rune in its runes.\<close>

lemma sublist_runes_run:
  assumes "sublist (replicate k c) s" and "of_char c < (0x80::int)" and "0 < k"
  shows "sublist (replicate k (of_char c)) (runes s)"
proof -
  from assms(1) obtain p q where s: "s = p @ replicate k c @ q" by (auto simp: sublist_def)
  have "runes s = runes p @ replicate k (of_char c) @ runes q"
    using runes_of_ascii_run [OF assms(2,3), of "map of_char p" "map of_char q"]
    by (simp add: runes_def s)
  then show ?thesis by (simp add: sublist_def) blast
qed

lemma decode_rune_valid:
  assumes "\<forall>b \<in> set bs. 0 \<le> b"
  shows "valid_rune (fst (decode_rune bs))"
proof (cases bs)
  case Nil
  then show ?thesis by (simp add: valid_rune_def rune_error_def)
next
  case (Cons a r)
  have e: "valid_rune rune_error" by (simp add: valid_rune_def rune_error_def)
  have 2: "valid_rune (fst (decode2 a r))" if "0xC2 \<le> a" "a \<le> 0xDF"
    using that by (auto simp: decode2_def cont_def valid_rune_def rune_error_def split: list.split)
  have 3: "valid_rune (fst (decode3 a r))" if "0xE0 \<le> a" "a \<le> 0xEF"
  proof -
    have "valid_rune ((a - 0xE0) * 4096 + (b - 0x80) * 64 + (c - 0x80))"
      if "(if a = 0xE0 then 0xA0 else 0x80) \<le> b" "b \<le> (if a = 0xED then 0x9F else 0xBF)" "cont c"
      for b c
      using that \<open>0xE0 \<le> a\<close> \<open>a \<le> 0xEF\<close>
      by (auto simp: valid_rune_def cont_def split: if_splits)
    with e show ?thesis by (auto simp: decode3_def split: list.split)
  qed
  have 4: "valid_rune (fst (decode4 a r))" if "0xF0 \<le> a" "a \<le> 0xF4"
  proof -
    have "valid_rune ((a - 0xF0) * 262144 + (b - 0x80) * 4096 + (c - 0x80) * 64 + (d - 0x80))"
      if "(if a = 0xF0 then 0x90 else 0x80) \<le> b" "b \<le> (if a = 0xF4 then 0x8F else 0xBF)"
        "cont c" "cont d" for b c d
      using that \<open>0xF0 \<le> a\<close> \<open>a \<le> 0xF4\<close>
      by (auto simp: valid_rune_def cont_def split: if_splits)
    with e show ?thesis by (auto simp: decode4_def split: list.split)
  qed
  show ?thesis
    using 2 3 4 e assms by (auto simp: Cons valid_rune_def [of a])
qed

lemma runes_of_valid: "\<forall>b \<in> set bs. 0 \<le> b \<Longrightarrow> list_all valid_rune (runes_of bs)"
proof (induction bs rule: runes_of.induct)
  case (1 bs)
  show ?case
  proof (cases "bs = []")
    case True
    then show ?thesis by (simp add: runes_of.simps)
  next
    case False
    with 1 have "list_all valid_rune (runes_of (drop (snd (decode_rune bs)) bs))"
      by (meson in_set_dropD)
    with False decode_rune_valid [OF 1(2)] show ?thesis
      by (subst runes_of.simps) simp
  qed
qed

lemma runes_valid: "list_all valid_rune (runes s)"
  unfolding runes_def by (rule runes_of_valid) auto

lemma encode_runes_append: "encode_runes (a @ b) = encode_runes a @ encode_runes b"
  by (simp add: encode_runes_def)

section \<open>Case mapping\<close>

text \<open>\<open>unicode.ToLower\<close> and the representative of a rune's \<open>SimpleFold\<close> orbit: ASCII by
  arithmetic, the rest by the table.\<close>

definition rune_lower :: "(rune \<Rightarrow> rune) \<Rightarrow> rune \<Rightarrow> rune" where
  "rune_lower tab r = (if r < 0x80 then (if 65 \<le> r \<and> r \<le> 90 then r + 32 else r) else tab r)"

definition to_lower :: "(rune \<Rightarrow> rune) \<Rightarrow> string \<Rightarrow> string" where
  "to_lower tab s = encode_runes (map (rune_lower tab) (runes s))"

definition equal_fold :: "(rune \<Rightarrow> rune) \<Rightarrow> string \<Rightarrow> string \<Rightarrow> bool" where
  "equal_fold tab s t \<longleftrightarrow> map (rune_lower tab) (runes s) = map (rune_lower tab) (runes t)"

definition char_lower :: "char \<Rightarrow> char" where
  "char_lower c = char_of (rune_lower id (of_char c))"

lemma encode_runes_ascii: "list_all (\<lambda>r. 0 \<le> r \<and> r < 0x80) rs \<Longrightarrow> encode_runes rs = map char_of rs"
proof -
  assume "list_all (\<lambda>r. 0 \<le> r \<and> r < 0x80) rs"
  then have "concat (map encode_bytes rs) = rs"
    by (induction rs) (simp_all add: encode_bytes_def valid_rune_def)
  then show ?thesis by (simp add: encode_runes_def)
qed

lemma to_lower_ascii [go_string]: "ascii s \<Longrightarrow> to_lower tab s = map char_lower s"
proof -
  assume a: "ascii s"
  have "to_lower tab s = map char_of (map (rune_lower tab) (map of_char s))"
    unfolding to_lower_def runes_ascii [OF a]
    by (rule encode_runes_ascii) (use a in \<open>auto simp: ascii_def list_all_iff rune_lower_def\<close>)
  also have "\<dots> = map char_lower s"
    using a by (auto simp: ascii_def list_all_iff char_lower_def rune_lower_def)
  finally show ?thesis .
qed

lemma equal_fold_refl [simp]: "equal_fold tab s s"
  by (simp add: equal_fold_def)

section \<open>White space\<close>

text \<open>The encodings of the runes past ASCII that \<open>unicode.IsSpace\<close> accepts: U+0085, U+00A0,
  U+1680, U+2000 to U+200A, U+2028, U+2029, U+202F, U+205F, U+3000.\<close>

definition wide_spaces :: "string list" where
  "wide_spaces =
     [[CHR 0xC2, CHR 0x85], [CHR 0xC2, CHR 0xA0], [CHR 0xE1, CHR 0x9A, CHR 0x80],
      [CHR 0xE2, CHR 0x80, CHR 0x80], [CHR 0xE2, CHR 0x80, CHR 0x81], [CHR 0xE2, CHR 0x80, CHR 0x82],
      [CHR 0xE2, CHR 0x80, CHR 0x83], [CHR 0xE2, CHR 0x80, CHR 0x84], [CHR 0xE2, CHR 0x80, CHR 0x85],
      [CHR 0xE2, CHR 0x80, CHR 0x86], [CHR 0xE2, CHR 0x80, CHR 0x87], [CHR 0xE2, CHR 0x80, CHR 0x88],
      [CHR 0xE2, CHR 0x80, CHR 0x89], [CHR 0xE2, CHR 0x80, CHR 0x8A], [CHR 0xE2, CHR 0x80, CHR 0xA8],
      [CHR 0xE2, CHR 0x80, CHR 0xA9], [CHR 0xE2, CHR 0x80, CHR 0xAF], [CHR 0xE2, CHR 0x81, CHR 0x9F],
      [CHR 0xE3, CHR 0x80, CHR 0x80]]"

lemma wide_spaces_runes:
  "map runes wide_spaces = map (\<lambda>r. [r])
     ([0x85, 0xA0, 0x1680] @ [0x2000..0x200A] @ [0x2028, 0x2029, 0x202F, 0x205F, 0x3000])"
  by (simp add: wide_spaces_def runes_def runes_of.simps decode2_def decode3_def cont_def upto.simps)

lemma wide_spaces_ne: "e \<in> set wide_spaces \<Longrightarrow> e \<noteq> []"
  by (auto simp: wide_spaces_def)

definition ascii_space :: "char \<Rightarrow> bool" where
  "ascii_space c \<longleftrightarrow> c \<in> {CHR 9, CHR 10, CHR 11, CHR 12, CHR 13, CHR 32}"

text \<open>The width of the white-space rune at either end of a string, 0 when there is none.\<close>

definition lead_space :: "string \<Rightarrow> nat" where
  "lead_space s = (case s of [] \<Rightarrow> 0 | c # _ \<Rightarrow>
     if ascii_space c then 1
     else (case find (\<lambda>e. prefix e s) wide_spaces of None \<Rightarrow> 0 | Some e \<Rightarrow> length e))"

definition trail_space :: "string \<Rightarrow> nat" where
  "trail_space s = (case rev s of [] \<Rightarrow> 0 | c # _ \<Rightarrow>
     if ascii_space c then 1
     else (case find (\<lambda>e. suffix e s) wide_spaces of None \<Rightarrow> 0 | Some e \<Rightarrow> length e))"

lemma lead_space_le: "lead_space s \<le> length s"
  by (auto simp: lead_space_def split: list.split option.split
      dest!: find_SomeD dest: prefix_length_le)

lemma trail_space_le: "trail_space s \<le> length s"
  by (cases s rule: rev_cases)
    (auto simp: trail_space_def split: option.split dest!: find_SomeD dest: suffix_length_le)

function trim_left :: "string \<Rightarrow> string" where
  "trim_left s = (if lead_space s = 0 then s else trim_left (drop (lead_space s) s))"
  by pat_completeness auto
termination
proof (relation "measure length")
  fix s :: string
  assume "lead_space s \<noteq> 0"
  with lead_space_le [of s] show "(drop (lead_space s) s, s) \<in> measure length" by auto
qed simp

function trim_right :: "string \<Rightarrow> string" where
  "trim_right s =
     (if trail_space s = 0 then s else trim_right (take (length s - trail_space s) s))"
  by pat_completeness auto
termination
proof (relation "measure length")
  fix s :: string
  assume "trail_space s \<noteq> 0"
  with trail_space_le [of s] show "(take (length s - trail_space s) s, s) \<in> measure length"
    by auto
qed simp

declare trim_left.simps [simp del] trim_right.simps [simp del]

definition trim_space :: "string \<Rightarrow> string" where
  "trim_space s = trim_right (trim_left s)"

lemma trim_left_suffix: "suffix (trim_left s) s"
proof (induction s rule: trim_left.induct)
  case (1 s)
  then show ?case
    by (cases "lead_space s = 0")
      (auto simp: trim_left.simps [of s] intro: suffix_order.trans suffix_drop)
qed

lemma trim_right_prefix: "prefix (trim_right s) s"
proof (induction s rule: trim_right.induct)
  case (1 s)
  then show ?case
    by (cases "trail_space s = 0")
      (auto simp: trim_right.simps [of s] intro: prefix_order.trans take_is_prefix)
qed

lemma trim_space_sublist: "sublist (trim_space s) s"
  unfolding trim_space_def
  by (meson prefix_imp_sublist suffix_imp_sublist sublist_order.order.trans
      trim_left_suffix trim_right_prefix)

lemma set_trim_space: "set (trim_space s) \<subseteq> set s"
  using set_mono_sublist [OF trim_space_sublist] .

lemma length_trim_space: "length (trim_space s) \<le> length s"
  using sublist_length_le [OF trim_space_sublist] .

lemma lead_space_trim_left: "lead_space (trim_left s) = 0"
proof (induction s rule: trim_left.induct)
  case (1 s)
  then show ?case by (cases "lead_space s = 0") (simp_all add: trim_left.simps [of s])
qed

lemma trail_space_trim_right: "trail_space (trim_right s) = 0"
proof (induction s rule: trim_right.induct)
  case (1 s)
  then show ?case by (cases "trail_space s = 0") (simp_all add: trim_right.simps [of s])
qed

lemma lead_space_prefix:
  assumes "prefix t s" and "lead_space s = 0"
  shows "lead_space t = 0"
proof (cases t)
  case Nil
  then show ?thesis by (simp add: lead_space_def)
next
  case (Cons c t')
  with assms(1) obtain s' where s: "s = c # s'" by (cases s) (auto simp: prefix_Cons)
  from assms(2) s have c: "\<not> ascii_space c" and f: "find (\<lambda>e. prefix e s) wide_spaces = None"
    by (auto simp: lead_space_def split: if_splits option.splits dest!: find_SomeD wide_spaces_ne)
  have "find (\<lambda>e. prefix e t) wide_spaces = None"
    using f assms(1) by (auto simp: find_None_iff dest: prefix_order.trans)
  with c Cons show ?thesis by (simp add: lead_space_def)
qed

text \<open>A trimmed string begins and ends with no white space; trimming twice changes nothing.\<close>

lemma trim_space_ends: "lead_space (trim_space s) = 0" "trail_space (trim_space s) = 0"
  unfolding trim_space_def
  by (rule lead_space_prefix [OF trim_right_prefix lead_space_trim_left])
    (rule trail_space_trim_right)

lemma trim_space_idem [simp]: "trim_space (trim_space s) = trim_space s"
  using trim_space_ends [of s]
  by (metis trim_left.simps trim_right.simps trim_space_def)

lemma trim_space_Nil [simp]: "trim_space [] = []"
  by (simp add: trim_space_def trim_left.simps trim_right.simps lead_space_def trail_space_def)

section \<open>Splitting, searching, replacing\<close>

text \<open>\<open>strings.Split\<close> at a one-byte separator, \<open>strings.Cut\<close>, \<open>strings.TrimRight\<close> of
  one byte, \<open>strings.ReplaceAll\<close> of one byte.\<close>

fun split_byte :: "char \<Rightarrow> string \<Rightarrow> string list" where
  "split_byte c [] = [[]]"
| "split_byte c (x # xs) =
     (if x = c then [] # split_byte c xs
      else (case split_byte c xs of [] \<Rightarrow> [[x]] | w # ws \<Rightarrow> (x # w) # ws))"

fun cut_byte :: "char \<Rightarrow> string \<Rightarrow> string \<times> string \<times> bool" where
  "cut_byte c [] = ([], [], False)"
| "cut_byte c (x # xs) =
     (if x = c then ([], xs, True)
      else (case cut_byte c xs of (a, b, ok) \<Rightarrow> if ok then (x # a, b, True) else (x # xs, [], False)))"

definition trim_right_byte :: "char \<Rightarrow> string \<Rightarrow> string" where
  "trim_right_byte c s = rev (dropWhile (\<lambda>x. x = c) (rev s))"

definition replace_byte :: "char \<Rightarrow> string \<Rightarrow> string \<Rightarrow> string" where
  "replace_byte c r s = concat (map (\<lambda>x. if x = c then r else [x]) s)"

definition remove_bytes :: "char set \<Rightarrow> string \<Rightarrow> string" where
  "remove_bytes B s = filter (\<lambda>x. x \<notin> B) s"

lemma split_byte_ne [simp]: "split_byte c s \<noteq> []"
  by (induction s) (auto split: list.split)

lemma split_byte_append [go_string]:
  "split_byte c (a @ c # b) = split_byte c a @ split_byte c b"
  by (induction a) (auto split: list.split)

lemma split_byte_notin [go_string]: "c \<notin> set s \<Longrightarrow> split_byte c s = [s]"
  by (induction s) (auto split: list.split)

lemma split_byte_fields: "w \<in> set (split_byte c s) \<Longrightarrow> c \<notin> set w"
  by (induction s arbitrary: w) (auto split: if_splits list.splits)

lemma length_split_byte: "length (split_byte c s) = Suc (count_list s c)"
  by (induction s) (auto split: list.split)

text \<open>Joining the fields with the separator restores the string.\<close>

fun join :: "string \<Rightarrow> string list \<Rightarrow> string" where
  "join sep [] = []"
| "join sep [w] = w"
| "join sep (w # v # ws) = w @ sep @ join sep (v # ws)"

lemma join_split: "join [c] (split_byte c s) = s"
proof (induction s)
  case Nil
  show ?case by simp
next
  case (Cons x s)
  then obtain w ws where w: "split_byte c s = w # ws" by (cases "split_byte c s") auto
  with Cons show ?case by (cases ws) auto
qed

lemma cut_byte_found [go_string]: "c \<notin> set a \<Longrightarrow> cut_byte c (a @ c # b) = (a, b, True)"
  by (induction a) auto

lemma cut_byte_missing [go_string]: "c \<notin> set s \<Longrightarrow> cut_byte c s = (s, [], False)"
  by (induction s) auto

lemma cut_byte_True: "cut_byte c s = (a, b, True) \<Longrightarrow> s = a @ c # b \<and> c \<notin> set a"
  by (induction s arbitrary: a b) (auto split: if_splits prod.splits)

lemma cut_byte_False: "cut_byte c s = (a, b, False) \<Longrightarrow> c \<notin> set s"
  by (induction s arbitrary: a b) (auto split: if_splits prod.splits)

lemma trim_right_byte_last: "s' = trim_right_byte c s \<Longrightarrow> s' = [] \<or> last s' \<noteq> c"
proof -
  assume s': "s' = trim_right_byte c s"
  show ?thesis
  proof (cases "dropWhile (\<lambda>x. x = c) (rev s) = []")
    case True
    with s' show ?thesis by (simp add: trim_right_byte_def)
  next
    case False
    with s' hd_dropWhile [OF False] show ?thesis by (simp add: trim_right_byte_def last_rev)
  qed
qed

lemma trim_right_byte_idem [simp]:
  "trim_right_byte c (trim_right_byte c s) = trim_right_byte c s"
  by (simp add: trim_right_byte_def dropWhile_idem)

lemma remove_bytes_notin [simp]: "b \<in> B \<Longrightarrow> b \<notin> set (remove_bytes B s)"
  by (simp add: remove_bytes_def)

lemma remove_bytes_id: "set s \<inter> B = {} \<Longrightarrow> remove_bytes B s = s"
  by (auto simp: remove_bytes_def filter_id_conv)

section \<open>Decimal integers\<close>

text \<open>\<open>strconv.Atoi\<close>: an optional sign, then decimal digits, within 64 bits. \<open>strconv.Itoa\<close>
  and the verb \<open>%d\<close>.\<close>

definition digit_val :: "char \<Rightarrow> int option" where
  "digit_val c = (let v = of_char c - (48::int) in if 0 \<le> v \<and> v \<le> 9 then Some v else None)"

fun digits_val :: "int \<Rightarrow> string \<Rightarrow> int option" where
  "digits_val acc [] = Some acc"
| "digits_val acc (c # cs) =
     (case digit_val c of None \<Rightarrow> None | Some d \<Rightarrow> digits_val (10 * acc + d) cs)"

definition in_int64 :: "int \<Rightarrow> bool" where
  "in_int64 n \<longleftrightarrow> - 9223372036854775808 \<le> n \<and> n \<le> 9223372036854775807"

definition atoi :: "string \<Rightarrow> int option" where
  "atoi s =
     (let (neg, ds) = (case s of [] \<Rightarrow> (False, [])
                       | c # cs \<Rightarrow> if c = CHR ''-'' then (True, cs)
                                  else if c = CHR ''+'' then (False, cs) else (False, s))
      in if ds = [] then None
         else (case digits_val 0 ds of None \<Rightarrow> None
               | Some n \<Rightarrow> (let v = (if neg then - n else n) in if in_int64 v then Some v else None)))"

function dec_digits :: "int \<Rightarrow> string" where
  "dec_digits n = (if n < 10 then [char_of (48 + n)] else dec_digits (n div 10) @ [char_of (48 + n mod 10)])"
  by pat_completeness auto
termination
  by (relation "measure nat") auto

declare dec_digits.simps [simp del]

definition itoa :: "int \<Rightarrow> string" where
  "itoa n = (if n < 0 then CHR ''-'' # dec_digits (- n) else dec_digits n)"

lemma digits_val_append:
  "digits_val acc (xs @ ys) = (case digits_val acc xs of None \<Rightarrow> None | Some v \<Rightarrow> digits_val v ys)"
  by (induction xs arbitrary: acc) (auto split: option.split)

lemma digit_val_char_of: "0 \<le> d \<Longrightarrow> d < 10 \<Longrightarrow> digit_val (char_of (48 + d :: int)) = Some d"
  by (simp add: digit_val_def)

lemma dec_digits_val: "0 \<le> n \<Longrightarrow> digits_val 0 (dec_digits n) = Some n"
proof (induction n rule: dec_digits.induct)
  case (1 n)
  then show ?case
    by (subst dec_digits.simps) (auto simp: digits_val_append digit_val_char_of)
qed

lemma dec_digits_chars: "0 \<le> n \<Longrightarrow> c \<in> set (dec_digits n) \<Longrightarrow> digit_val c \<noteq> None"
proof (induction n rule: dec_digits.induct)
  case (1 n)
  show ?case
  proof (cases "n < 10")
    case True
    with 1 show ?thesis by (subst (asm) dec_digits.simps) (simp add: digit_val_char_of)
  next
    case False
    then have "dec_digits n = dec_digits (n div 10) @ [char_of (48 + n mod 10)]"
      by (subst dec_digits.simps) simp
    with False 1 show ?thesis by (auto simp: digit_val_char_of)
  qed
qed

lemma dec_digits_ne: "dec_digits n \<noteq> []"
  by (subst dec_digits.simps) simp

lemma atoi_itoa: "in_int64 n \<Longrightarrow> atoi (itoa n) = Some n"
proof -
  assume b: "in_int64 n"
  show ?thesis
  proof (cases "n < 0")
    case True
    with b dec_digits_ne show ?thesis by (simp add: atoi_def itoa_def dec_digits_val)
  next
    case False
    then obtain c cs where c: "dec_digits n = c # cs"
      using dec_digits_ne by (cases "dec_digits n") auto
    have "digit_val c \<noteq> None" using dec_digits_chars [of n c] c False by simp
    then have "c \<noteq> CHR ''-''" "c \<noteq> CHR ''+''" by (auto simp: digit_val_def)
    with c False b dec_digits_val [of n] show ?thesis
      by (simp add: atoi_def itoa_def)
  qed
qed

lemma itoa_chars: "c \<in> set (itoa n) \<Longrightarrow> c = CHR ''-'' \<or> digit_val c \<noteq> None"
  using dec_digits_chars [of n c] dec_digits_chars [of "- n" c]
  by (auto simp: itoa_def split: if_splits)

lemma itoa_no_break [simp]: "CHR 10 \<notin> set (itoa n)" "CHR 13 \<notin> set (itoa n)"
  using itoa_chars [of "CHR 10" n] itoa_chars [of "CHR 13" n] by (auto simp: digit_val_def)

lemma replace_byte_id: "c \<notin> set s \<Longrightarrow> replace_byte c r s = s"
  by (induction s) (auto simp: replace_byte_def)

lemma replace_byte_append: "replace_byte c r (a @ b) = replace_byte c r a @ replace_byte c r b"
  by (simp add: replace_byte_def)

end
