(* ===== verification/GoLib.thy ===== *)
theory GoLib
  imports GoStrings
begin

text \<open>
  What the services take from outside their own code without its source being in the repository:
  the Unicode case tables and the parsers, formatters and encoders of the Go packages
  \<open>net/mail\<close>, \<open>net\<close>, \<open>net/url\<close>, \<open>mime\<close> and \<open>time\<close>. They are the fields of one record, an argument
  of every definition that uses them; where a property relies on what they are documented to
  return, it says so in a hypothesis.

  \<^item> \<open>lower_tab\<close>, \<open>fold_tab\<close>: \<open>unicode.ToLower\<close> and the representative of a rune's
    \<open>unicode.SimpleFold\<close> orbit, for runes outside ASCII;
  \<^item> \<open>parse_address\<close>: \<open>mail.ParseAddress\<close>, the \<open>Address\<close> field or \<open>None\<close> for an error;
  \<^item> \<open>parse_ip\<close>: whether \<open>net.ParseIP\<close> returns an address;
  \<^item> \<open>url_host\<close>: \<open>url.Parse\<close>, the \<open>Host\<close> field or \<open>None\<close> for an error;
  \<^item> \<open>path_escape\<close>: \<open>url.PathEscape\<close>;
  \<^item> \<open>q_encode\<close>: \<open>mime.QEncoding.Encode("utf-8", s)\<close>;
  \<^item> \<open>format_stamp\<close>, \<open>format_rfc1123z\<close>: \<open>t.Format\<close> with the two layouts in use;
  \<^item> \<open>json_parse\<close>: the value a JSON text denotes, \<open>None\<close> when it is malformed (numbers that are
    no 64-bit integers keep their text);
  \<^item> \<open>parse_query\<close>: \<open>url.ParseQuery\<close>, the pairs in order, \<open>None\<close> for an error;
  \<^item> \<open>parse_duration\<close>: \<open>time.ParseDuration\<close>; \<open>go_quote\<close>: the verb \<open>%q\<close>; \<open>status_text\<close>:
    \<open>http.StatusText\<close>;
  \<^item> \<open>format_json_time\<close>, \<open>parse_json_time\<close>: a \<open>time.Time\<close>, its instant and the offset of its zone, as
    the content of a JSON string; the years outside 0 to 9999 have none;
  \<^item> \<open>net_timeout\<close>: whether an error of the network, of a file or of a context is a timeout
    (\<open>context.DeadlineExceeded\<close>, or a \<open>net.Error\<close> whose \<open>Timeout()\<close> is true);
  \<^item> \<open>path_clean\<close>: \<open>filepath.Clean\<close>.
\<close>

datatype json = JNull | JBool bool | JInt int | JNum string | JStr string
  | JArr "json list" | JObj "(string \<times> json) list"

type_synonym zoned_time = "time \<times> int"

record golib =
  lower_tab :: "rune \<Rightarrow> rune"
  fold_tab :: "rune \<Rightarrow> rune"
  parse_address :: "string \<Rightarrow> string option"
  parse_ip :: "string \<Rightarrow> bool"
  url_host :: "string \<Rightarrow> string option"
  path_escape :: "string \<Rightarrow> string"
  q_encode :: "string \<Rightarrow> string"
  format_stamp :: "time \<Rightarrow> string"
  format_rfc1123z :: "time \<Rightarrow> string"
  json_parse :: "string \<Rightarrow> json option"
  parse_query :: "string \<Rightarrow> (string \<times> string) list option"
  parse_duration :: "string \<Rightarrow> duration option"
  go_quote :: "string \<Rightarrow> string"
  status_text :: "int \<Rightarrow> string"
  format_json_time :: "zoned_time \<Rightarrow> string option"
  parse_json_time :: "string \<Rightarrow> zoned_time option"
  net_timeout :: "string \<Rightarrow> bool"
  path_clean :: "string \<Rightarrow> string"

text \<open>
  A small instance of these functions, total and executable, on which the witnesses evaluate the
  model: no case mapping outside ASCII, dotted-quad addresses only, URLs of the form
  \<open>https://host/path\<close>.
\<close>

definition sample_url_host :: "string \<Rightarrow> string option" where
  "sample_url_host s =
     (if prefix ''https://'' s then Some (takeWhile (\<lambda>c. c \<noteq> CHR ''/'') (drop 8 s)) else None)"

definition sample_parse_ip :: "string \<Rightarrow> bool" where
  "sample_parse_ip s \<longleftrightarrow>
     length (split_byte CHR ''.'' s) = 4
     \<and> list_all (\<lambda>w. w \<noteq> [] \<and> list_all (\<lambda>c. digit_val c \<noteq> None) w) (split_byte CHR ''.'' s)"

definition sample_json :: "string \<Rightarrow> json option" where
  "sample_json s =
     (if s = ''{}'' then Some (JObj [])
      else if s = ''{token}'' then Some (JObj [(''access_token'', JStr ''tok'')])
      else if s = ''{error}'' then
        Some (JObj [(''error'', JObj [(''code'', JInt 7), (''message'', JStr ''no such page'')])])
      else if s = ''{book}'' then Some (JObj [(''id'', JInt 5), (''name'', JStr ''Guide'')])
      else None)"

definition sample_query :: "string \<Rightarrow> (string \<times> string) list" where
  "sample_query s =
     (if s = [] then []
      else map (\<lambda>w. case cut_byte CHR ''='' w of (k, v, _) \<Rightarrow> (k, v)) (split_byte CHR ''&'' s))"

definition sample_lib :: golib where
  "sample_lib =
     \<lparr>lower_tab = id, fold_tab = id,
      parse_address = (\<lambda>s. if set s \<inter> set '' <>,;'' = {} then Some s else None),
      parse_ip = sample_parse_ip, url_host = sample_url_host, path_escape = id,
      q_encode = remove_bytes {CHR 10, CHR 13},
      format_stamp = (\<lambda>t. ''T'' @ itoa t), format_rfc1123z = (\<lambda>t. ''T'' @ itoa t),
      json_parse = sample_json, parse_query = Some \<circ> sample_query,
      parse_duration = (\<lambda>s. if s \<noteq> [] \<and> last s = CHR ''s''
                            then map_option (\<lambda>n. n * second) (atoi (butlast s)) else None),
      go_quote = (\<lambda>s. [CHR 0x22] @ s @ [CHR 0x22]),
      status_text = (\<lambda>n. if n = 404 then ''Not Found'' else []),
      format_json_time = (\<lambda>(t, z). if z = 0 then Some (itoa t) else None),
      parse_json_time = (\<lambda>s. map_option (\<lambda>t. (t, 0)) (atoi s)),
      net_timeout = (\<lambda>e. e = ''timeout''), path_clean = id\<rparr>"

end
