(* ===== verification/ContactConfig.thy ===== *)
theory ContactConfig
  imports GoLib "HOL-Library.Word"
begin

text \<open>
  The contact service's configuration, \<open>services/contact/config.go\<close>: reading it from the
  environment, its validation, the readiness tests, the approved-sender policy and the CSRF token's
  encoding. The environment is a function from names to values, empty when unset, as \<open>os.Getenv\<close>.
\<close>

unbundle bit_operations_syntax

section \<open>The configuration\<close>

record Config =
  Listen :: string
  Recipient :: string
  FromAddress :: string
  FromName :: string
  WikiName :: string
  WikiURL :: string
  AllowedDomain :: string
  AllowedSenders :: "string list"
  Transport :: string
  SMTPHost :: string
  SMTPPort :: int
  SMTPUsername :: string
  SMTPPassword :: string
  SMTPEncryption :: string
  GraphTenantID :: string
  GraphClientID :: string
  GraphClientSecret :: string
  GraphSenderUPN :: string
  AgentMailAPIKey :: string
  AgentMailInbox :: string
  AgentMailAPIBase :: string
  GitHubToken :: string
  GitHubRepo :: string
  GitHubAPIBase :: string
  RateLimitPerHour :: int
  GlobalRateLimitPerHour :: int
  GitHubDailyCap :: int
  TrustProxy :: bool
  TrustedProxyHops :: int
  CookieSecure :: bool

datatype config_error =
    BadTransport string
  | BadEncryption string
  | BadRateLimit int
  | BadGlobalRateLimit int
  | BadGitHubCap int
  | BadProxyHops int

definition env :: "getenv \<Rightarrow> string \<Rightarrow> string \<Rightarrow> string" where
  "env g k d = (let v = g k in if v \<noteq> [] then v else d)"

definition envInt :: "getenv \<Rightarrow> string \<Rightarrow> int \<Rightarrow> int" where
  "envInt g k d =
     (let v = g k in if v \<noteq> [] then (case atoi v of Some n \<Rightarrow> n | None \<Rightarrow> d) else d)"

definition envBool :: "golib \<Rightarrow> getenv \<Rightarrow> string \<Rightarrow> bool \<Rightarrow> bool" where
  "envBool L g k d =
     (let v = g k in if v \<noteq> [] then equal_fold (fold_tab L) v ''true'' \<or> v = ''1'' else d)"

definition validate :: "Config \<Rightarrow> config_error option" where
  "validate c =
     (if Transport c \<notin> {''smtp'', ''graph'', ''agentmail''} then Some (BadTransport (Transport c))
      else if SMTPEncryption c \<notin> {''starttls'', ''tls'', ''none''}
        then Some (BadEncryption (SMTPEncryption c))
      else if RateLimitPerHour c < 1 then Some (BadRateLimit (RateLimitPerHour c))
      else if GlobalRateLimitPerHour c < 1
        then Some (BadGlobalRateLimit (GlobalRateLimitPerHour c))
      else if GitHubDailyCap c < 1 then Some (BadGitHubCap (GitHubDailyCap c))
      else if TrustedProxyHops c < 1 then Some (BadProxyHops (TrustedProxyHops c))
      else None)"

text \<open>The loop of \<open>Load\<close> over the comma-separated allowlist.\<close>

fun allowed_senders :: "golib \<Rightarrow> string list \<Rightarrow> string list \<Rightarrow> string list" where
  "allowed_senders L acc [] = acc"
| "allowed_senders L acc (a # as) =
     (let a = trim_space (to_lower (lower_tab L) a)
      in if a \<noteq> [] then allowed_senders L (acc @ [a]) as else allowed_senders L acc as)"

definition Load :: "golib \<Rightarrow> getenv \<Rightarrow> Config \<times> config_error option" where
  "Load L g =
     (let c = \<lparr>Listen = env g ''CONTACT_LISTEN'' '':8080'',
               Recipient = g ''CONTACT_RECIPIENT'',
               FromAddress = g ''MAIL_FROM_ADDRESS'',
               FromName = env g ''MAIL_FROM_NAME'' ''CCC Wiki Contact'',
               WikiName = env g ''CONTACT_WIKI_NAME'' ''CCC Wiki'',
               WikiURL = trim_right_byte CHR ''/'' (env g ''CONTACT_WIKI_URL'' []),
               AllowedDomain = g ''CONTACT_ALLOWED_EMAIL_DOMAIN'',
               AllowedSenders = [],
               Transport = env g ''MAIL_TRANSPORT'' ''smtp'',
               SMTPHost = g ''MAIL_HOST'',
               SMTPPort = envInt g ''MAIL_PORT'' 587,
               SMTPUsername = g ''MAIL_USERNAME'',
               SMTPPassword = g ''MAIL_PASSWORD'',
               SMTPEncryption = to_lower (lower_tab L) (env g ''MAIL_ENCRYPTION'' ''starttls''),
               GraphTenantID = g ''MS_TENANT_ID'',
               GraphClientID = g ''MS_CLIENT_ID'',
               GraphClientSecret = g ''MS_CLIENT_SECRET'',
               GraphSenderUPN = g ''MS_SENDER_UPN'',
               AgentMailAPIKey = g ''AGENTMAIL_API_KEY'',
               AgentMailInbox = g ''AGENTMAIL_INBOX'',
               AgentMailAPIBase = env g ''AGENTMAIL_API_BASE'' ''https://api.agentmail.to'',
               GitHubToken = g ''CONTACT_INTAKE_GITHUB_TOKEN'',
               GitHubRepo = g ''CONTACT_GITHUB_REPO'',
               GitHubAPIBase = env g ''CONTACT_GITHUB_API_BASE'' ''https://api.github.com'',
               RateLimitPerHour = envInt g ''CONTACT_RATE_LIMIT_PER_HOUR'' 20,
               GlobalRateLimitPerHour = envInt g ''CONTACT_GLOBAL_RATE_LIMIT_PER_HOUR'' 100,
               GitHubDailyCap = envInt g ''CONTACT_GITHUB_DAILY_CAP'' 50,
               TrustProxy = envBool L g ''CONTACT_TRUST_PROXY'' False,
               TrustedProxyHops = envInt g ''CONTACT_TRUSTED_PROXY_HOPS'' 1,
               CookieSecure = envBool L g ''CONTACT_SECURE_COOKIE'' False\<rparr>;
          c = c\<lparr>AllowedSenders :=
                 allowed_senders L [] (split_byte CHR '','' (g ''CONTACT_ALLOWED_SENDERS''))\<rparr>
      in (c, validate c))"

definition mailConfigured :: "Config \<Rightarrow> bool" where
  "mailConfigured c =
     (if Recipient c = [] then False
      else if Transport c = ''smtp'' then FromAddress c \<noteq> [] \<and> SMTPHost c \<noteq> []
      else if Transport c = ''graph''
        then FromAddress c \<noteq> [] \<and> GraphTenantID c \<noteq> [] \<and> GraphClientID c \<noteq> [] \<and> GraphClientSecret c \<noteq> []
      else if Transport c = ''agentmail'' then AgentMailAPIKey c \<noteq> [] \<and> AgentMailInbox c \<noteq> []
      else False)"

definition githubConfigured :: "Config \<Rightarrow> bool" where
  "githubConfigured c \<longleftrightarrow> GitHubToken c \<noteq> [] \<and> GitHubRepo c \<noteq> []"

definition senderAllowed :: "golib \<Rightarrow> Config \<Rightarrow> string \<Rightarrow> bool" where
  "senderAllowed L c email =
     (let email = to_lower (lower_tab L) (trim_space email)
      in if AllowedSenders c \<noteq> []
         then list_ex (\<lambda>a. to_lower (lower_tab L) a = email) (AllowedSenders c)
         else if AllowedDomain c = [] then True
         else suffix (CHR ''@'' # to_lower (lower_tab L) (AllowedDomain c)) email)"

definition senderRejectMessage :: "Config \<Rightarrow> string" where
  "senderRejectMessage c =
     (if AllowedSenders c \<noteq> [] then ''this address is not on the approved senders list''
      else ''please use your @'' @ AllowedDomain c @ '' email address'')"

text \<open>\<open>randomToken\<close>: the bytes \<open>rand.Read\<close> delivered (\<open>None\<close> for its error), in hexadecimal.\<close>

definition hexdigits :: string where "hexdigits = ''0123456789abcdef''"

definition randomToken :: "8 word list option \<Rightarrow> string option" where
  "randomToken r = (case r of None \<Rightarrow> None
     | Some b \<Rightarrow> Some (concat (map (\<lambda>v. [hexdigits ! unat (drop_bit 4 v), hexdigits ! unat (v AND 0x0f)]) b)))"

section \<open>Loading\<close>

lemma allowed_senders_filter:
  "allowed_senders L acc as =
     acc @ filter (\<lambda>a. a \<noteq> []) (map (\<lambda>a. trim_space (to_lower (lower_tab L) a)) as)"
  by (induction as arbitrary: acc) (simp_all add: Let_def)

lemma validate_None_iff:
  "validate c = None \<longleftrightarrow>
     Transport c \<in> {''smtp'', ''graph'', ''agentmail''}
     \<and> SMTPEncryption c \<in> {''starttls'', ''tls'', ''none''}
     \<and> 1 \<le> RateLimitPerHour c \<and> 1 \<le> GlobalRateLimitPerHour c
     \<and> 1 \<le> GitHubDailyCap c \<and> 1 \<le> TrustedProxyHops c"
  by (simp add: validate_def not_less)

lemma snd_Load: "snd (Load L g) = validate (fst (Load L g))"
  by (simp add: Load_def Let_def)

text \<open>A configuration that loads without an error is coherent: a known transport and
  encryption, limits and hop count of at least one, an allowlist of trimmed non-empty addresses, a
  wiki URL with no trailing slash.\<close>

theorem Load_coherent:
  assumes "Load L g = (c, None)"
  shows "Transport c \<in> {''smtp'', ''graph'', ''agentmail''}
     \<and> SMTPEncryption c \<in> {''starttls'', ''tls'', ''none''}
     \<and> 1 \<le> RateLimitPerHour c \<and> 1 \<le> GlobalRateLimitPerHour c
     \<and> 1 \<le> GitHubDailyCap c \<and> 1 \<le> TrustedProxyHops c
     \<and> (\<forall>a \<in> set (AllowedSenders c). a \<noteq> [] \<and> trim_space a = a)
     \<and> (WikiURL c = [] \<or> last (WikiURL c) \<noteq> CHR ''/'')"
proof -
  have c: "c = fst (Load L g)" "validate c = None"
    using assms snd_Load [of L g] by auto
  have "\<forall>a \<in> set (AllowedSenders c). a \<noteq> [] \<and> trim_space a = a"
    unfolding c(1) by (auto simp: Load_def Let_def allowed_senders_filter)
  moreover have "WikiURL c = [] \<or> last (WikiURL c) \<noteq> CHR ''/''"
    unfolding c(1) by (rule trim_right_byte_last) (simp add: Load_def Let_def)
  ultimately show ?thesis using c(2) by (simp add: validate_None_iff)
qed

definition sample_env :: getenv where
  "sample_env k =
     (if k = ''CONTACT_RECIPIENT'' then ''admin@vanderbilt.edu''
      else if k = ''MAIL_FROM_ADDRESS'' then ''wiki@example.org''
      else if k = ''MAIL_HOST'' then ''relay.example.org''
      else if k = ''CONTACT_ALLOWED_EMAIL_DOMAIN'' then ''Vanderbilt.edu''
      else if k = ''CONTACT_WIKI_URL'' then ''http://wiki/''
      else if k = ''MAIL_ENCRYPTION'' then ''TLS''
      else if k = ''CONTACT_TRUST_PROXY'' then ''True''
      else [])"

theorem Load_coherent_witness:
  "\<exists>c. Load sample_lib sample_env = (c, None) \<and> WikiURL c = ''http://wiki''
     \<and> SMTPEncryption c = ''tls'' \<and> TrustProxy c \<and> RateLimitPerHour c = 20
     \<and> last (WikiURL c) \<noteq> CHR ''/''"
proof -
  let ?r = "Load sample_lib sample_env"
  have n: "snd ?r = None" by code_simp
  have w: "WikiURL (fst ?r) = ''http://wiki'' \<and> SMTPEncryption (fst ?r) = ''tls''
      \<and> TrustProxy (fst ?r) \<and> RateLimitPerHour (fst ?r) = 20"
    by code_simp
  from n have "?r = (fst ?r, None)" by (metis prod.collapse)
  from Load_coherent [OF this] this w show ?thesis by (metis list.distinct(1))
qed

text \<open>The service starts before it is configured: with an empty environment \<open>Load\<close> succeeds
  with the documented defaults, and mail and GitHub count as not configured (so a submission is
  answered 503 rather than sent, see the server).\<close>

theorem Load_empty_environment:
  "\<exists>c. Load L (\<lambda>_. []) = (c, None)
     \<and> \<not> mailConfigured c \<and> \<not> githubConfigured c
     \<and> Listen c = '':8080'' \<and> Transport c = ''smtp'' \<and> SMTPPort c = 587
     \<and> RateLimitPerHour c = 20 \<and> GlobalRateLimitPerHour c = 100 \<and> GitHubDailyCap c = 50
     \<and> \<not> TrustProxy c \<and> TrustedProxyHops c = 1 \<and> \<not> CookieSecure c
     \<and> (\<forall>email. senderAllowed L c email)"
proof -
  have lower: "to_lower (lower_tab L) ''starttls'' = ''starttls''"
    by (simp add: to_lower_ascii ascii_def) code_simp
  have lower0: "to_lower (lower_tab L) [] = []"
    by (simp add: to_lower_ascii ascii_def)
  show ?thesis
    by (intro exI [of _ "fst (Load L (\<lambda>_. []))"])
      (simp add: Load_def Let_def env_def envInt_def envBool_def lower lower0 validate_def
        mailConfigured_def githubConfigured_def senderAllowed_def allowed_senders_filter)
qed

section \<open>The approved-sender policy\<close>

lemma count_list_append_single:
  "count_list (a @ x # b) x = 1 \<longleftrightarrow> x \<notin> set a \<and> x \<notin> set b"
  by (simp add: count_list_0_iff)

text \<open>C8. With a required domain, an address with one at-sign is accepted only when its domain is
  that domain, up to case: neither a subdomain nor a domain that merely ends the same way passes.\<close>

theorem senderAllowed_exact_domain:
  assumes "AllowedSenders c = []" and "AllowedDomain c \<noteq> []"
    and "count_list (to_lower (lower_tab L) (trim_space email)) CHR ''@'' = 1"
  shows "senderAllowed L c email \<longleftrightarrow>
    cut_byte CHR ''@'' (to_lower (lower_tab L) (trim_space email)) =
      (takeWhile (\<lambda>x. x \<noteq> CHR ''@'') (to_lower (lower_tab L) (trim_space email)),
       to_lower (lower_tab L) (AllowedDomain c), True)"
    (is "?allowed \<longleftrightarrow> cut_byte _ ?e = (_, ?d, True)")
proof
  assume ?allowed
  then obtain l where e: "?e = l @ CHR ''@'' # ?d"
    using assms(1,2) by (auto simp: senderAllowed_def Let_def suffix_def)
  then have l: "CHR ''@'' \<notin> set l" using assms(3) unfolding e count_list_append_single by simp
  then have "takeWhile (\<lambda>x. x \<noteq> CHR ''@'') ?e = l"
    unfolding e by (subst takeWhile_append2) auto
  with l show "cut_byte CHR ''@'' ?e = (takeWhile (\<lambda>x. x \<noteq> CHR ''@'') ?e, ?d, True)"
    by (simp add: e cut_byte_found)
next
  assume "cut_byte CHR ''@'' ?e = (takeWhile (\<lambda>x. x \<noteq> CHR ''@'') ?e, ?d, True)"
  from cut_byte_True [OF this] have "suffix (CHR ''@'' # ?d) ?e" by (metis suffixI)
  with assms(1,2) show ?allowed by (simp add: senderAllowed_def Let_def)
qed

theorem senderAllowed_exact_domain_witness:
  "let c = fst (Load sample_lib sample_env)
   in senderAllowed sample_lib c ''Jane@VANDERBILT.edu''
      \<and> \<not> senderAllowed sample_lib c ''jane@evil-vanderbilt.edu''
      \<and> \<not> senderAllowed sample_lib c ''jane@cs.vanderbilt.edu''"
proof -
  let ?c = "fst (Load sample_lib sample_env)"
  have c: "AllowedSenders ?c = []" "AllowedDomain ?c \<noteq> []" by code_simp+
  have "count_list (to_lower (lower_tab sample_lib) (trim_space ''jane@cs.vanderbilt.edu'')) CHR ''@'' = 1"
    by code_simp
  from senderAllowed_exact_domain [OF c this]
  have "\<not> senderAllowed sample_lib ?c ''jane@cs.vanderbilt.edu''" by code_simp
  moreover have "senderAllowed sample_lib ?c ''Jane@VANDERBILT.edu''
      \<and> \<not> senderAllowed sample_lib ?c ''jane@evil-vanderbilt.edu''"
    by code_simp
  ultimately show ?thesis by (simp add: Let_def)
qed

section \<open>The token\<close>

text \<open>Reading a hexadecimal string back.\<close>

fun index_of :: "char \<Rightarrow> string \<Rightarrow> nat" where
  "index_of c [] = 0"
| "index_of c (x # xs) = (if c = x then 0 else Suc (index_of c xs))"

fun unhex :: "string \<Rightarrow> 8 word list" where
  "unhex (a # b # s) = of_nat (16 * index_of a hexdigits + index_of b hexdigits) # unhex s"
| "unhex _ = []"

lemma index_of_hexdigit: "n < 16 \<Longrightarrow> index_of (hexdigits ! n) hexdigits = n"
proof -
  assume "n < 16"
  moreover have "\<forall>n \<in> {..<16}. index_of (hexdigits ! n) hexdigits = n"
    by (simp add: hexdigits_def lessThan_nat_numeral lessThan_Suc)
  ultimately show ?thesis by blast
qed

lemma nibbles: "16 * unat (drop_bit 4 v) + unat (v AND 0x0f) = unat (v :: 8 word)"
    "unat (drop_bit 4 v) < 16" "unat (v AND 0x0f) < 16"
proof -
  have d: "unat (drop_bit 4 v) = unat v div 16"
    by (simp add: unat_drop_bit_eq) (simp add: drop_bit_eq_div)
  have "(0x0f :: 8 word) = mask 4" by (simp add: mask_eq_exp_minus_1)
  then have "v AND 0x0f = take_bit 4 v" by (simp only: take_bit_eq_mask)
  then have m: "unat (v AND 0x0f) = unat v mod 16"
    by (simp add: unsigned_take_bit_eq) (simp add: take_bit_eq_mod)
  show "16 * unat (drop_bit 4 v) + unat (v AND 0x0f) = unat v" unfolding d m by simp
  have "unat v < 256" using unsigned_less [of v] by simp
  then show "unat (drop_bit 4 v) < 16" "unat (v AND 0x0f) < 16" unfolding d m by auto
qed

lemma unhex_token:
  "unhex (concat (map (\<lambda>v. [hexdigits ! unat (drop_bit 4 v), hexdigits ! unat (v AND 0x0f)]) b)) = b"
  by (induction b) (simp_all add: index_of_hexdigit nibbles)

lemma length_token:
  "length (concat (map (\<lambda>v. [hexdigits ! unat (drop_bit 4 v), hexdigits ! unat (v AND 0x0f)]) b))
     = 2 * length b"
  by (induction b) simp_all

lemma randomToken_decodes: "randomToken (Some b) = Some tok \<Longrightarrow> unhex tok = b \<and> length tok = 2 * length b"
proof -
  assume "randomToken (Some b) = Some tok"
  then have "tok = concat (map (\<lambda>v. [hexdigits ! unat (drop_bit 4 v), hexdigits ! unat (v AND 0x0f)]) b)"
    by (simp add: randomToken_def)
  then show ?thesis by (simp only: unhex_token length_token)
qed

lemma randomToken_inj:
  "randomToken (Some b) = Some t \<Longrightarrow> randomToken (Some b') = Some t' \<Longrightarrow> t = t' \<longleftrightarrow> b = b'"
  by (metis option.inject randomToken_decodes)

text \<open>The CSRF token is a faithful encoding of the random bytes: two characters per byte, and
  the bytes can be read back, so distinct draws give distinct tokens.\<close>

theorem randomToken_roundtrip:
  assumes "randomToken (Some b) = Some tok"
  shows "unhex tok = b \<and> length tok = 2 * length b"
  using assms by (rule randomToken_decodes)

theorem randomToken_roundtrip_witness:
  "randomToken (Some [0x3f, 0xa0]) = Some ''3fa0'' \<and> unhex ''3fa0'' = [0x3f, 0xa0]"
proof -
  have "randomToken (Some [0x3f, 0xa0]) = Some ''3fa0''"
    by (simp add: randomToken_def hexdigits_def)
  with randomToken_roundtrip [OF this] show ?thesis by simp
qed

end
