(* ===== verification/Submission.thy ===== *)
theory Submission
  imports ContactConfig
begin

text \<open>
  A contact submission, \<open>services/contact/submission.go\<close>, and the template of the e-mail text,
  \<open>services/contact/templates/email.txt.tmpl\<close>: validation of the raw form, the subject line, the
  plain-text body and the Markdown body of the GitHub issue.

  The closed set of kinds is a datatype; \<open>kind_str\<close> is the Go string of each. Lengths are byte
  lengths, as \<open>len\<close> is; \<open>truncateRunes\<close> counts runes.
\<close>

section \<open>Kinds\<close>

datatype kind = kindBug | kindRequest | kindFeedback | kindOther

fun kind_str :: "kind \<Rightarrow> string" where
  "kind_str kindBug = ''bug''"
| "kind_str kindRequest = ''request''"
| "kind_str kindFeedback = ''feedback''"
| "kind_str kindOther = ''other''"

definition kindOrder :: "kind list" where
  "kindOrder = [kindBug, kindRequest, kindFeedback, kindOther]"

fun kindLabels :: "kind \<Rightarrow> string" where
  "kindLabels kindBug = ''Bug report''"
| "kindLabels kindRequest = ''Request''"
| "kindLabels kindFeedback = ''Feedback''"
| "kindLabels kindOther = ''Other''"

fun gitHubLabel :: "kind \<Rightarrow> string" where
  "gitHubLabel kindBug = ''bug''"
| "gitHubLabel kindRequest = ''enhancement''"
| "gitHubLabel kindFeedback = ''feedback''"
| "gitHubLabel kindOther = ''question''"

definition parseKind :: "golib \<Rightarrow> string \<Rightarrow> kind option" where
  "parseKind L s =
     (let k = to_lower (lower_tab L) (trim_space s) in find (\<lambda>q. kind_str q = k) kindOrder)"

definition kindOptions :: "(string \<times> string) list" where
  "kindOptions = map (\<lambda>k. (kind_str k, kindLabels k)) kindOrder"

section \<open>Validation\<close>

definition maxName :: int where "maxName = 200"
definition maxSummary :: int where "maxSummary = 200"
definition maxDetails :: int where "maxDetails = 8000"
definition maxPage :: int where "maxPage = 500"

abbreviation len :: "string \<Rightarrow> int" where "len s \<equiv> int (length s)"

record formInput =
  in_kind :: string
  in_name :: string
  in_email :: string
  in_page :: string
  in_summary :: string
  in_details :: string

record Submission =
  sub_kind :: kind
  sub_name :: string
  sub_email :: string
  sub_page :: string
  sub_summary :: string
  sub_details :: string
  sub_at :: time
  sub_sourceIP :: string
  sub_userAgent :: string

type_synonym fieldError = "string \<times> string"

abbreviation CR :: char where "CR \<equiv> CHR 13"
abbreviation LF :: char where "LF \<equiv> CHR 10"

definition validEmail :: "golib \<Rightarrow> string \<Rightarrow> bool" where
  "validEmail L s =
     (if CR \<in> set s \<or> LF \<in> set s \<or> count_list s CHR ''@'' \<noteq> 1 then False
      else parse_address L s = Some s)"

definition newSubmission ::
  "golib \<Rightarrow> formInput \<Rightarrow> Config \<Rightarrow> time \<Rightarrow> Submission option \<times> fieldError list" where
  "newSubmission L f c now =
     (let k = parseKind L (in_kind f);
          errs = (if k = None then [(''type'', ''choose a valid type'')] else []);
          name = trim_space (in_name f);
          errs = errs @ (if name = [] then [(''name'', ''your name is required'')]
                         else if len name > maxName then [(''name'', ''name is too long'')] else []);
          email = trim_space (to_lower (lower_tab L) (in_email f));
          errs = errs @ (if email = [] then [(''email'', ''your email is required'')]
                         else if \<not> validEmail L email then [(''email'', ''enter a valid email address'')]
                         else if \<not> senderAllowed L c email then [(''email'', senderRejectMessage c)]
                         else []);
          summary = trim_space (in_summary f);
          errs = errs @ (if summary = [] then [(''summary'', ''a short summary is required'')]
                         else if len summary > maxSummary then [(''summary'', ''summary is too long'')]
                         else []);
          details = trim_space (in_details f);
          errs = errs @ (if len details > maxDetails then [(''details'', ''details are too long'')] else []);
          page = trim_space (in_page f);
          errs = errs @ (if len page > maxPage then [(''page'', ''page/area is too long'')] else [])
      in if errs \<noteq> [] then (None, errs)
         else (Some \<lparr>sub_kind = the k, sub_name = name, sub_email = email, sub_page = page,
                     sub_summary = summary, sub_details = details, sub_at = now,
                     sub_sourceIP = [], sub_userAgent = []\<rparr>, []))"

section \<open>Texts\<close>

definition ellipsis :: string where
  "ellipsis = [CHR 0xE2, CHR 0x80, CHR 0xA6]"

definition truncateRunes :: "string \<Rightarrow> int \<Rightarrow> string" where
  "truncateRunes s n =
     (let r = runes s
      in if int (length r) \<le> n then s
         else if n \<le> 1 then ellipsis
         else encode_runes (take (nat (n - 1)) r) @ ellipsis)"

definition subject :: "Submission \<Rightarrow> string \<Rightarrow> string" where
  "subject s wikiName =
     ''['' @ wikiName @ ''] '' @ kindLabels (sub_kind s) @ '' - '' @ truncateRunes (sub_summary s) 120"

record emailView =
  ev_kindLabel :: string
  ev_name :: string
  ev_email :: string
  ev_at :: string
  ev_page :: string
  ev_summary :: string
  ev_details :: string
  ev_wikiName :: string
  ev_sourceIP :: string
  ev_userAgent :: string

definition email_view :: "golib \<Rightarrow> Submission \<Rightarrow> string \<Rightarrow> emailView" where
  "email_view L s wikiName =
     (let details = (if sub_details s = [] then ''(none provided)'' else sub_details s)
      in \<lparr>ev_kindLabel = kindLabels (sub_kind s), ev_name = sub_name s, ev_email = sub_email s,
          ev_at = format_stamp L (sub_at s), ev_page = sub_page s, ev_summary = sub_summary s,
          ev_details = details, ev_wikiName = wikiName, ev_sourceIP = sub_sourceIP s,
          ev_userAgent = sub_userAgent s\<rparr>)"

definition rule_line :: string where "rule_line = replicate 60 CHR ''-''"

text \<open>The template \<open>email.txt.tmpl\<close>, executed: its trim markers drop the line breaks around the
  optional page line.\<close>

definition email_text :: "emailView \<Rightarrow> string" where
  "email_text v =
     ''Type:       '' @ ev_kindLabel v @ [LF]
     @ ''From:       '' @ ev_name v @ '' <'' @ ev_email v @ ''>'' @ [LF]
     @ ''Submitted:  '' @ ev_at v
     @ (if ev_page v \<noteq> [] then [LF] @ ''Page/Area:  '' @ ev_page v else [])
     @ [LF] @ rule_line @ [LF]
     @ ''Summary:    '' @ ev_summary v @ [LF] @ [LF]
     @ ''Details:'' @ [LF] @ ev_details v @ [LF]
     @ rule_line @ [LF]
     @ ''Sent by the '' @ ev_wikiName v @ '' contact form.'' @ [LF]
     @ ''Reply to this email to respond directly to '' @ ev_name v @ '' ('' @ ev_email v @ '').'' @ [LF]
     @ ''Meta: source IP '' @ ev_sourceIP v @ '' | user-agent '' @ ev_userAgent v @ [LF]"

abbreviation backtick :: char where "backtick \<equiv> CHR 0x60"

text \<open>The loop of \<open>mdFence\<close> over the runes: the longest run so far and the current run.\<close>

fun longest_run :: "nat \<Rightarrow> nat \<Rightarrow> rune list \<Rightarrow> nat" where
  "longest_run longest run [] = longest"
| "longest_run longest run (c # cs) =
     (if c = 0x60 then (let run = run + 1 in longest_run (if run > longest then run else longest) run cs)
      else longest_run longest 0 cs)"

definition mdFence :: "string \<Rightarrow> string" where
  "mdFence s =
     (if s = [] then ''_(none provided)_''
      else let fence = replicate (max 3 (longest_run 0 0 (runes s) + 1)) backtick
           in fence @ [LF] @ s @ [LF] @ fence)"

definition issueBody :: "golib \<Rightarrow> Submission \<Rightarrow> string \<Rightarrow> string" where
  "issueBody L s wikiName =
     ''**Type:** '' @ kindLabels (sub_kind s) @ ''  '' @ [LF]
     @ ''**Submitted:** '' @ format_stamp L (sub_at s) @ [LF] @ [LF]
     @ ''**From** (name / email):'' @ [LF]
     @ mdFence (sub_name s @ '' <'' @ sub_email s @ ''>'')
     @ (if sub_page s \<noteq> [] then [LF] @ [LF] @ ''**Page/Area:**'' @ [LF] @ mdFence (sub_page s) else [])
     @ [LF] @ [LF] @ ''**Summary:**'' @ [LF]
     @ mdFence (sub_summary s)
     @ [LF] @ [LF] @ ''**Details:**'' @ [LF]
     @ (if sub_details s = [] then ''_(nothing provided)_'' else mdFence (sub_details s))
     @ [LF] @ [LF] @ ''---'' @ [LF]
     @ ''_Filed automatically by the '' @ wikiName
     @ '' contact form. All submitter-supplied fields above are shown verbatim and unrendered. Reply to the email notification to reach the submitter._''
     @ [LF]"

section \<open>What validation guarantees\<close>

lemma parseKind_Some: "parseKind L s = Some k \<Longrightarrow> kind_str k = to_lower (lower_tab L) (trim_space s)"
  by (auto simp: parseKind_def Let_def dest: find_SomeD)

lemma parseKind_iff:
  "parseKind L s = Some k \<longleftrightarrow> kind_str k = to_lower (lower_tab L) (trim_space s)"
proof
  assume k: "kind_str k = to_lower (lower_tab L) (trim_space s)"
  show "parseKind L s = Some k"
    by (cases k) (simp_all add: parseKind_def Let_def kindOrder_def flip: k)
qed (rule parseKind_Some)

text \<open>The five fields' conditions, as one predicate over the trimmed input.\<close>

definition input_ok :: "golib \<Rightarrow> Config \<Rightarrow> formInput \<Rightarrow> bool" where
  "input_ok L c f \<longleftrightarrow>
     parseKind L (in_kind f) \<noteq> None
     \<and> trim_space (in_name f) \<noteq> [] \<and> len (trim_space (in_name f)) \<le> maxName
     \<and> validEmail L (trim_space (to_lower (lower_tab L) (in_email f)))
     \<and> senderAllowed L c (trim_space (to_lower (lower_tab L) (in_email f)))
     \<and> trim_space (in_summary f) \<noteq> [] \<and> len (trim_space (in_summary f)) \<le> maxSummary
     \<and> len (trim_space (in_details f)) \<le> maxDetails
     \<and> len (trim_space (in_page f)) \<le> maxPage"

lemma validEmail_Nil [simp]: "\<not> validEmail L []"
  by (simp add: validEmail_def)

lemma newSubmission_accepts:
  "input_ok L c f \<Longrightarrow> newSubmission L f c now =
     (Some \<lparr>sub_kind = the (parseKind L (in_kind f)), sub_name = trim_space (in_name f),
            sub_email = trim_space (to_lower (lower_tab L) (in_email f)),
            sub_page = trim_space (in_page f), sub_summary = trim_space (in_summary f),
            sub_details = trim_space (in_details f), sub_at = now,
            sub_sourceIP = [], sub_userAgent = []\<rparr>, [])"
  by (auto simp: newSubmission_def input_ok_def Let_def)

lemma newSubmission_rejects:
  "\<not> input_ok L c f \<Longrightarrow> fst (newSubmission L f c now) = None \<and> snd (newSubmission L f c now) \<noteq> []"
  by (auto simp: newSubmission_def input_ok_def Let_def)

text \<open>C9. Validation is exact: a submission is built if and only if every field is acceptable, it
  then holds the trimmed fields with the instant of validation and there are no errors; otherwise
  there is no submission and at least one error, never both.\<close>

theorem newSubmission_exact:
  "newSubmission L f c now =
     (if input_ok L c f
      then (Some \<lparr>sub_kind = the (parseKind L (in_kind f)), sub_name = trim_space (in_name f),
                  sub_email = trim_space (to_lower (lower_tab L) (in_email f)),
                  sub_page = trim_space (in_page f), sub_summary = trim_space (in_summary f),
                  sub_details = trim_space (in_details f), sub_at = now,
                  sub_sourceIP = [], sub_userAgent = []\<rparr>, [])
      else (None, snd (newSubmission L f c now)))
   \<and> (snd (newSubmission L f c now) = [] \<longleftrightarrow> input_ok L c f)"
  using newSubmission_accepts [of L c f now] newSubmission_rejects [of L c f now]
  by (cases "input_ok L c f") (auto simp: prod_eq_iff)

text \<open>The fields of the errors, in the order of the checks: each check adds its own field or nothing.\<close>

definition mark :: "bool \<Rightarrow> string \<Rightarrow> string list" where
  "mark b f = (if b then [f] else [])"

lemma mark_simps [simp]: "mark True f = [f]" "mark False f = []"
  by (simp_all add: mark_def)

lemma map_fst_if [simp]:
  "map fst (if b then [(f, m)] else []) = mark b f"
  "map fst (if b then [(f, m)] else if b' then [(f, m')] else []) = mark (b \<or> b') f"
  "map fst (if b then [(f, m)] else if b' then [(f, m')] else if b'' then [(f, m'')] else [])
     = mark (b \<or> b' \<or> b'') f"
  by (simp_all add: mark_def)

definition field_marks :: "bool \<Rightarrow> bool \<Rightarrow> bool \<Rightarrow> bool \<Rightarrow> bool \<Rightarrow> bool \<Rightarrow> string list" where
  "field_marks t n e s d p =
     mark t ''type'' @ mark n ''name'' @ mark e ''email'' @ mark s ''summary''
     @ mark d ''details'' @ mark p ''page''"

lemma field_marks_distinct: "distinct (field_marks t n e s d p)"
  by (cases t; cases n; cases e; cases s; cases d; cases p) (simp_all add: field_marks_def)

lemma field_marks_subset:
  "set (field_marks t n e s d p)
     \<subseteq> {''type'', ''name'', ''email'', ''summary'', ''details'', ''page''}"
  by (auto simp: field_marks_def mark_def)

lemma newSubmission_error_fields:
  "map fst (snd (newSubmission L f c now)) =
     (let name = trim_space (in_name f); email = trim_space (to_lower (lower_tab L) (in_email f));
          summary = trim_space (in_summary f)
      in field_marks (parseKind L (in_kind f) = None) (name = [] \<or> len name > maxName)
           (email = [] \<or> \<not> validEmail L email \<or> \<not> senderAllowed L c email)
           (summary = [] \<or> len summary > maxSummary)
           (len (trim_space (in_details f)) > maxDetails) (len (trim_space (in_page f)) > maxPage))"
proof -
  have snd_if: "snd (if es \<noteq> [] then (None, es) else (r, [])) = es" for es :: "fieldError list" and r
    by simp
  show ?thesis
    unfolding newSubmission_def Let_def snd_if by (simp add: field_marks_def)
qed

text \<open>The error list names each field at most once, so turning it into a map from fields to
  messages (as the handler does) loses no message; its fields are those of the form.\<close>

theorem newSubmission_errors_distinct:
  "distinct (map fst (snd (newSubmission L f c now)))
   \<and> set (map fst (snd (newSubmission L f c now)))
       \<subseteq> {''type'', ''name'', ''email'', ''summary'', ''details'', ''page''}"
  unfolding newSubmission_error_fields Let_def
  by (intro conjI field_marks_distinct field_marks_subset)

text \<open>C10. The submitter's address of an accepted submission is a single bare mailbox: no CR or LF,
  exactly one at-sign, exactly what the address parser read back, and allowed by the policy.\<close>

theorem newSubmission_email_safe:
  assumes "newSubmission L f c now = (Some s, errs)"
  shows "CR \<notin> set (sub_email s) \<and> LF \<notin> set (sub_email s)
     \<and> count_list (sub_email s) CHR ''@'' = 1
     \<and> parse_address L (sub_email s) = Some (sub_email s)
     \<and> senderAllowed L c (sub_email s)"
proof -
  have ok: "input_ok L c f"
    using assms newSubmission_rejects [of L c f now] by fastforce
  with assms have "sub_email s = trim_space (to_lower (lower_tab L) (in_email f))"
    by (auto simp: newSubmission_accepts)
  with ok show ?thesis by (auto simp: input_ok_def validEmail_def split: if_splits)
qed

definition sample_input :: formInput where
  "sample_input = \<lparr>in_kind = '' BUG'', in_name = ''Jane '', in_email = '' Jane@Vanderbilt.edu'',
     in_page = [], in_summary = ''Broken link'', in_details = ''see @root''\<rparr>"

definition sample_cfg :: Config where
  "sample_cfg = fst (Load sample_lib sample_env)"

theorem newSubmission_email_safe_witness:
  "\<exists>s. newSubmission sample_lib sample_input sample_cfg 7 = (Some s, [])
     \<and> sub_email s = ''jane@vanderbilt.edu'' \<and> sub_kind s = kindBug
     \<and> CR \<notin> set (sub_email s) \<and> count_list (sub_email s) CHR ''@'' = 1"
proof -
  let ?r = "newSubmission sample_lib sample_input sample_cfg 7"
  have r: "?r = (Some \<lparr>sub_kind = kindBug, sub_name = ''Jane'', sub_email = ''jane@vanderbilt.edu'',
      sub_page = [], sub_summary = ''Broken link'', sub_details = ''see @root'', sub_at = 7,
      sub_sourceIP = [], sub_userAgent = []\<rparr>, [])"
    by code_simp
  from newSubmission_email_safe [OF r] r show ?thesis by simp
qed

end
