(* ===== verification/SubmissionTexts.thy ===== *)
theory SubmissionTexts
  imports Submission
begin

text \<open>
  What the texts built from a submission (\<open>truncateRunes\<close>, \<open>mdFence\<close>, \<open>issueBody\<close> of
  \<open>services/contact/submission.go\<close>) promise: truncation respects the runes, a fence cannot be
  closed by the field it holds, and the reader of the GitHub issue sees no submitter-controlled
  text as prose. The last is stated against the rule of GitHub-flavoured Markdown for fenced
  code blocks, written out here as a scanner over lines.
\<close>

section \<open>Truncation\<close>

lemma runes_encode_take_ellipsis:
  "runes (encode_runes (take k (runes s)) @ ellipsis) = take k (runes s) @ [0x2026]"
proof -
  have "ellipsis = encode_runes [0x2026]"
    by code_simp
  then have "runes (encode_runes (take k (runes s)) @ ellipsis)
      = runes (encode_runes (take k (runes s) @ [0x2026]))"
    by (simp add: encode_runes_append)
  also have "\<dots> = take k (runes s) @ [0x2026]"
    using runes_valid [of s]
    by (intro runes_encode_runes) (auto simp: list_all_iff valid_rune_def dest: in_set_takeD)
  finally show ?thesis .
qed

lemma ellipsis_take_0: "ellipsis = encode_runes (take 0 (runes s)) @ ellipsis"
  by (simp add: encode_runes_def)

lemma truncateRunes_runes:
  "runes (truncateRunes s n) =
     (if int (length (runes s)) \<le> n then runes s
      else take (nat (n - 1)) (runes s) @ [0x2026])"
proof (cases "n \<le> 1")
  case True
  then show ?thesis
    using runes_encode_take_ellipsis [of 0 s] ellipsis_take_0 [of s]
    by (simp add: truncateRunes_def Let_def)
next
  case False
  then show ?thesis
    by (simp add: truncateRunes_def Let_def runes_encode_take_ellipsis)
qed


section \<open>Code fences\<close>

lemma longest_run_ge: "longest \<le> longest_run longest run cs"
  by (induction longest run cs rule: longest_run.induct)
    (auto simp: Let_def split: if_splits intro: order_trans)

lemma longest_run_tick:
  "longest_run longest run (0x60 # cs) = longest_run (max longest (run + 1)) (run + 1) cs"
  by (simp add: Let_def max_def)

lemma longest_run_here:
  "0 < k \<Longrightarrow> run + k \<le> longest_run longest run (replicate k 0x60 @ cs)"
proof (induction k arbitrary: longest run)
  case 0
  then show ?case by simp
next
  case (Suc k)
  have "run + 1 \<le> longest_run (max longest (run + 1)) (run + 1) cs"
    using longest_run_ge [of "max longest (run + 1)" "run + 1" cs] by simp
  with Suc.IH [where longest = "max longest (run + 1)" and run = "run + 1"] show ?case
    by (cases "k = 0") (simp_all add: longest_run_tick del: longest_run.simps)
qed

lemma longest_run_inside:
  "k \<le> longest_run longest run (xs @ replicate k 0x60 @ cs)"
proof (induction xs arbitrary: longest run)
  case Nil
  show ?case
    using longest_run_here [where k = k and run = run and longest = longest and cs = cs]
    by (cases "k = 0") simp_all
next
  case (Cons x xs)
  then show ?case by (simp add: Let_def)
qed

definition fence_len :: "string \<Rightarrow> nat" where
  "fence_len s = max 3 (longest_run 0 0 (runes s) + 1)"

lemma fence_not_inside:
  assumes "fence_len s \<le> k"
  shows "\<not> sublist (replicate k backtick) s"
proof
  assume "sublist (replicate k backtick) s"
  moreover have "0 < k" using assms by (simp add: fence_len_def)
  ultimately have "sublist (replicate k (of_char backtick :: int)) (runes s)"
    by (intro sublist_runes_run) simp_all
  then have "sublist (replicate k (0x60 :: int)) (runes s)" by simp
  then obtain p q where "runes s = p @ replicate k 0x60 @ q" by (auto simp: sublist_def)
  with longest_run_inside [of k 0 0 p q] assms show False by (simp add: fence_len_def)
qed

text \<open>C12. A code fence cannot be closed from inside: \<open>mdFence\<close> puts a non-empty field, verbatim,
  between two fences of equal length, at least three backticks, and longer than every run of
  backticks of the field.\<close>

theorem mdFence_outgrows:
  assumes "s \<noteq> []"
  shows "\<exists>n. mdFence s = replicate n backtick @ [LF] @ s @ [LF] @ replicate n backtick \<and> 3 \<le> n
     \<and> (\<forall>k. sublist (replicate k backtick) s \<longrightarrow> k < n)"
proof (intro exI conjI allI impI)
  show "mdFence s = replicate (fence_len s) backtick @ [LF] @ s @ [LF] @ replicate (fence_len s) backtick"
    using assms by (simp add: mdFence_def fence_len_def Let_def)
  show "3 \<le> fence_len s" by (simp add: fence_len_def)
  show "k < fence_len s" if "sublist (replicate k backtick) s" for k
    using fence_not_inside [of s k] that by linarith
qed

theorem mdFence_outgrows_witness:
  "\<exists>n. mdFence ''a```b'' = replicate n backtick @ [LF] @ ''a```b'' @ [LF] @ replicate n backtick
     \<and> 3 < n"
proof -
  have "sublist (replicate 3 backtick) ''a```b''" by code_simp
  with mdFence_outgrows [of "''a```b''"] show ?thesis by blast
qed

section \<open>What a reader of the issue sees as prose\<close>

text \<open>
  The rule of GitHub-flavoured Markdown for fenced code blocks, over the lines of a document: up
  to three spaces, then a run of at least three backticks or tildes (no backtick after it on a
  backtick fence) opens a block; a line with a run at least as long of the same character, and
  nothing after it but blanks, closes it. \<open>prose\<close> keeps the lines that lie outside every block.
\<close>

fun md_lines :: "string \<Rightarrow> string list" where
  "md_lines [] = [[]]"
| "md_lines (x # xs) =
     (if x = LF \<or> x = CR then [] # md_lines xs
      else (case md_lines xs of [] \<Rightarrow> [[x]] | w # ws \<Rightarrow> (x # w) # ws))"

fun unindent :: "nat \<Rightarrow> string \<Rightarrow> string" where
  "unindent 0 s = s"
| "unindent (Suc k) [] = []"
| "unindent (Suc k) (c # s) = (if c = CHR '' '' then unindent k s else c # s)"

definition run_len :: "char \<Rightarrow> string \<Rightarrow> nat" where
  "run_len c s = length (takeWhile (\<lambda>x. x = c) s)"

definition fence_open :: "string \<Rightarrow> (char \<times> nat) option" where
  "fence_open line =
     (let s = unindent 3 line
      in if run_len backtick s \<ge> 3 \<and> backtick \<notin> set (drop (run_len backtick s) s)
         then Some (backtick, run_len backtick s)
         else if run_len CHR ''~'' s \<ge> 3 then Some (CHR ''~'', run_len CHR ''~'' s) else None)"

definition fence_close :: "char \<Rightarrow> nat \<Rightarrow> string \<Rightarrow> bool" where
  "fence_close c n line \<longleftrightarrow>
     (let s = unindent 3 line
      in n \<le> run_len c s \<and> set (drop (run_len c s) s) \<subseteq> {CHR '' '', CHR 9})"

fun prose :: "(char \<times> nat) option \<Rightarrow> string list \<Rightarrow> string list" where
  "prose st [] = []"
| "prose None (l # ls) =
     (case fence_open l of None \<Rightarrow> l # prose None ls | Some f \<Rightarrow> prose (Some f) ls)"
| "prose (Some (c, n)) (l # ls) = prose (if fence_close c n l then None else Some (c, n)) ls"

lemma md_lines_ne [simp]: "md_lines s \<noteq> []"
  by (induction s) (auto split: list.split)

lemma md_lines_append: "md_lines (a @ LF # b) = md_lines a @ md_lines b"
  by (induction a) (auto split: list.split)

lemma md_lines_one: "set s \<inter> {LF, CR} = {} \<Longrightarrow> md_lines s = [s]"
  by (induction s) auto

lemma sublist_md_lines: "w \<in> set (md_lines s) \<Longrightarrow> sublist w s"
proof (induction s arbitrary: w)
  case Nil
  then show ?case by simp
next
  case (Cons x s)
  obtain v vs where v: "md_lines s = v # vs" by (cases "md_lines s") auto
  have "prefix v s"
    using v
  proof (induction s arbitrary: v vs)
    case (Cons y s)
    then show ?case by (auto split: if_splits list.splits)
  qed simp
  with Cons v show ?case
    by (auto simp: sublist_Cons_right split: if_splits)
qed

lemma unindent_suffix: "suffix (unindent k s) s"
  by (induction k s rule: unindent.induct) (auto intro: suffix_ConsI)

lemma run_len_prefix: "prefix (replicate (run_len c s) c) s"
proof -
  have "replicate (run_len c s) c = takeWhile (\<lambda>x. x = c) s"
    unfolding run_len_def by (induction s) auto
  then show ?thesis by (metis takeWhile_is_prefix)
qed

lemma fence_close_run:
  assumes "fence_close c n w"
  shows "sublist (replicate n c) w"
proof -
  let ?s = "unindent 3 w"
  have "n \<le> run_len c ?s" using assms by (simp add: fence_close_def Let_def)
  then have "replicate (run_len c ?s) c = replicate n c @ replicate (run_len c ?s - n) c"
    by (simp flip: replicate_add)
  then have "prefix (replicate n c) ?s"
    using run_len_prefix [of c ?s] by (metis append_prefixD)
  then show ?thesis
    by (meson prefix_imp_sublist sublist_order.order.trans suffix_imp_sublist unindent_suffix)
qed

lemma prose_inside:
  "\<forall>w \<in> set ws. \<not> fence_close c n w \<Longrightarrow> prose (Some (c, n)) (ws @ ls) = prose (Some (c, n)) ls"
  by (induction ws) auto

lemma run_len_replicate: "run_len c (replicate n c) = n"
  by (simp add: run_len_def)

lemma unindent_fence: "unindent k (replicate n backtick) = replicate n backtick"
  by (cases k; cases n) simp_all

lemma fence_line:
  "3 \<le> n \<Longrightarrow> fence_open (replicate n backtick) = Some (backtick, n)"
  "fence_close backtick n (replicate n backtick)"
  by (simp_all add: fence_open_def fence_close_def unindent_fence run_len_replicate Let_def)

text \<open>A fenced field vanishes from the prose, whatever it holds.\<close>

lemma prose_mdFence:
  assumes "s \<noteq> []"
  shows "prose None (md_lines (mdFence s @ [LF] @ rest)) = prose None (md_lines rest)"
proof -
  let ?n = "fence_len s" and ?f = "replicate (fence_len s) backtick"
  have "mdFence s @ [LF] @ rest = ?f @ LF # s @ LF # ?f @ LF # rest"
    using assms by (simp add: mdFence_def fence_len_def Let_def)
  moreover have "md_lines ?f = [?f]" by (rule md_lines_one) auto
  ultimately have "md_lines (mdFence s @ [LF] @ rest) = ?f # md_lines s @ ?f # md_lines rest"
    by (simp add: md_lines_append)
  moreover have "\<forall>w \<in> set (md_lines s). \<not> fence_close backtick ?n w"
    using fence_close_run sublist_md_lines fence_not_inside [of s ?n]
    by (meson order_refl sublist_order.order.trans)
  moreover have "3 \<le> ?n" by (simp add: fence_len_def)
  ultimately show ?thesis by (simp add: fence_line prose_inside)
qed

text \<open>The prose of the issue, as a list of lines that no field of the form occurs in.\<close>

definition issue_footer :: "string \<Rightarrow> string" where
  "issue_footer wikiName =
     [LF] @ ''---'' @ [LF]
     @ ''_Filed automatically by the '' @ wikiName
     @ '' contact form. All submitter-supplied fields above are shown verbatim and unrendered. Reply to the email notification to reach the submitter._''
     @ [LF]"

definition issue_prose :: "kind \<Rightarrow> string \<Rightarrow> bool \<Rightarrow> bool \<Rightarrow> string \<Rightarrow> string list" where
  "issue_prose k stamp has_page has_details wikiName =
     [''**Type:** '' @ kindLabels k @ ''  '', ''**Submitted:** '' @ stamp, [],
      ''**From** (name / email):'']
     @ (if has_page then [[], ''**Page/Area:**''] else [])
     @ [[], ''**Summary:**'']
     @ [[], ''**Details:**'']
     @ (if has_details then [] else [''_(nothing provided)_''])
     @ prose None (md_lines (issue_footer wikiName))"

text \<open>The body as a sequence of paragraphs: lines of text and fenced fields.\<close>

definition text_line :: "string \<Rightarrow> string \<Rightarrow> string" where
  "text_line l rest = l @ LF # rest"

definition fenced_field :: "string \<Rightarrow> string \<Rightarrow> string" where
  "fenced_field s rest = mdFence s @ [LF] @ rest"

lemma prose_text_line:
  "set l \<inter> {LF, CR} = {} \<Longrightarrow> fence_open l = None \<Longrightarrow>
     prose None (md_lines (text_line l rest)) = l # prose None (md_lines rest)"
  by (simp add: text_line_def md_lines_append md_lines_one)

lemma prose_fenced_field:
  "s \<noteq> [] \<Longrightarrow> prose None (md_lines (fenced_field s rest)) = prose None (md_lines rest)"
  unfolding fenced_field_def by (rule prose_mdFence)

lemma fence_open_other:
  "c \<notin> {backtick, CHR ''~'', CHR '' ''} \<Longrightarrow> fence_open (c # l) = None" "fence_open [] = None"
  by (auto simp: fence_open_def run_len_def numeral_3_eq_3)

lemma kindLabels_line: "set (kindLabels k) \<inter> {LF, CR} = {}"
  by (cases k) simp_all

lemma issueBody_paragraphs:
  "issueBody L s w =
     text_line (''**Type:** '' @ kindLabels (sub_kind s) @ ''  '')
     (text_line (''**Submitted:** '' @ format_stamp L (sub_at s))
     (text_line []
     (text_line ''**From** (name / email):''
     (fenced_field (sub_name s @ '' <'' @ sub_email s @ ''>'')
     ((if sub_page s \<noteq> []
       then \<lambda>r. text_line [] (text_line ''**Page/Area:**'' (fenced_field (sub_page s) r)) else id)
     (text_line [] (text_line ''**Summary:**'' (fenced_field (sub_summary s)
     (text_line [] (text_line ''**Details:**''
     ((if sub_details s = [] then text_line ''_(nothing provided)_'' else fenced_field (sub_details s))
      (issue_footer w))))))))))))"
  by (simp add: issueBody_def issue_footer_def text_line_def fenced_field_def)

text \<open>C13. No field of the form reaches the prose of the issue: outside code blocks the body reads
  the same for every submission of the same kind and instant, whatever name, address, page,
  summary, details, source address and user agent hold; only whether page and details were given
  can be told.\<close>

theorem issueBody_prose:
  assumes "sub_summary s \<noteq> []" and "set (format_stamp L (sub_at s)) \<inter> {LF, CR} = {}"
  shows "prose None (md_lines (issueBody L s w)) =
    issue_prose (sub_kind s) (format_stamp L (sub_at s)) (sub_page s \<noteq> []) (sub_details s \<noteq> []) w"
  using assms kindLabels_line [of "sub_kind s"]
  by (simp add: issueBody_paragraphs issue_prose_def prose_text_line prose_fenced_field
      fence_open_other)

theorem issueBody_prose_witness:
  "\<exists>s. newSubmission sample_lib sample_input sample_cfg 7 = (Some s, [])
     \<and> prose None (md_lines (issueBody sample_lib s ''CCC'')) =
        issue_prose kindBug (format_stamp sample_lib 7) False True ''CCC''"
proof -
  let ?s = "\<lparr>sub_kind = kindBug, sub_name = ''Jane'', sub_email = ''jane@vanderbilt.edu'',
      sub_page = [], sub_summary = ''Broken link'', sub_details = ''see @root'', sub_at = 7,
      sub_sourceIP = [], sub_userAgent = []\<rparr>"
  have "newSubmission sample_lib sample_input sample_cfg 7 = (Some ?s, [])" by code_simp
  moreover have "set (format_stamp sample_lib (sub_at ?s)) \<inter> {LF, CR} = {}" by code_simp
  ultimately show ?thesis using issueBody_prose [of ?s sample_lib "''CCC''"] by auto
qed

end
