(* ===== verification/GoNet.thy ===== *)
theory GoNet
  imports GoLib
begin

text \<open>
  HTTP and JSON as the services use them: the value handed to \<open>json.Marshal\<close>, a request as built
  by \<open>http.NewRequestWithContext\<close> and \<open>req.Header.Set\<close>, a response after \<open>io.ReadAll\<close>.

  The network is an argument of the operations that use it: a function that gives the answer to a
  request from the history of the calls made before it. A statement for every such function is a
  statement for every behaviour of the other side, the fallible and the adversarial ones included.
\<close>

text \<open>The body of a request: none, the JSON encoding of a value, URL-encoded form values, or a
  multipart form with one file part.\<close>

datatype req_body =
    NoBody
  | JsonBody json
  | FormBody "(string \<times> string) list"
  | Multipart "(string \<times> string) list" string string string

record http_req =
  rq_method :: string
  rq_url :: string
  rq_header :: "(string \<times> string) list"
  rq_body :: req_body

record http_resp =
  rs_code :: int
  rs_status :: string
  rs_body :: string

type_synonym neterr = string
type_synonym http_reply = "neterr + http_resp"

text \<open>\<open>http.NewRequestWithContext\<close> fails when the URL does not parse.\<close>

definition newRequest ::
  "golib \<Rightarrow> string \<Rightarrow> string \<Rightarrow> req_body \<Rightarrow> http_req option" where
  "newRequest L m u b =
     (case url_host L u of None \<Rightarrow> None
      | Some _ \<Rightarrow> Some \<lparr>rq_method = m, rq_url = u, rq_header = [], rq_body = b\<rparr>)"

definition setHeader :: "string \<Rightarrow> string \<Rightarrow> http_req \<Rightarrow> http_req" where
  "setHeader k v r = r\<lparr>rq_header := AList.update k v (rq_header r)\<rparr>"

lemma setHeader_simps [simp]:
  "rq_method (setHeader k v r) = rq_method r" "rq_url (setHeader k v r) = rq_url r"
  "rq_body (setHeader k v r) = rq_body r"
  "rq_header (setHeader k v r) = AList.update k v (rq_header r)"
  by (simp_all add: setHeader_def)

lemma newRequest_Some:
  "newRequest L m u b = Some r \<Longrightarrow>
     r = \<lparr>rq_method = m, rq_url = u, rq_header = [], rq_body = b\<rparr> \<and> url_host L u \<noteq> None"
  by (auto simp: newRequest_def split: option.splits)

text \<open>\<open>io.ReadAll(io.LimitReader(body, n))\<close>.\<close>

definition limit_read :: "int \<Rightarrow> string \<Rightarrow> string" where
  "limit_read n s = (if int (length s) \<le> n then s else take (nat n) s)"

lemma limit_read_length: "0 \<le> n \<Longrightarrow> int (length (limit_read n s)) \<le> n"
  by (simp add: limit_read_def)

text \<open>The status class of a response, \<open>resp.StatusCode/100 == 2\<close> (Go's quotient truncates).\<close>

definition status_2xx :: "http_resp \<Rightarrow> bool" where
  "status_2xx r \<longleftrightarrow> 200 \<le> rs_code r \<and> rs_code r < 300"

text \<open>
  \<open>json.Unmarshal\<close> into a struct: a key of the object sets the field of that name, letter case
  aside, a later key over an earlier one; \<open>null\<close> leaves the field alone; a value of another type is
  an error, and decoding goes on. Each reader gives the field (the zero value when nothing set it)
  and whether no error occurred.
\<close>

definition field_values :: "golib \<Rightarrow> string \<Rightarrow> json \<Rightarrow> json list" where
  "field_values L k j =
     (case j of
        JObj kvs \<Rightarrow> filter (\<lambda>v. v \<noteq> JNull) (map snd (filter (\<lambda>p. equal_fold (fold_tab L) (fst p) k) kvs))
      | _ \<Rightarrow> [])"

definition is_record :: "json \<Rightarrow> bool" where
  "is_record j = (case j of JObj _ \<Rightarrow> True | JNull \<Rightarrow> True | _ \<Rightarrow> False)"

fun strings_in :: "json list \<Rightarrow> string list" where
  "strings_in [] = []"
| "strings_in (JStr s # vs) = s # strings_in vs"
| "strings_in (_ # vs) = strings_in vs"

fun ints_in :: "json list \<Rightarrow> int list" where
  "ints_in [] = []"
| "ints_in (JInt n # vs) = n # ints_in vs"
| "ints_in (_ # vs) = ints_in vs"

fun bools_in :: "json list \<Rightarrow> bool list" where
  "bools_in [] = []"
| "bools_in (JBool b # vs) = b # bools_in vs"
| "bools_in (_ # vs) = bools_in vs"

definition last_or :: "'a \<Rightarrow> 'a list \<Rightarrow> 'a" where
  "last_or z xs = (if xs = [] then z else last xs)"

definition str_field :: "golib \<Rightarrow> string \<Rightarrow> json \<Rightarrow> string \<times> bool" where
  "str_field L k j =
     (let vs = field_values L k j
      in (last_or [] (strings_in vs), is_record j \<and> length (strings_in vs) = length vs))"

definition int_field :: "golib \<Rightarrow> string \<Rightarrow> json \<Rightarrow> int \<times> bool" where
  "int_field L k j =
     (let vs = field_values L k j
      in (last_or 0 (ints_in vs), is_record j \<and> length (ints_in vs) = length vs))"

definition bool_field :: "golib \<Rightarrow> string \<Rightarrow> json \<Rightarrow> bool \<times> bool" where
  "bool_field L k j =
     (let vs = field_values L k j
      in (last_or False (bools_in vs), is_record j \<and> length (bools_in vs) = length vs))"

end
