(* ===== verification/Mailer.thy ===== *)
theory Mailer
  imports GoNet ContactConfig "HOL-Library.List_Lexorder" "HOL-Library.Char_ord"
begin

text \<open>
  The mail transports, \<open>services/contact/mailer.go\<close>: the message, its RFC 5322 form, the choice of
  the transport and the three implementations of \<open>Send\<close>.

  A \<open>Send\<close> returns its error, if any, and the calls it made on the outside world, in order: calls
  on the SMTP client (as the code makes them on \<open>net/smtp\<close>) and HTTP requests. What each call
  returns is decided by a \<open>net\<close>, from the calls made before. Deferred closes and deadlines are not
  part of it. \<open>json.Marshal\<close> does not fail on the values built here.
\<close>

section \<open>Messages\<close>

record Message =
  msg_FromName :: string
  msg_FromAddr :: string
  msg_To :: string
  msg_ReplyTo :: string
  msg_Subject :: string
  msg_Body :: string
  msg_Headers :: "(string \<times> string) list"

definition stripCRLF :: "string \<Rightarrow> string" where
  "stripCRLF s = remove_bytes {CHR 13, CHR 10} s"

definition sortedKeys :: "(string \<times> string) list \<Rightarrow> string list" where
  "sortedKeys m = sort (keys m)"

abbreviation CRLF :: string where "CRLF \<equiv> [CHR 13, CHR 10]"

text \<open>\<open>now.UnixNano()\<close>: nanoseconds since 1970, in 64 bits.\<close>

definition unix_nano :: "time \<Rightarrow> int" where
  "unix_nano t = (t - 62135596800 * second + 2 ^ 63) mod 2 ^ 64 - 2 ^ 63"

definition rfc822 :: "golib \<Rightarrow> Message \<Rightarrow> time \<Rightarrow> string" where
  "rfc822 L m now =
     (let from = (if msg_FromName m \<noteq> []
                  then q_encode L (msg_FromName m) @ '' <'' @ stripCRLF (msg_FromAddr m) @ ''>''
                  else stripCRLF (msg_FromAddr m))
      in ''From: '' @ from @ CRLF
       @ ''To: '' @ stripCRLF (msg_To m) @ CRLF
       @ (if msg_ReplyTo m \<noteq> [] then ''Reply-To: '' @ stripCRLF (msg_ReplyTo m) @ CRLF else [])
       @ ''Subject: '' @ q_encode L (msg_Subject m) @ CRLF
       @ ''Date: '' @ format_rfc1123z L now @ CRLF
       @ ''Message-ID: <'' @ itoa (unix_nano now) @ ''.'' @ stripCRLF (msg_FromAddr m) @ ''>'' @ CRLF
       @ ''MIME-Version: 1.0'' @ CRLF
       @ ''Content-Type: text/plain; charset=utf-8'' @ CRLF
       @ ''Content-Transfer-Encoding: 8bit'' @ CRLF
       @ concat (map (\<lambda>k. stripCRLF k @ '': '' @ stripCRLF (lookup_def [] (msg_Headers m) k) @ CRLF)
                  (sortedKeys (msg_Headers m)))
       @ CRLF
       @ replace_byte CHR 10 CRLF (msg_Body m))"

section \<open>The outside world\<close>

datatype smtp_call =
    Dial bool string
  | NewClient
  | ExtensionSTARTTLS
  | StartTLS
  | Auth string string
  | MailFrom string
  | RcptTo string
  | Data
  | WriteData string
  | CloseData
  | Quit

datatype wire = Smtp smtp_call | Http http_req

record net =
  smtp_do :: "wire list \<Rightarrow> smtp_call \<Rightarrow> neterr option"
  http_do :: "wire list \<Rightarrow> http_req \<Rightarrow> http_reply"

section \<open>SMTP\<close>

record smtpMailer =
  sm_host :: string
  sm_port :: int
  sm_username :: string
  sm_password :: string
  sm_encryption :: string

text \<open>\<open>net.JoinHostPort\<close>.\<close>

definition join_host_port :: "string \<Rightarrow> string \<Rightarrow> string" where
  "join_host_port h p =
     (if CHR '':'' \<in> set h then ''['' @ h @ '']:'' @ p else h @ '':'' @ p)"

text \<open>A sequence of calls, each returning its error, wrapped, when it fails.\<close>

fun run_steps ::
  "net \<Rightarrow> wire list \<Rightarrow> (smtp_call \<times> (neterr \<Rightarrow> neterr)) list \<Rightarrow> neterr option \<times> wire list" where
  "run_steps n tr [] = (None, tr)"
| "run_steps n tr ((c, wrap) # steps) =
     (case smtp_do n tr c of
        Some e \<Rightarrow> (Some (wrap e), tr @ [Smtp c])
      | None \<Rightarrow> run_steps n (tr @ [Smtp c]) steps)"

definition smtp_steps ::
  "golib \<Rightarrow> smtpMailer \<Rightarrow> Message \<Rightarrow> time \<Rightarrow> (smtp_call \<times> (neterr \<Rightarrow> neterr)) list" where
  "smtp_steps L s m now =
     (let addr = join_host_port (sm_host s) (itoa (sm_port s)); raw = rfc822 L m now
      in [(Dial (sm_encryption s = ''tls'') addr, \<lambda>e. ''smtp dial '' @ addr @ '': '' @ e),
          (NewClient, \<lambda>e. ''smtp client: '' @ e)]
       @ (if sm_encryption s = ''starttls''
          then [(ExtensionSTARTTLS,
                  \<lambda>_. ''smtp server '' @ sm_host s @ '' does not offer STARTTLS''),
                (StartTLS, \<lambda>e. ''smtp starttls: '' @ e)]
          else [])
       @ (if sm_username s \<noteq> []
          then [(Auth (sm_username s) (sm_password s), \<lambda>e. ''smtp auth: '' @ e)] else [])
       @ [(MailFrom (msg_FromAddr m), \<lambda>e. ''smtp MAIL FROM: '' @ e),
          (RcptTo (msg_To m), \<lambda>e. ''smtp RCPT TO: '' @ e),
          (Data, \<lambda>e. ''smtp DATA: '' @ e),
          (WriteData raw, \<lambda>e. ''smtp write: '' @ e),
          (CloseData, \<lambda>e. ''smtp close data: '' @ e),
          (Quit, \<lambda>e. e)])"

definition smtp_send ::
  "golib \<Rightarrow> smtpMailer \<Rightarrow> net \<Rightarrow> Message \<Rightarrow> time \<Rightarrow> neterr option \<times> wire list" where
  "smtp_send L s n m now = run_steps n [] (smtp_steps L s m now)"

section \<open>Microsoft Graph\<close>

record graphMailer =
  gm_tenantID :: string
  gm_clientID :: string
  gm_clientSecret :: string
  gm_sender :: string

definition max_reply :: int where "max_reply = 1048576"

definition bad_request :: neterr where "bad_request = ''bad request URL''"

definition graph_token ::
  "golib \<Rightarrow> graphMailer \<Rightarrow> net \<Rightarrow> wire list \<Rightarrow> (neterr + string) \<times> wire list" where
  "graph_token L g n tr =
     (let form = FormBody [(''client_id'', gm_clientID g), (''client_secret'', gm_clientSecret g),
                           (''scope'', ''https://graph.microsoft.com/.default''),
                           (''grant_type'', ''client_credentials'')];
          endpoint = ''https://login.microsoftonline.com/'' @ path_escape L (gm_tenantID g)
                       @ ''/oauth2/v2.0/token''
      in case newRequest L ''POST'' endpoint form of
           None \<Rightarrow> (Err bad_request, tr)
         | Some req \<Rightarrow>
           (let req = setHeader ''Content-Type'' ''application/x-www-form-urlencoded'' req;
                tr' = tr @ [Http req]
            in case http_do n tr req of
                 Inl e \<Rightarrow> (Err e, tr')
               | Inr resp \<Rightarrow>
                 (let body = limit_read max_reply (rs_body resp)
                  in if rs_code resp \<noteq> 200
                     then (Err (''graph token: '' @ rs_status resp @ '': '' @ body), tr')
                     else case json_parse L body of
                            None \<Rightarrow> (Err ''graph token decode: invalid JSON'', tr')
                          | Some j \<Rightarrow>
                            (let (tok, ok) = str_field L ''access_token'' j
                             in if \<not> ok then (Err ''graph token decode: wrong type'', tr')
                                else if tok = [] then (Err ''graph token: empty access_token'', tr')
                                else (Ok tok, tr')))))"

definition mkAddr :: "string \<Rightarrow> string \<Rightarrow> json" where
  "mkAddr a name =
     JObj [(''emailAddress'',
            JObj ((''address'', JStr a) # (if name \<noteq> [] then [(''name'', JStr name)] else [])))]"

text \<open>A nil slice of headers encodes as \<open>null\<close>.\<close>

definition graph_payload :: "Message \<Rightarrow> json" where
  "graph_payload m =
     JObj [(''message'',
        JObj [(''subject'', JStr (msg_Subject m)),
              (''body'', JObj [(''contentType'', JStr ''Text''), (''content'', JStr (msg_Body m))]),
              (''from'', mkAddr (msg_FromAddr m) (msg_FromName m)),
              (''toRecipients'', JArr [mkAddr (msg_To m) []]),
              (''replyTo'', JArr [mkAddr (msg_ReplyTo m) []]),
              (''internetMessageHeaders'',
                 if msg_Headers m = [] then JNull
                 else JArr (map (\<lambda>k. JObj [(''name'', JStr k),
                                           (''value'', JStr (lookup_def [] (msg_Headers m) k))])
                             (sortedKeys (msg_Headers m))))]),
      (''saveToSentItems'', JBool False)]"

definition post_json ::
  "golib \<Rightarrow> net \<Rightarrow> wire list \<Rightarrow> string \<Rightarrow> string \<Rightarrow> json \<Rightarrow> string \<Rightarrow> neterr option \<times> wire list" where
  "post_json L n tr endpoint bearer payload what =
     (case newRequest L ''POST'' endpoint (JsonBody payload) of
        None \<Rightarrow> (Some bad_request, tr)
      | Some req \<Rightarrow>
        (let req = setHeader ''Content-Type'' ''application/json''
                     (setHeader ''Authorization'' (''Bearer '' @ bearer) req);
             tr' = tr @ [Http req]
         in case http_do n tr req of
              Inl e \<Rightarrow> (Some e, tr')
            | Inr resp \<Rightarrow>
              if \<not> status_2xx resp
              then (Some (what @ '': '' @ rs_status resp @ '': '' @ limit_read max_reply (rs_body resp)), tr')
              else (None, tr')))"

definition graph_send ::
  "golib \<Rightarrow> graphMailer \<Rightarrow> net \<Rightarrow> Message \<Rightarrow> neterr option \<times> wire list" where
  "graph_send L g n m =
     (case graph_token L g n [] of
        (Inl e, tr) \<Rightarrow> (Some e, tr)
      | (Inr tok, tr) \<Rightarrow>
          post_json L n tr
            (''https://graph.microsoft.com/v1.0/users/'' @ path_escape L (gm_sender g) @ ''/sendMail'')
            tok (graph_payload m) ''graph sendMail'')"

section \<open>AgentMail\<close>

record agentMailer =
  am_apiKey :: string
  am_inbox :: string
  am_apiBase :: string

definition agent_payload :: "Message \<Rightarrow> json" where
  "agent_payload m =
     JObj ([(''to'', JStr (msg_To m)), (''subject'', JStr (msg_Subject m)), (''text'', JStr (msg_Body m))]
        @ (if msg_ReplyTo m \<noteq> [] then [(''reply_to'', JStr (msg_ReplyTo m))] else [])
        @ (if msg_Headers m \<noteq> []
           then [(''headers'', JObj (map (\<lambda>(k, v). (k, JStr v)) (msg_Headers m)))] else []))"

definition agent_send ::
  "golib \<Rightarrow> agentMailer \<Rightarrow> net \<Rightarrow> Message \<Rightarrow> neterr option \<times> wire list" where
  "agent_send L a n m =
     (let inbox = replace_byte CHR ''@'' ''%40'' (path_escape L (am_inbox a));
          endpoint = am_apiBase a @ ''/v0/inboxes/'' @ inbox @ ''/messages/send''
      in post_json L n [] endpoint (am_apiKey a) (agent_payload m) ''agentmail send'')"

section \<open>The choice of the transport\<close>

datatype mailer = SMTP smtpMailer | Graph graphMailer | Agent agentMailer

datatype start_error = unknown_transport string

definition newMailer :: "Config \<Rightarrow> start_error + mailer" where
  "newMailer c =
     (if Transport c = ''smtp'' then
        Ok (SMTP \<lparr>sm_host = SMTPHost c, sm_port = SMTPPort c, sm_username = SMTPUsername c,
                  sm_password = SMTPPassword c, sm_encryption = SMTPEncryption c\<rparr>)
      else if Transport c = ''graph'' then
        (let sender = (if GraphSenderUPN c = [] then FromAddress c else GraphSenderUPN c)
         in Ok (Graph \<lparr>gm_tenantID = GraphTenantID c, gm_clientID = GraphClientID c,
                       gm_clientSecret = GraphClientSecret c, gm_sender = sender\<rparr>))
      else if Transport c = ''agentmail'' then
        Ok (Agent \<lparr>am_apiKey = AgentMailAPIKey c, am_inbox = AgentMailInbox c,
                   am_apiBase = trim_right_byte CHR ''/'' (AgentMailAPIBase c)\<rparr>)
      else Err (unknown_transport (Transport c)))"

text \<open>The method \<open>Send\<close> of the interface \<open>Mailer\<close>, dispatched on the transport.\<close>

fun Send :: "golib \<Rightarrow> mailer \<Rightarrow> net \<Rightarrow> Message \<Rightarrow> time \<Rightarrow> neterr option \<times> wire list" where
  "Send L (SMTP s) n m now = smtp_send L s n m now"
| "Send L (Graph g) n m now = graph_send L g n m"
| "Send L (Agent a) n m now = agent_send L a n m"

end
