(* ===== verification/MailWire.thy ===== *)
theory MailWire
  imports Mailer
begin

text \<open>
  The RFC 5322 form of a message (\<open>rfc822\<close>, \<open>services/contact/mailer.go\<close>) against a reader of
  Internet messages: which lines it holds, whatever the fields contain.
\<close>

section \<open>The wire form of a message\<close>

text \<open>The lines of an Internet message: the pieces between the pairs CR LF.\<close>

fun crlf_lines :: "string \<Rightarrow> string list" where
  "crlf_lines [] = [[]]"
| "crlf_lines [x] = [[x]]"
| "crlf_lines (x # y # s) =
     (if x = CHR 13 \<and> y = CHR 10 then [] # crlf_lines s
      else (case crlf_lines (y # s) of [] \<Rightarrow> [[x]] | l # ls \<Rightarrow> (x # l) # ls))"

lemma crlf_lines_ne [simp]: "crlf_lines s \<noteq> []"
  by (induction s rule: crlf_lines.induct) (auto split: list.split)

lemma crlf_lines_append:
  "CHR 10 \<notin> set l \<Longrightarrow> crlf_lines (l @ CHR 13 # CHR 10 # s) = l # crlf_lines s"
proof (induction l)
  case Nil
  show ?case by simp
next
  case (Cons x l)
  then show ?case by (cases l) auto
qed

lemma crlf_lines_single: "CHR 10 \<notin> set l \<Longrightarrow> crlf_lines l = [l]"
  by (induction l rule: crlf_lines.induct) auto

lemma crlf_lines_body: "crlf_lines (replace_byte CHR 10 CRLF b) = split_byte CHR 10 b"
proof (induction "length b" arbitrary: b rule: less_induct)
  case less
  show ?case
  proof (cases "CHR 10 \<in> set b")
    case False
    then have "replace_byte CHR 10 CRLF b = b"
      by (induction b) (auto simp: replace_byte_def)
    with False show ?thesis by (simp add: crlf_lines_single split_byte_notin)
  next
    case True
    then obtain l r where b: "b = l @ CHR 10 # r" "CHR 10 \<notin> set l"
      by (meson split_list_first)
    then have "replace_byte CHR 10 CRLF b = l @ CRLF @ replace_byte CHR 10 CRLF r"
      using replace_byte_id [of "CHR 10" l CRLF] replace_byte_append [of "CHR 10" CRLF l "CHR 10 # r"]
      by (simp add: replace_byte_def)
    with b less [of r] show ?thesis
      by (simp add: crlf_lines_append split_byte_append split_byte_notin)
  qed
qed

lemma stripCRLF_clean [simp]: "CHR 10 \<notin> set (stripCRLF s)" "CHR 13 \<notin> set (stripCRLF s)"
  by (simp_all add: stripCRLF_def)

text \<open>The header lines the code means to write.\<close>

definition header_lines :: "golib \<Rightarrow> Message \<Rightarrow> time \<Rightarrow> string list" where
  "header_lines L m now =
     [''From: '' @ (if msg_FromName m \<noteq> []
                    then q_encode L (msg_FromName m) @ '' <'' @ stripCRLF (msg_FromAddr m) @ ''>''
                    else stripCRLF (msg_FromAddr m)),
      ''To: '' @ stripCRLF (msg_To m)]
     @ (if msg_ReplyTo m \<noteq> [] then [''Reply-To: '' @ stripCRLF (msg_ReplyTo m)] else [])
     @ [''Subject: '' @ q_encode L (msg_Subject m),
        ''Date: '' @ format_rfc1123z L now,
        ''Message-ID: <'' @ itoa (unix_nano now) @ ''.'' @ stripCRLF (msg_FromAddr m) @ ''>'',
        ''MIME-Version: 1.0'',
        ''Content-Type: text/plain; charset=utf-8'',
        ''Content-Transfer-Encoding: 8bit'']
     @ map (\<lambda>k. stripCRLF k @ '': '' @ stripCRLF (lookup_def [] (msg_Headers m) k))
         (sortedKeys (msg_Headers m))"

definition crlf_block :: "string list \<Rightarrow> string" where
  "crlf_block ls = concat (map (\<lambda>l. l @ CRLF) ls)"

lemma rfc822_block:
  "rfc822 L m now =
     crlf_block (header_lines L m now) @ CRLF @ replace_byte CHR 10 CRLF (msg_Body m)"
  by (simp add: rfc822_def header_lines_def crlf_block_def comp_def Let_def)

lemma crlf_lines_block:
  "\<forall>l \<in> set ls. CHR 10 \<notin> set l \<Longrightarrow> crlf_lines (crlf_block ls @ s) = ls @ crlf_lines s"
proof (induction ls)
  case Nil
  show ?case by (simp add: crlf_block_def)
next
  case (Cons l ls)
  have "crlf_block (l # ls) @ s = l @ CRLF @ (crlf_block ls @ s)"
    by (simp add: crlf_block_def)
  with Cons show ?case by (simp add: crlf_lines_append)
qed

text \<open>Documented of the encoders of the library: an encoded word and a formatted instant hold no
  line break.\<close>

definition encoders_clean :: "golib \<Rightarrow> Message \<Rightarrow> time \<Rightarrow> bool" where
  "encoders_clean L m now \<longleftrightarrow>
     set (q_encode L (msg_FromName m)) \<inter> {CHR 10, CHR 13} = {}
     \<and> set (q_encode L (msg_Subject m)) \<inter> {CHR 10, CHR 13} = {}
     \<and> set (format_rfc1123z L now) \<inter> {CHR 10, CHR 13} = {}"

text \<open>C14. No header can be injected: read as an Internet message, the bytes sent hold exactly the
  intended header lines, none of them empty and none with a CR or LF in it, then the empty line, then the body line by line;
  whatever CR and LF the addresses, names, subject and extra headers contain, no line is added,
  split or dropped, and only what follows the empty line depends on the body.\<close>

theorem rfc822_parses:
  assumes "encoders_clean L m now"
  shows "crlf_lines (rfc822 L m now) =
           header_lines L m now @ [] # split_byte CHR 10 (msg_Body m)
     \<and> [] \<notin> set (header_lines L m now)
     \<and> (\<forall>l \<in> set (header_lines L m now). set l \<inter> {CHR 10, CHR 13} = {})"
proof (intro conjI)
  show clean: "\<forall>l \<in> set (header_lines L m now). set l \<inter> {CHR 10, CHR 13} = {}"
    using assms by (auto simp: header_lines_def encoders_clean_def)
  then have "\<forall>l \<in> set (header_lines L m now). CHR 10 \<notin> set l"
    by blast
  from crlf_lines_block [OF this]
  show "crlf_lines (rfc822 L m now) = header_lines L m now @ [] # split_byte CHR 10 (msg_Body m)"
    using crlf_lines_append [of "[]"] by (simp add: rfc822_block crlf_lines_body)
  show "[] \<notin> set (header_lines L m now)"
    by (auto simp: header_lines_def)
qed

definition sample_message :: Message where
  "sample_message = \<lparr>msg_FromName = ''Wiki'', msg_FromAddr = ''a@b'', msg_To = ''admin@c'',
     msg_ReplyTo = ''x@y'' @ CRLF @ ''Bcc: z@z'', msg_Subject = ''Hi'' @ CRLF @ ''Bcc: q'',
     msg_Body = ''one'' @ [CHR 10] @ ''two'', msg_Headers = [(''X-Kind'', ''bug'')]\<rparr>"

theorem rfc822_parses_witness:
  "crlf_lines (rfc822 sample_lib sample_message 5) =
     header_lines sample_lib sample_message 5 @ [[], ''one'', ''two'']
   \<and> ''Reply-To: x@yBcc: z@z'' \<in> set (header_lines sample_lib sample_message 5)"
proof -
  have "encoders_clean sample_lib sample_message 5" by code_simp
  from rfc822_parses [OF this]
  have "crlf_lines (rfc822 sample_lib sample_message 5) =
      header_lines sample_lib sample_message 5 @ [] # split_byte CHR 10 (msg_Body sample_message)"
    by blast
  moreover have "split_byte CHR 10 (msg_Body sample_message) = [''one'', ''two'']" by code_simp
  moreover have "''Reply-To: x@yBcc: z@z'' \<in> set (header_lines sample_lib sample_message 5)"
    by (simp add: header_lines_def sample_message_def stripCRLF_def remove_bytes_def)
  ultimately show ?thesis by simp
qed

end
