(* ===== verification/MailTransport.thy ===== *)
theory MailTransport
  imports Mailer
begin

text \<open>
  What a transport promises to the code that sends through it, as a locale over the operation
  \<open>Send\<close>, and its interpretation on the dispatched \<open>Send\<close> of \<open>services/contact/mailer.go\<close>: on
  every transport, against every behaviour of the network, the only address a message is offered
  to is its \<open>To\<close>, at most once, and success means that it was accepted there.
\<close>

section \<open>The contract\<close>

text \<open>The addresses a call asks the other side to deliver to.\<close>

definition obj_at :: "string \<Rightarrow> json \<Rightarrow> json" where
  "obj_at k j = (case j of JObj kvs \<Rightarrow> lookup_def JNull kvs k | _ \<Rightarrow> JNull)"

definition elems :: "json \<Rightarrow> json list" where
  "elems j = (case j of JArr xs \<Rightarrow> xs | _ \<Rightarrow> [])"

definition payload_recipients :: "json \<Rightarrow> string list" where
  "payload_recipients j =
     strings_in [obj_at ''to'' j]
     @ strings_in (map (\<lambda>r. obj_at ''address'' (obj_at ''emailAddress'' r))
         (elems (obj_at ''toRecipients'' (obj_at ''message'' j))))"

fun recipients :: "wire \<Rightarrow> string list" where
  "recipients (Smtp c) = (case c of RcptTo a \<Rightarrow> [a] | _ \<Rightarrow> [])"
| "recipients (Http r) = (case rq_body r of JsonBody j \<Rightarrow> payload_recipients j | _ \<Rightarrow> [])"

definition all_recipients :: "wire list \<Rightarrow> string list" where
  "all_recipients tr = concat (map recipients tr)"

lemma all_recipients_simps [simp]:
  "all_recipients [] = []" "all_recipients (w # tr) = recipients w @ all_recipients tr"
  "all_recipients (p @ q) = all_recipients p @ all_recipients q"
  by (simp_all add: all_recipients_def)

text \<open>Whether the other side accepted the call, given what went before.\<close>

definition accepted :: "net \<Rightarrow> wire list \<Rightarrow> wire \<Rightarrow> bool" where
  "accepted n tr w =
     (case w of
        Smtp c \<Rightarrow> smtp_do n tr c = None
      | Http r \<Rightarrow> (case http_do n tr r of Inl _ \<Rightarrow> False | Inr resp \<Rightarrow> status_2xx resp))"

definition all_accepted :: "net \<Rightarrow> wire list \<Rightarrow> bool" where
  "all_accepted n tr = list_all (\<lambda>i. accepted n (take i tr) (tr ! i)) [0..<length tr]"

locale mail_transport =
  fixes send :: "net \<Rightarrow> Message \<Rightarrow> time \<Rightarrow> neterr option \<times> wire list"
  assumes offered: "all_recipients (snd (send n m t)) \<in> {[], [msg_To m]}"
    and success: "fst (send n m t) = None \<Longrightarrow>
      all_recipients (snd (send n m t)) = [msg_To m] \<and> all_accepted n (snd (send n m t))"
begin

lemma offered_cases:
  "all_recipients (snd (send n m t)) = [] \<or> all_recipients (snd (send n m t)) = [msg_To m]"
  using offered [of n m t] by simp

lemma only_to: "a \<in> set (all_recipients (snd (send n m t))) \<Longrightarrow> a = msg_To m"
  using offered_cases [of n m t] by auto

lemma at_most_once: "length (all_recipients (snd (send n m t))) \<le> 1"
  using offered_cases [of n m t] by auto

text \<open>Over any sequence of sends, each facing a network of its own, the addresses offered are among
  those the messages name.\<close>

lemma many_only_to:
  "a \<in> set (concat (map (\<lambda>(n, m, t). all_recipients (snd (send n m t))) xs)) \<Longrightarrow>
     a \<in> (\<lambda>(n, m, t). msg_To m) ` set xs"
proof (induction xs)
  case Nil
  then show ?case by simp
next
  case (Cons x xs)
  obtain n m t where x: "x = (n, m, t)" by (cases x)
  show ?case
  proof (cases "a \<in> set (all_recipients (snd (send n m t)))")
    case True
    with x only_to show ?thesis by simp
  next
    case False
    with x Cons show ?thesis by simp
  qed
qed

end

section \<open>The SMTP conversation\<close>

lemma all_accepted_snoc:
  "all_accepted n (tr @ [w]) \<longleftrightarrow> all_accepted n tr \<and> accepted n tr w"
  by (auto simp: all_accepted_def list_all_iff nth_append less_Suc_eq)

lemma run_steps_prefix:
  "\<exists>p. snd (run_steps n tr steps) = tr @ p \<and> prefix p (map (Smtp \<circ> fst) steps)"
proof (induction steps arbitrary: tr)
  case Nil
  show ?case by simp
next
  case (Cons s steps)
  obtain c wrap where s: "s = (c, wrap)" by (cases s)
  show ?case
  proof (cases "smtp_do n tr c")
    case None
    with Cons.IH [of "tr @ [Smtp c]"] s show ?thesis by auto
  next
    case (Some e)
    with s show ?thesis by simp
  qed
qed

lemma run_steps_success:
  "fst (run_steps n tr steps) = None \<Longrightarrow> all_accepted n tr \<Longrightarrow>
     snd (run_steps n tr steps) = tr @ map (Smtp \<circ> fst) steps
     \<and> all_accepted n (tr @ map (Smtp \<circ> fst) steps)"
proof (induction steps arbitrary: tr)
  case Nil
  then show ?case by simp
next
  case (Cons s steps)
  obtain c wrap where s: "s = (c, wrap)" by (cases s)
  with Cons.prems have "smtp_do n tr c = None" by (auto split: option.splits)
  with Cons.IH [of "tr @ [Smtp c]"] Cons.prems s show ?case
    by (simp add: all_accepted_snoc accepted_def)
qed

text \<open>Every call but the last was accepted: the first failure ends the conversation.\<close>

lemma run_steps_butlast:
  "all_accepted n tr \<Longrightarrow> snd (run_steps n tr steps) \<noteq> tr \<Longrightarrow>
     all_accepted n (butlast (snd (run_steps n tr steps)))"
proof (induction steps arbitrary: tr)
  case Nil
  then show ?case by simp
next
  case (Cons s steps)
  obtain c wrap where s: "s = (c, wrap)" by (cases s)
  show ?case
  proof (cases "smtp_do n tr c")
    case None
    then have acc: "all_accepted n (tr @ [Smtp c])"
      using Cons.prems by (simp add: all_accepted_snoc accepted_def)
    show ?thesis
    proof (cases "snd (run_steps n (tr @ [Smtp c]) steps) = tr @ [Smtp c]")
      case True
      with None s Cons.prems show ?thesis by simp
    next
      case False
      with None s Cons.IH [OF acc] show ?thesis by simp
    qed
  next
    case (Some e)
    with s Cons.prems show ?thesis by simp
  qed
qed

lemma all_accepted_Nil [simp]: "all_accepted n []"
  by (simp add: all_accepted_def)

lemma recipients_smtp_steps:
  "all_recipients (map (Smtp \<circ> fst) (smtp_steps L s m now)) = [msg_To m]"
  by (cases "sm_encryption s = ''starttls''"; cases "sm_username s = []")
    (simp_all add: smtp_steps_def Let_def)

lemma recipients_prefix:
  "prefix p tr \<Longrightarrow> all_recipients tr = [a] \<Longrightarrow> all_recipients p \<in> {[], [a]}"
  by (auto simp: prefix_def append_eq_Cons_conv)

lemma smtp_transport: "mail_transport (smtp_send L s)"
proof
  fix n m t
  obtain p where p: "snd (smtp_send L s n m t) = p"
    "prefix p (map (Smtp \<circ> fst) (smtp_steps L s m t))"
    using run_steps_prefix [of n "[]" "smtp_steps L s m t"] by (auto simp: smtp_send_def)
  then show "all_recipients (snd (smtp_send L s n m t)) \<in> {[], [msg_To m]}"
    using recipients_prefix [OF p(2) recipients_smtp_steps] by simp
  assume "fst (smtp_send L s n m t) = None"
  then show "all_recipients (snd (smtp_send L s n m t)) = [msg_To m]
      \<and> all_accepted n (snd (smtp_send L s n m t))"
    using run_steps_success [of n "[]" "smtp_steps L s m t"] recipients_smtp_steps [of L s m t]
    by (simp add: smtp_send_def)
qed

section \<open>The two HTTP transports\<close>

lemma post_json_trace:
  "\<exists>q. snd (post_json L n tr u b j what) = tr @ q \<and> all_recipients q \<in> {[], payload_recipients j}"
  by (auto simp: post_json_def Let_def split: option.split sum.split dest!: newRequest_Some)

lemma post_json_success:
  "fst (post_json L n tr u b j what) = None \<Longrightarrow> all_accepted n tr \<Longrightarrow>
     all_recipients (snd (post_json L n tr u b j what)) = all_recipients tr @ payload_recipients j
     \<and> all_accepted n (snd (post_json L n tr u b j what))"
  by (auto simp: post_json_def Let_def all_accepted_snoc accepted_def
      split: option.splits sum.splits if_splits dest!: newRequest_Some)

lemma graph_token_trace: "all_recipients (snd (graph_token L g n [])) = []"
  by (auto simp: graph_token_def Let_def split: option.split sum.split prod.split dest!: newRequest_Some)

lemma graph_token_accepted:
  "fst (graph_token L g n []) = Inr tok \<Longrightarrow> all_accepted n (snd (graph_token L g n []))"
  by (auto simp: graph_token_def Let_def all_accepted_def accepted_def status_2xx_def
      split: option.splits sum.splits prod.splits if_splits)

lemma graph_recipients: "payload_recipients (graph_payload m) = [msg_To m]"
  by (simp add: payload_recipients_def graph_payload_def obj_at_def elems_def mkAddr_def lookup_def_def)

lemma agent_recipients: "payload_recipients (agent_payload m) = [msg_To m]"
  by (simp add: payload_recipients_def agent_payload_def obj_at_def elems_def lookup_def_def)

lemma graph_transport: "mail_transport (\<lambda>n m t. graph_send L g n m)"
proof
  fix n m t
  let ?u = "''https://graph.microsoft.com/v1.0/users/'' @ path_escape L (gm_sender g) @ ''/sendMail''"
  note no_addr = graph_token_trace [of L g n]
  show "all_recipients (snd (graph_send L g n m)) \<in> {[], [msg_To m]}"
  proof (cases "graph_token L g n []")
    case (Pair r tr)
    with no_addr have tr: "all_recipients tr = []" by simp
    show ?thesis
    proof (cases r)
      case (Inl e)
      with Pair tr show ?thesis by (simp add: graph_send_def)
    next
      case (Inr tok)
      obtain q where "snd (graph_send L g n m) = tr @ q"
        "all_recipients q \<in> {[], payload_recipients (graph_payload m)}"
        using post_json_trace [of L n tr ?u tok "graph_payload m" "''graph sendMail''"] Pair Inr
        by (auto simp: graph_send_def)
      with tr show ?thesis by (simp add: graph_recipients)
    qed
  qed
  assume ok: "fst (graph_send L g n m) = None"
  then obtain tok tr where tok: "graph_token L g n [] = (Inr tok, tr)"
    by (auto simp: graph_send_def split: prod.splits sum.splits)
  with no_addr graph_token_accepted [of L g n tok]
  have "all_recipients tr = []" "all_accepted n tr" by simp_all
  with post_json_success [of L n tr ?u tok "graph_payload m" "''graph sendMail''"] ok tok
  show "all_recipients (snd (graph_send L g n m)) = [msg_To m]
      \<and> all_accepted n (snd (graph_send L g n m))"
    by (simp add: graph_send_def graph_recipients)
qed

lemma agent_transport: "mail_transport (\<lambda>n m t. agent_send L a n m)"
proof
  fix n m t
  show "all_recipients (snd (agent_send L a n m)) \<in> {[], [msg_To m]}"
    using post_json_trace [of L n "[]"] agent_recipients [of m] by (metis agent_send_def append_Nil)
  assume "fst (agent_send L a n m) = None"
  then show "all_recipients (snd (agent_send L a n m)) = [msg_To m]
      \<and> all_accepted n (snd (agent_send L a n m))"
    using post_json_success [of L n "[]"] agent_recipients [of m] by (simp add: agent_send_def Let_def)
qed

interpretation transport: mail_transport "Send L mlr" for L mlr
proof -
  show "mail_transport (Send L mlr)"
    by (cases mlr) (use smtp_transport graph_transport agent_transport in
      \<open>simp_all add: mail_transport_def\<close>)
qed

section \<open>Promises\<close>

text \<open>C15. On every transport and against every behaviour of the network, a message is offered for
  delivery to its \<open>To\<close> alone and at most once per \<open>Send\<close>; and a \<open>Send\<close> that reports no error has
  offered it exactly once, with every call it made accepted by the other side.\<close>

theorem Send_recipient:
  "all_recipients (snd (Send L mlr n m now)) \<in> {[], [msg_To m]}
   \<and> (fst (Send L mlr n m now) = None \<longrightarrow>
        all_recipients (snd (Send L mlr n m now)) = [msg_To m]
        \<and> all_accepted n (snd (Send L mlr n m now)))"
  using transport.offered [of L mlr n m now] transport.success [of L mlr n m now] by blast

definition sample_smtp :: smtpMailer where
  "sample_smtp = \<lparr>sm_host = ''mail.c'', sm_port = 587, sm_username = ''u'', sm_password = ''p'',
     sm_encryption = ''starttls''\<rparr>"

definition sample_msg :: Message where
  "sample_msg = \<lparr>msg_FromName = [], msg_FromAddr = ''wiki@c'', msg_To = ''admin@c'',
     msg_ReplyTo = ''jane@v'', msg_Subject = ''s'', msg_Body = ''b'', msg_Headers = []\<rparr>"

text \<open>A network that accepts every call, and one whose mail server offers no \<open>STARTTLS\<close>.\<close>

definition good_net :: net where
  "good_net = \<lparr>smtp_do = (\<lambda>_ _. None),
     http_do = (\<lambda>_ _. Inr \<lparr>rs_code = 200, rs_status = ''200 OK'', rs_body = ''{token}''\<rparr>)\<rparr>"

definition plain_net :: net where
  "plain_net = \<lparr>smtp_do = (\<lambda>_ c. if c = ExtensionSTARTTLS then Some ''no'' else None),
     http_do = (\<lambda>_ _. Inl ''no route'')\<rparr>"

theorem Send_recipient_witness:
  "fst (Send sample_lib (SMTP sample_smtp) good_net sample_msg 1) = None
   \<and> all_recipients (snd (Send sample_lib (SMTP sample_smtp) good_net sample_msg 1)) = [''admin@c'']
   \<and> all_recipients (snd (Send sample_lib (SMTP sample_smtp) plain_net sample_msg 1)) = []"
proof -
  have "fst (Send sample_lib (SMTP sample_smtp) good_net sample_msg 1) = None" by code_simp
  moreover have "all_recipients (snd (Send sample_lib (SMTP sample_smtp) plain_net sample_msg 1)) = []"
    by code_simp
  ultimately show ?thesis
    using Send_recipient [of sample_lib "SMTP sample_smtp" good_net sample_msg 1]
    by (simp add: sample_msg_def)
qed

text \<open>Credentials, envelope and contents.\<close>

fun sensitive :: "smtp_call \<Rightarrow> bool" where
  "sensitive (Auth u p) = True"
| "sensitive (MailFrom a) = True"
| "sensitive (RcptTo a) = True"
| "sensitive (WriteData d) = True"
| "sensitive _ = False"

lemma all_accepted_prefix: "all_accepted n (p @ q) \<Longrightarrow> all_accepted n p"
  by (induction q rule: rev_induct) (simp_all add: all_accepted_snoc flip: append_assoc)

lemma smtp_send_before:
  assumes "snd (smtp_send L s n m now) = p @ w # q"
  shows "all_accepted n p"
proof -
  have "all_accepted n (butlast (p @ w # q))"
    using run_steps_butlast [of n "[]" "smtp_steps L s m now"] assms by (simp add: smtp_send_def)
  then show ?thesis
    by (auto simp: butlast_append intro: all_accepted_prefix)
qed

lemma prefix_split_append:
  assumes "prefix (p @ x # q) (xs @ ys)" and "x \<notin> set xs"
  shows "prefix xs p"
proof -
  from assms(1) obtain r where "(p @ x # q) @ r = xs @ ys" by (auto simp: prefix_def)
  then obtain u where "p = xs @ u \<or> p @ u = xs \<and> x # q @ r = u @ ys"
    by (auto simp: append_eq_append_conv2)
  then show ?thesis
    using assms(2) by (cases u) auto
qed

lemma smtp_send_plan: "prefix (snd (smtp_send L s n m now)) (map (Smtp \<circ> fst) (smtp_steps L s m now))"
  using run_steps_prefix [of n "[]" "smtp_steps L s m now"] by (auto simp: smtp_send_def)

text \<open>C16. With encryption required, nothing sensitive leaves before it is on: whenever the
  conversation holds a command with credentials, an envelope address or the message, every call
  before it succeeded, and among them is the TLS dial (\<open>tls\<close>) or the offer of \<open>STARTTLS\<close> and the
  upgrade to it (\<open>starttls\<close>): a server that does not offer it is never spoken to in the clear.\<close>

theorem smtp_tls_first:
  assumes "sm_encryption s \<in> {''starttls'', ''tls''}"
    and "snd (smtp_send L s n m now) = p @ Smtp c # q" and "sensitive c"
  shows "all_accepted n p
     \<and> (if sm_encryption s = ''tls''
        then \<exists>addr. Smtp (Dial True addr) \<in> set p
        else Smtp ExtensionSTARTTLS \<in> set p \<and> Smtp StartTLS \<in> set p)"
proof
  show "all_accepted n p" by (rule smtp_send_before [OF assms(2)])
  let ?addr = "join_host_port (sm_host s) (itoa (sm_port s))"
  let ?first = "[Smtp (Dial (sm_encryption s = ''tls'') ?addr), Smtp NewClient]
    @ (if sm_encryption s = ''starttls'' then [Smtp ExtensionSTARTTLS, Smtp StartTLS] else [])"
  obtain ys where "map (Smtp \<circ> fst) (smtp_steps L s m now) = ?first @ ys"
    by (simp add: smtp_steps_def Let_def)
  with smtp_send_plan [of L s n m now] assms(2) have "prefix (p @ Smtp c # q) (?first @ ys)" by simp
  moreover have "Smtp c \<notin> set ?first" using assms(3) by auto
  ultimately have "prefix ?first p" by (rule prefix_split_append)
  then have "set ?first \<subseteq> set p" by (rule set_mono_prefix)
  with assms(1) show "if sm_encryption s = ''tls'' then \<exists>addr. Smtp (Dial True addr) \<in> set p
      else Smtp ExtensionSTARTTLS \<in> set p \<and> Smtp StartTLS \<in> set p"
    by auto
qed

theorem smtp_tls_first_witness:
  "\<exists>p q. snd (smtp_send sample_lib sample_smtp good_net sample_msg 1)
       = p @ Smtp (Auth ''u'' ''p'') # q \<and> Smtp StartTLS \<in> set p \<and> all_accepted good_net p"
proof -
  let ?t = "snd (smtp_send sample_lib sample_smtp good_net sample_msg 1)"
  have e: "sm_encryption sample_smtp \<in> {''starttls'', ''tls''}" "sm_encryption sample_smtp \<noteq> ''tls''"
    by (simp_all add: sample_smtp_def)
  have t: "?t = take 4 ?t @ Smtp (Auth ''u'' ''p'') # drop 5 ?t"
    by code_simp
  from smtp_tls_first [OF e(1) t] e(2) t show ?thesis by auto
qed

end
