(* ===== verification/GitHub.thy ===== *)
theory GitHub
  imports Mailer
begin

text \<open>
  The client that files a GitHub issue, \<open>services/contact/github.go\<close>. A filing returns the
  \<open>html_url\<close> of the issue or an error, and the request it made; \<open>tr\<close> is what was called before.
\<close>

record githubClient =
  gh_token :: string
  gh_repo :: string
  gh_apiBase :: string

definition newGitHubClient :: "Config \<Rightarrow> githubClient" where
  "newGitHubClient c = \<lparr>gh_token = GitHubToken c, gh_repo = GitHubRepo c,
     gh_apiBase = trim_right_byte CHR ''/'' (GitHubAPIBase c)\<rparr>"

record issue =
  iss_Title :: string
  iss_Body :: string
  iss_Labels :: "string list"

definition issue_json :: "issue \<Rightarrow> json" where
  "issue_json i =
     JObj ([(''title'', JStr (iss_Title i)), (''body'', JStr (iss_Body i))]
        @ (if iss_Labels i \<noteq> [] then [(''labels'', JArr (map JStr (iss_Labels i)))] else []))"

definition issue_endpoint :: "githubClient \<Rightarrow> string" where
  "issue_endpoint g = gh_apiBase g @ ''/repos/'' @ gh_repo g @ ''/issues''"

definition issue_request :: "githubClient \<Rightarrow> http_req \<Rightarrow> http_req" where
  "issue_request g req =
     setHeader ''Content-Type'' ''application/json''
     (setHeader ''X-GitHub-Api-Version'' ''2022-11-28''
     (setHeader ''Accept'' ''application/vnd.github+json''
     (setHeader ''Authorization'' (''Bearer '' @ gh_token g) req)))"

text \<open>The answer's JSON is decoded into a struct with the one field; its error is ignored.\<close>

definition CreateIssue ::
  "golib \<Rightarrow> githubClient \<Rightarrow> net \<Rightarrow> wire list \<Rightarrow> issue \<Rightarrow> (neterr + string) \<times> wire list" where
  "CreateIssue L g n tr i =
     (case newRequest L ''POST'' (issue_endpoint g) (JsonBody (issue_json i)) of
        None \<Rightarrow> (Err bad_request, tr)
      | Some req \<Rightarrow>
        (let req = issue_request g req; tr' = tr @ [Http req]
         in case http_do n tr req of
              Inl e \<Rightarrow> (Err e, tr')
            | Inr resp \<Rightarrow>
              (let body = limit_read max_reply (rs_body resp)
               in if \<not> status_2xx resp
                  then (Err (''github create issue: '' @ rs_status resp @ '': '' @ body), tr')
                  else (Ok (case json_parse L body of None \<Rightarrow> []
                            | Some j \<Rightarrow> fst (str_field L ''html_url'' j)), tr'))))"

text \<open>A filing makes at most one request, to the repository's issues.\<close>

lemma CreateIssue_trace:
  "\<exists>q. snd (CreateIssue L g n tr i) = tr @ q \<and> length q \<le> 1
     \<and> (\<forall>w \<in> set q. \<exists>r. w = Http r \<and> rq_method r = ''POST'' \<and> rq_url r = issue_endpoint g
          \<and> rq_body r = JsonBody (issue_json i))"
  by (auto simp: CreateIssue_def Let_def issue_request_def
      split: option.split sum.split dest!: newRequest_Some)

end
