(* ===== verification/ContactServer.thy ===== *)
theory ContactServer
  imports RateLimit Submission MailTransport GitHub
begin

text \<open>
  The HTTP service, \<open>services/contact/server.go\<close>: requests and responses, the guards of a
  submission, the handlers, the routes.

  A handler takes the service's state (configuration, transport, the three limiters), the request,
  and an \<open>outside\<close>: what the calls that reach out of the program return during this request (the
  readings of the clock, the random bytes, the order in which maps are iterated, the network,
  whether a template renders). It gives the response, the event it logs, the calls made on the
  network and the state after it. The rendered page is the value handed to the template.
\<close>

section \<open>Requests and responses\<close>

definition csrfCookie :: string where "csrfCookie = ''ccc_csrf''"
definition csrfField :: string where "csrfField = ''_csrf''"
definition honeypotField :: string where "honeypotField = ''website''"
definition themeCookie :: string where "themeCookie = ''ccc-color-scheme''"
definition maxBodyBytes :: int where "maxBodyBytes = push_bit 10 64"
definition maxUserAgentRunes :: int where "maxUserAgentRunes = 400"
definition thanksPath :: string where "thanksPath = ''/contact/thanks''"

text \<open>A request as the handlers see it: cookies and headers as parsed by the server, the first
  value of each header; whether the body is declared a URL-encoded form, and whether it could be
  read to its end.\<close>

record request =
  req_method :: string
  req_path :: string
  req_query :: string
  req_host :: string
  req_remoteAddr :: string
  req_header :: "(string \<times> string) list"
  req_cookies :: "(string \<times> string) list"
  req_is_form :: bool
  req_body :: string
  req_readable :: bool

definition header_get :: "request \<Rightarrow> string \<Rightarrow> string" where
  "header_get r k = lookup_def [] (req_header r) k"

definition cookie :: "request \<Rightarrow> string \<Rightarrow> string option" where
  "cookie r name = map_of (req_cookies r) name"

datatype form_error = TooLarge | Unreadable

text \<open>\<open>r.ParseForm()\<close> after \<open>http.MaxBytesReader\<close>: only a URL-encoded body is read; a body past the
  cap is an error of its own; the query string is parsed too. The result is \<open>r.PostForm\<close>.\<close>

definition parseForm :: "golib \<Rightarrow> request \<Rightarrow> form_error + (string \<times> string) list" where
  "parseForm L r =
     (if req_is_form r then
        (if len (req_body r) > maxBodyBytes then Err TooLarge
         else if \<not> req_readable r then Err Unreadable
         else case parse_query L (req_body r) of
                None \<Rightarrow> Err Unreadable
              | Some post \<Rightarrow>
                  if parse_query L (req_query r) = None then Err Unreadable else Ok post)
      else if parse_query L (req_query r) = None then Err Unreadable
      else Ok [])"

definition postFormValue :: "(string \<times> string) list \<Rightarrow> string \<Rightarrow> string" where
  "postFormValue post k = lookup_def [] post k"

record http_cookie =
  ck_name :: string
  ck_value :: string
  ck_path :: string
  ck_httpOnly :: bool
  ck_secure :: bool
  ck_sameSiteStrict :: bool

record formView =
  fv_WikiName :: string
  fv_WikiURL :: string
  fv_ThemeClass :: string
  fv_CSRFToken :: string
  fv_Honeypot :: string
  fv_Kinds :: "(string \<times> string) list"
  fv_Values :: "(string \<times> string) list"
  fv_Errors :: "(string \<times> string) list"
  fv_GeneralError :: string
  fv_Ready :: bool
  fv_Recipient :: string
  fv_AllowedDomain :: string

record successView =
  suv_WikiName :: string
  suv_WikiURL :: string
  suv_ThemeClass :: string
  suv_Recipient :: string

datatype page =
    FormPage formView
  | SuccessPage successView
  | PlainText string
  | SeeOther string

record response =
  rp_status :: int
  rp_header :: "(string \<times> string) list"
  rp_cookies :: "http_cookie list"
  rp_page :: page

text \<open>\<open>http.Error\<close> and \<open>http.Redirect\<close> to an absolute path.\<close>

definition http_error :: "string \<Rightarrow> int \<Rightarrow> response" where
  "http_error msg code =
     \<lparr>rp_status = code,
      rp_header = [(''Content-Type'', ''text/plain; charset=utf-8''), (''X-Content-Type-Options'', ''nosniff'')],
      rp_cookies = [], rp_page = PlainText (msg @ [LF])\<rparr>"

definition redirect :: "string \<Rightarrow> int \<Rightarrow> response" where
  "redirect path code =
     \<lparr>rp_status = code, rp_header = [(''Location'', path)], rp_cookies = [], rp_page = SeeOther path\<rparr>"

section \<open>State\<close>

record server =
  cfg :: Config
  srv_mailer :: mailer
  gh :: githubClient
  limiter :: rate_limiter
  globalLimiter :: rate_limiter
  ghLimiter :: rate_limiter

text \<open>The embedded templates parse.\<close>

definition newServer :: "Config \<Rightarrow> start_error + server" where
  "newServer c =
     (case newMailer c of
        Inl e \<Rightarrow> Err e
      | Inr m \<Rightarrow> Ok \<lparr>cfg = c, srv_mailer = m, gh = newGitHubClient c,
                     limiter = newRateLimiter (RateLimitPerHour c) hour,
                     globalLimiter = newRateLimiter (GlobalRateLimitPerHour c) hour,
                     ghLimiter = newRateLimiter (GitHubDailyCap c) (24 * hour)\<rparr>)"

record outside =
  now_limit :: time
  now_sub :: time
  now_global :: time
  now_gh :: time
  now_mail :: time
  elapsed_ms :: int
  random16 :: "8 word list option"
  iter_order :: map_order
  network :: net
  renders :: "page \<Rightarrow> bool"

section \<open>Guards\<close>

definition themeClass :: "request \<Rightarrow> string" where
  "themeClass r =
     (case cookie r themeCookie of
        None \<Rightarrow> []
      | Some v \<Rightarrow> if v = ''dark'' then ''dark-mode'' else if v = ''light'' then ''ccc-light'' else [])"

text \<open>\<open>net.SplitHostPort\<close>, the host; \<open>None\<close> for its errors.\<close>

definition last_index :: "char \<Rightarrow> string \<Rightarrow> nat option" where
  "last_index c s =
     (let t = takeWhile (\<lambda>x. x \<noteq> c) (rev s)
      in if length t = length s then None else Some (length s - 1 - length t))"

definition first_index :: "char \<Rightarrow> string \<Rightarrow> nat option" where
  "first_index c s =
     (let n = length (takeWhile (\<lambda>x. x \<noteq> c) s) in if n = length s then None else Some n)"

definition split_host_port :: "string \<Rightarrow> (string \<times> string) option" where
  "split_host_port s =
     (case last_index CHR '':'' s of
        None \<Rightarrow> None
      | Some i \<Rightarrow>
        (if hd s = CHR ''['' then
           (case first_index CHR '']'' s of
              None \<Rightarrow> None
            | Some e \<Rightarrow>
                if e + 1 = i \<and> CHR ''['' \<notin> set (tl s) \<and> CHR '']'' \<notin> set (drop (e + 1) s)
                then Some (drop 1 (take e s), drop (i + 1) s) else None)
         else if CHR '':'' \<in> set (take i s) \<or> CHR ''['' \<in> set s \<or> CHR '']'' \<in> set s then None
         else Some (take i s, drop (i + 1) s)))"

definition remote_host :: "request \<Rightarrow> string" where
  "remote_host r =
     (case split_host_port (req_remoteAddr r) of Some (h, _) \<Rightarrow> h | None \<Rightarrow> req_remoteAddr r)"

definition clientIP :: "golib \<Rightarrow> Config \<Rightarrow> request \<Rightarrow> string" where
  "clientIP L c r =
     (let remote = remote_host r
      in if \<not> TrustProxy c then remote
         else
           let xff = header_get r ''X-Forwarded-For''
           in if xff = [] then remote
              else
                let parts = split_byte CHR '','' xff;
                    idx = int (length parts) - TrustedProxyHops c;
                    idx = (if idx < 0 then 0 else idx);
                    cand = trim_space (parts ! nat idx)
                in if parse_ip L cand then cand else remote)"

definition sameOrigin :: "golib \<Rightarrow> request \<Rightarrow> bool" where
  "sameOrigin L r =
     (let origin = header_get r ''Origin'';
          origin = (if origin = [] then header_get r ''Referer'' else origin)
      in if origin = [] then True
         else case url_host L origin of
                None \<Rightarrow> False
              | Some h \<Rightarrow> if h = [] then False else equal_fold (fold_tab L) h (req_host r))"

definition verifyCSRF :: "request \<Rightarrow> (string \<times> string) list \<Rightarrow> bool" where
  "verifyCSRF r post =
     (case cookie r csrfCookie of
        None \<Rightarrow> False
      | Some c \<Rightarrow>
          if c = [] then False
          else let posted = postFormValue post csrfField
               in if posted = [] then False else c = posted)"

text \<open>An empty token when no random bytes are to be had; no cookie is set then.\<close>

definition issueCSRF :: "Config \<Rightarrow> outside \<Rightarrow> string \<times> http_cookie list" where
  "issueCSRF c out =
     (case randomToken (random16 out) of
        None \<Rightarrow> ([], [])
      | Some tok \<Rightarrow> (tok, [\<lparr>ck_name = csrfCookie, ck_value = tok, ck_path = ''/'',
                           ck_httpOnly = True, ck_secure = CookieSecure c,
                           ck_sameSiteStrict = True\<rparr>]))"

section \<open>Views\<close>

definition newFormView ::
  "Config \<Rightarrow> outside \<Rightarrow> request \<Rightarrow> (string \<times> string) list \<Rightarrow> (string \<times> string) list \<Rightarrow> string
     \<Rightarrow> formView \<times> http_cookie list" where
  "newFormView c out r values errs general =
     (let (tok, cks) = issueCSRF c out
      in (\<lparr>fv_WikiName = WikiName c, fv_WikiURL = WikiURL c, fv_ThemeClass = themeClass r,
           fv_CSRFToken = tok, fv_Honeypot = honeypotField, fv_Kinds = kindOptions,
           fv_Values = values, fv_Errors = errs, fv_GeneralError = general,
           fv_Ready = mailConfigured c, fv_Recipient = Recipient c,
           fv_AllowedDomain = AllowedDomain c\<rparr>, cks))"

definition newSuccessView :: "Config \<Rightarrow> request \<Rightarrow> successView" where
  "newSuccessView c r = \<lparr>suv_WikiName = WikiName c, suv_WikiURL = WikiURL c,
     suv_ThemeClass = themeClass r, suv_Recipient = Recipient c\<rparr>"

text \<open>Cookies set while the view was built are sent whether or not the template renders.\<close>

definition renderHTML :: "outside \<Rightarrow> int \<Rightarrow> page \<Rightarrow> http_cookie list \<Rightarrow> response" where
  "renderHTML out status p cks =
     (if \<not> renders out p then (http_error ''internal error'' 500)\<lparr>rp_cookies := cks\<rparr>
      else \<lparr>rp_status = status, rp_header = [(''Content-Type'', ''text/html; charset=utf-8'')],
            rp_cookies = cks, rp_page = p\<rparr>)"

definition renderForm :: "outside \<Rightarrow> int \<Rightarrow> formView \<times> http_cookie list \<Rightarrow> response" where
  "renderForm out status v = renderHTML out status (FormPage (fst v)) (snd v)"

definition renderSuccess :: "outside \<Rightarrow> successView \<Rightarrow> response" where
  "renderSuccess out v = renderHTML out 200 (SuccessPage v) []"

definition buildMessage :: "golib \<Rightarrow> Config \<Rightarrow> Submission \<Rightarrow> Message" where
  "buildMessage L c sub =
     \<lparr>msg_FromName = FromName c, msg_FromAddr = FromAddress c, msg_To = Recipient c,
      msg_ReplyTo = sub_email sub, msg_Subject = subject sub (WikiName c),
      msg_Body = email_text (email_view L sub (WikiName c)),
      msg_Headers = [(''X-CCC-Contact-Type'', kind_str (sub_kind sub))]\<rparr>"

definition buildIssue :: "golib \<Rightarrow> Config \<Rightarrow> Submission \<Rightarrow> issue" where
  "buildIssue L c sub =
     \<lparr>iss_Title = subject sub (WikiName c), iss_Body = issueBody L sub (WikiName c),
      iss_Labels = (if gitHubLabel (sub_kind sub) \<noteq> [] then [gitHubLabel (sub_kind sub)] else [])\<rparr>"

section \<open>The submit handler\<close>

datatype outcome = sent | rate_limited_ip | rate_limited_global | csrf_fail | origin_mismatch
  | honeypot | invalid | too_large | unreadable | send_failed | mail_unconfigured

datatype level = Info | Warn | Error

fun outcome_level :: "outcome \<Rightarrow> level" where
  "outcome_level oc =
     (if oc \<in> {rate_limited_ip, rate_limited_global, csrf_fail, origin_mismatch, invalid, too_large,
              unreadable} then Warn
      else if oc \<in> {send_failed, mail_unconfigured} then Error
      else Info)"

datatype gh_status = gh_disabled | gh_capped | gh_failed | gh_filed

record event =
  log_level :: level
  log_outcome :: outcome
  log_ip :: string
  log_send_ms :: int
  log_github :: gh_status
  log_err :: "neterr option"

record handled =
  hd_response :: response
  hd_event :: event
  hd_wire :: "wire list"
  hd_server :: server

definition finish ::
  "outcome \<Rightarrow> string \<Rightarrow> int \<Rightarrow> gh_status \<Rightarrow> neterr option \<Rightarrow> response \<Rightarrow> wire list \<Rightarrow> server \<Rightarrow> handled" where
  "finish oc ip ms g err resp tr s =
     \<lparr>hd_response = resp,
      hd_event = \<lparr>log_level = outcome_level oc, log_outcome = oc, log_ip = ip, log_send_ms = ms,
                  log_github = g, log_err = err\<rparr>,
      hd_wire = tr, hd_server = s\<rparr>"

definition msg_too_large :: string where
  "msg_too_large = ''That submission was too large. Please shorten it and try again.''"
definition msg_unreadable :: string where
  "msg_unreadable = ''Could not read the form. Please try again.''"
definition msg_rate_ip :: string where
  "msg_rate_ip = ''Too many submissions from your connection. Please wait a few minutes and try again.''"
definition msg_expired :: string where
  "msg_expired = ''Your session expired. Please review and submit again.''"
definition msg_unconfigured :: "string \<Rightarrow> string" where
  "msg_unconfigured rcpt =
     [CHR ''E''] @ ''mail delivery isn'' @ [CHR 0x27] @ ''t set up yet. Please email '' @ rcpt
     @ '' directly for now.''"
definition msg_rate_global :: string where
  "msg_rate_global = ''We'' @ [CHR 0x27]
     @ ''re receiving an unusually high number of submissions right now. Please try again shortly.''"
definition msg_send_failed :: string where
  "msg_send_failed = ''Sorry '' @ [CHR 0xE2, CHR 0x80, CHR 0x94] @ '' we couldn'' @ [CHR 0x27]
     @ ''t send your message right now. Please try again in a few minutes.''"

definition form_input :: "(string \<times> string) list \<Rightarrow> formInput" where
  "form_input post =
     \<lparr>in_kind = postFormValue post ''type'', in_name = postFormValue post ''name'',
      in_email = postFormValue post ''email'', in_page = postFormValue post ''page'',
      in_summary = postFormValue post ''summary'', in_details = postFormValue post ''details''\<rparr>"

definition form_values :: "formInput \<Rightarrow> (string \<times> string) list" where
  "form_values f =
     [(''type'', in_kind f), (''name'', in_name f), (''email'', in_email f),
      (''page'', in_page f), (''summary'', in_summary f), (''details'', in_details f)]"

text \<open>The issue, after the mail went out: the daily cap, then the filing; its failure is logged.\<close>

definition file_issue ::
  "golib \<Rightarrow> outside \<Rightarrow> server \<Rightarrow> Submission \<Rightarrow> wire list \<Rightarrow> gh_status \<times> wire list \<times> server" where
  "file_issue L out s sub tr =
     (if githubConfigured (cfg s) then
        (case allow (iter_order out) (ghLimiter s) ''github'' (now_gh out) of (ok, lim) \<Rightarrow>
           let s = s\<lparr>ghLimiter := lim\<rparr>
           in if \<not> ok then (gh_capped, tr, s)
              else case CreateIssue L (gh s) (network out) tr (buildIssue L (cfg s) sub) of
                     (Inl _, tr) \<Rightarrow> (gh_failed, tr, s)
                   | (Inr _, tr) \<Rightarrow> (gh_filed, tr, s))
      else (gh_disabled, tr, s))"

text \<open>From the send to the end of the handler.\<close>

definition submit_send ::
  "golib \<Rightarrow> outside \<Rightarrow> server \<Rightarrow> request \<Rightarrow> string \<Rightarrow> (string \<times> string) list \<Rightarrow> Submission \<Rightarrow> handled" where
  "submit_send L out s r ip values sub =
     (let sub = sub\<lparr>sub_sourceIP := ip,
                    sub_userAgent := truncateRunes (header_get r ''User-Agent'') maxUserAgentRunes\<rparr>
      in case Send L (srv_mailer s) (network out) (buildMessage L (cfg s) sub) (now_mail out) of
           (Some e, tr) \<Rightarrow>
             finish send_failed ip (elapsed_ms out) gh_disabled (Some e)
               (renderForm out 502 (newFormView (cfg s) out r values [] msg_send_failed)) tr s
         | (None, tr) \<Rightarrow>
             (case file_issue L out s sub tr of (g, tr, s) \<Rightarrow>
                finish sent ip (elapsed_ms out) g None (redirect thanksPath 303) tr s))"

text \<open>From the honeypot to the aggregate limit.\<close>

definition submit_checked ::
  "golib \<Rightarrow> outside \<Rightarrow> server \<Rightarrow> request \<Rightarrow> string \<Rightarrow> (string \<times> string) list \<Rightarrow> handled" where
  "submit_checked L out s r ip post =
     (let inp = form_input post; values = form_values inp; c = cfg s
      in if trim_space (postFormValue post honeypotField) \<noteq> []
         then finish honeypot ip 0 gh_disabled None (redirect thanksPath 303) [] s
         else case newSubmission L inp c (now_sub out) of (subopt, ferrs) \<Rightarrow>
           if ferrs \<noteq> []
           then finish invalid ip 0 gh_disabled None
                  (renderForm out 400 (newFormView c out r values
                     (fold (\<lambda>(f, m). AList.update f m) ferrs []) [])) [] s
           else if \<not> mailConfigured c
           then finish mail_unconfigured ip 0 gh_disabled None
                  (renderForm out 503 (newFormView c out r values [] (msg_unconfigured (Recipient c)))) [] s
           else case allow (iter_order out) (globalLimiter s) ''global'' (now_global out) of (ok, lim) \<Rightarrow>
             let s = s\<lparr>globalLimiter := lim\<rparr>
             in if \<not> ok
                then finish rate_limited_global ip 0 gh_disabled None
                       (renderForm out 429 (newFormView c out r values [] msg_rate_global)) [] s
                else submit_send L out s r ip values (the subopt))"

definition handleSubmit :: "golib \<Rightarrow> outside \<Rightarrow> server \<Rightarrow> request \<Rightarrow> handled" where
  "handleSubmit L out s r =
     (let c = cfg s; ip = clientIP L c r
      in case parseForm L r of
           Inl TooLarge \<Rightarrow>
             finish too_large ip 0 gh_disabled None
               (renderForm out 413 (newFormView c out r [] [] msg_too_large)) [] s
         | Inl Unreadable \<Rightarrow>
             finish unreadable ip 0 gh_disabled None
               (renderForm out 400 (newFormView c out r [] [] msg_unreadable)) [] s
         | Inr post \<Rightarrow>
             let values = form_values (form_input post)
             in case allow (iter_order out) (limiter s) ip (now_limit out) of (ok, lim) \<Rightarrow>
               let s = s\<lparr>limiter := lim\<rparr>
               in if \<not> ok
                  then finish rate_limited_ip ip 0 gh_disabled None
                         (renderForm out 429 (newFormView c out r values [] msg_rate_ip)) [] s
                  else if \<not> sameOrigin L r
                  then finish origin_mismatch ip 0 gh_disabled None
                         (renderForm out 403 (newFormView c out r values [] msg_expired)) [] s
                  else if \<not> verifyCSRF r post
                  then finish csrf_fail ip 0 gh_disabled None
                         (renderForm out 403 (newFormView c out r values [] msg_expired)) [] s
                  else submit_checked L out s r ip post)"

section \<open>The other handlers and the routes\<close>

definition handleRoot :: response where
  "handleRoot = redirect ''/contact'' 303"

definition handleHealthz :: response where
  "handleHealthz = \<lparr>rp_status = 200, rp_header = [(''Content-Type'', ''text/plain; charset=utf-8'')],
     rp_cookies = [], rp_page = PlainText ''ok''\<rparr>"

definition handleReadyz :: "Config \<Rightarrow> response" where
  "handleReadyz c =
     (if \<not> mailConfigured c then http_error ''mail not configured'' 503
      else if TrustProxy c \<and> \<not> CookieSecure c
      then http_error ''insecure cookie: set CONTACT_SECURE_COOKIE=true behind a proxy'' 503
      else \<lparr>rp_status = 200, rp_header = [(''Content-Type'', ''text/plain; charset=utf-8'')],
            rp_cookies = [], rp_page = PlainText ''ready''\<rparr>)"

definition handleForm :: "Config \<Rightarrow> outside \<Rightarrow> request \<Rightarrow> response" where
  "handleForm c out r = renderForm out 200 (newFormView c out r [] [] [])"

definition handleThanks :: "Config \<Rightarrow> outside \<Rightarrow> request \<Rightarrow> response" where
  "handleThanks c out r = renderSuccess out (newSuccessView c r)"

datatype endpoint = EForm | ESubmit | EHealthz | EReadyz | EThanks | ERoot

definition routes_table :: "(string \<times> string \<times> endpoint) list" where
  "routes_table =
     [(''GET'', ''/contact'', EForm), (''POST'', ''/contact/submit'', ESubmit),
      (''GET'', ''/contact/healthz'', EHealthz), (''GET'', ''/healthz'', EHealthz),
      (''GET'', ''/contact/readyz'', EReadyz), (''GET'', ''/readyz'', EReadyz),
      (''GET'', ''/contact/thanks'', EThanks), (''GET'', ''/thanks'', EThanks),
      (''GET'', ''/'', ERoot)]"

text \<open>\<open>http.ServeMux\<close> on patterns without wildcards: exact paths, a \<open>GET\<close> pattern serves \<open>HEAD\<close> too;
  an unknown path is 404, a known one with another method 405.\<close>

definition mux_match :: "string \<Rightarrow> string \<Rightarrow> int + endpoint" where
  "mux_match m p =
     (case filter (\<lambda>(_, q, _). q = p) routes_table of
        [] \<Rightarrow> Inl 404
      | rs \<Rightarrow> (case find (\<lambda>(k, _, _). k = m \<or> k = ''GET'' \<and> m = ''HEAD'') rs of
                 None \<Rightarrow> Inl 405
               | Some (_, _, e) \<Rightarrow> Inr e))"

definition quoted :: "string \<Rightarrow> string" where
  "quoted s = [CHR 0x27] @ s @ [CHR 0x27]"

definition csp :: string where
  "csp = ''default-src '' @ quoted ''self'' @ ''; img-src '' @ quoted ''self''
     @ '' data:; style-src '' @ quoted ''self'' @ '' '' @ quoted ''unsafe-inline'' @ ''; ''
     @ ''script-src '' @ quoted ''self'' @ '' '' @ quoted ''unsafe-inline''
     @ ''; base-uri '' @ quoted ''none'' @ ''; form-action '' @ quoted ''self''
     @ ''; frame-ancestors '' @ quoted ''none''"

text \<open>The headers set before the handler runs; what the handler sets itself wins.\<close>

definition security_headers :: "(string \<times> string) list" where
  "security_headers =
     [(''Content-Security-Policy'', csp), (''X-Content-Type-Options'', ''nosniff''),
      (''Referrer-Policy'', ''no-referrer''), (''X-Frame-Options'', ''DENY'')]"

definition securityHeaders :: "response \<Rightarrow> response" where
  "securityHeaders resp =
     resp\<lparr>rp_header := fold (\<lambda>(k, v). AList.update k v) (rp_header resp) security_headers\<rparr>"

text \<open>One request, routed.\<close>

definition serve :: "golib \<Rightarrow> outside \<Rightarrow> server \<Rightarrow> request \<Rightarrow> response \<times> wire list \<times> server" where
  "serve L out s r =
     (let (resp, tr, s') =
        (case mux_match (req_method r) (req_path r) of
           Inl code \<Rightarrow>
             (http_error (if code = 404 then ''404 page not found'' else ''Method Not Allowed'') code, [], s)
         | Inr EForm \<Rightarrow> (handleForm (cfg s) out r, [], s)
         | Inr ESubmit \<Rightarrow>
             (let h = handleSubmit L out s r in (hd_response h, hd_wire h, hd_server h))
         | Inr EHealthz \<Rightarrow> (handleHealthz, [], s)
         | Inr EReadyz \<Rightarrow> (handleReadyz (cfg s), [], s)
         | Inr EThanks \<Rightarrow> (handleThanks (cfg s) out r, [], s)
         | Inr ERoot \<Rightarrow> (handleRoot, [], s))
      in (securityHeaders resp, tr, s'))"

section \<open>Starting and probing\<close>

text \<open>The program up to serving, \<open>services/contact/main.go\<close>: the exit code of a failed start, or the
  service.\<close>

definition contact_main :: "golib \<Rightarrow> getenv \<Rightarrow> int + server" where
  "contact_main L g =
     (case Load L g of
        (c, Some _) \<Rightarrow> Inl 1
      | (c, None) \<Rightarrow> (case newServer c of Inl _ \<Rightarrow> Inl 1 | Inr s \<Rightarrow> Inr s))"

text \<open>The health probe: the argument \<open>get\<close> is the HTTP client, the status code or an error.\<close>

definition probeHealth :: "(string \<Rightarrow> neterr + int) \<Rightarrow> string \<Rightarrow> neterr option" where
  "probeHealth get url =
     (case get url of
        Inl e \<Rightarrow> Some e
      | Inr code \<Rightarrow> if code \<noteq> 200 then Some (''unhealthy: status '' @ itoa code) else None)"

definition health_port :: "getenv \<Rightarrow> string" where
  "health_port g =
     (case split_host_port (env g ''CONTACT_LISTEN'' '':8080'') of
        None \<Rightarrow> ''8080''
      | Some (_, port) \<Rightarrow> if port = [] then ''8080'' else port)"

definition runHealthcheck :: "getenv \<Rightarrow> (string \<Rightarrow> neterr + int) \<Rightarrow> int" where
  "runHealthcheck g get =
     (if probeHealth get (''http://127.0.0.1:'' @ health_port g @ ''/healthz'') \<noteq> None then 1 else 0)"

section \<open>A sample service\<close>

text \<open>A configured service behind one proxy with GitHub intake, a clean submission, and an outside on
  which every call succeeds.\<close>

definition sample_server :: server where
  "sample_server = projr (newServer (sample_cfg\<lparr>GitHubToken := ''t'', GitHubRepo := ''o/r''\<rparr>))"

definition sample_request :: request where
  "sample_request =
     \<lparr>req_method = ''POST'', req_path = ''/contact/submit'', req_query = [], req_host = ''wiki'',
      req_remoteAddr = ''10.0.0.7:4711'', req_header = [(''X-Forwarded-For'', ''6.6.6.6, 10.1.2.3'')],
      req_cookies = [(''ccc_csrf'', ''ab'')], req_is_form = True,
      req_body = ''type=bug&name=Jane&email=jane@vanderbilt.edu&summary=Broken&_csrf=ab'',
      req_readable = True\<rparr>"

definition sample_outside :: outside where
  "sample_outside =
     \<lparr>now_limit = 5 * hour, now_sub = 5 * hour, now_global = 5 * hour, now_gh = 5 * hour,
      now_mail = 5 * hour, elapsed_ms = 2, random16 = Some [0x1f, 0xa0], iter_order = id,
      network = good_net, renders = (\<lambda>_. True)\<rparr>"

end
