(* ===== verification/ContactGuards.thy ===== *)
theory ContactGuards
  imports ContactServer
begin

text \<open>
  One submission through \<open>handleSubmit\<close> (\<open>services/contact/server.go\<close>): what has to hold before
  anything leaves the program, what the response and the log say, and what an attacker cannot
  influence.
\<close>

section \<open>The gates\<close>

lemma finish_simps [simp]:
  "hd_response (finish oc ip ms g err resp tr s) = resp"
  "hd_wire (finish oc ip ms g err resp tr s) = tr"
  "hd_server (finish oc ip ms g err resp tr s) = s"
  "log_outcome (hd_event (finish oc ip ms g err resp tr s)) = oc"
  "log_level (hd_event (finish oc ip ms g err resp tr s)) = outcome_level oc"
  "log_ip (hd_event (finish oc ip ms g err resp tr s)) = ip"
  "log_github (hd_event (finish oc ip ms g err resp tr s)) = g"
  "log_err (hd_event (finish oc ip ms g err resp tr s)) = err"
  by (simp_all add: finish_def)

declare outcome_level.simps [simp del]

text \<open>The condition for a mail to be attempted: every gate, in the order of the handler.\<close>

definition clean_post :: "golib \<Rightarrow> outside \<Rightarrow> server \<Rightarrow> request \<Rightarrow> (string \<times> string) list \<Rightarrow> Submission \<Rightarrow> bool" where
  "clean_post L out s r post sub \<longleftrightarrow>
     parseForm L r = Inr post
     \<and> fst (allow (iter_order out) (limiter s) (clientIP L (cfg s) r) (now_limit out))
     \<and> sameOrigin L r
     \<and> verifyCSRF r post
     \<and> trim_space (postFormValue post honeypotField) = []
     \<and> newSubmission L (form_input post) (cfg s) (now_sub out) = (Some sub, [])
     \<and> mailConfigured (cfg s)"

definition breaker_closed :: "outside \<Rightarrow> server \<Rightarrow> bool" where
  "breaker_closed out s \<longleftrightarrow> fst (allow (iter_order out) (globalLimiter s) ''global'' (now_global out))"

text \<open>The state when the send starts, and when the aggregate limit refuses.\<close>

definition charged_ip :: "golib \<Rightarrow> outside \<Rightarrow> server \<Rightarrow> request \<Rightarrow> server" where
  "charged_ip L out s r =
     s\<lparr>limiter := snd (allow (iter_order out) (limiter s) (clientIP L (cfg s) r) (now_limit out))\<rparr>"

definition charged :: "golib \<Rightarrow> outside \<Rightarrow> server \<Rightarrow> request \<Rightarrow> server" where
  "charged L out s r =
     (charged_ip L out s r)\<lparr>globalLimiter :=
        snd (allow (iter_order out) (globalLimiter s) ''global'' (now_global out))\<rparr>"

lemma charged_simps [simp]:
  "cfg (charged_ip L out s r) = cfg s" "cfg (charged L out s r) = cfg s"
  "srv_mailer (charged_ip L out s r) = srv_mailer s" "srv_mailer (charged L out s r) = srv_mailer s"
  "gh (charged_ip L out s r) = gh s" "gh (charged L out s r) = gh s"
  "ghLimiter (charged_ip L out s r) = ghLimiter s" "ghLimiter (charged L out s r) = ghLimiter s"
  "globalLimiter (charged_ip L out s r) = globalLimiter s"
  "globalLimiter (charged L out s r) =
     snd (allow (iter_order out) (globalLimiter s) ''global'' (now_global out))"
  by (simp_all add: charged_def charged_ip_def)

lemma newSubmission_cases:
  obtains sub where "newSubmission L f c now = (Some sub, [])"
  | errs where "newSubmission L f c now = (None, errs)" "errs \<noteq> []"
  using newSubmission_accepts [of L c f now] newSubmission_rejects [of L c f now]
  by (cases "input_ok L c f"; cases "newSubmission L f c now") auto

text \<open>The three ways through the handler: past every gate, stopped by the breaker, stopped before.\<close>

lemma handleSubmit_passed:
  assumes "clean_post L out s r post sub" and "breaker_closed out s"
  shows "handleSubmit L out s r =
    submit_send L out (charged L out s r) r (clientIP L (cfg s) r) (form_values (form_input post)) sub"
  using assms
  by (auto simp: clean_post_def breaker_closed_def handleSubmit_def submit_checked_def Let_def
      charged_def charged_ip_def split: prod.splits)

lemma handleSubmit_tripped:
  assumes "clean_post L out s r post sub" and "\<not> breaker_closed out s"
  shows "handleSubmit L out s r =
    finish rate_limited_global (clientIP L (cfg s) r) 0 gh_disabled None
      (renderForm out 429 (newFormView (cfg s) out r (form_values (form_input post)) [] msg_rate_global))
      [] (charged L out s r)"
  using assms
  by (auto simp: clean_post_def breaker_closed_def handleSubmit_def submit_checked_def Let_def
      charged_def charged_ip_def split: prod.splits)

lemma handleSubmit_blocked:
  assumes "\<And>post sub. \<not> clean_post L out s r post sub"
  shows "hd_wire (handleSubmit L out s r) = []
     \<and> globalLimiter (hd_server (handleSubmit L out s r)) = globalLimiter s
     \<and> ghLimiter (hd_server (handleSubmit L out s r)) = ghLimiter s
     \<and> log_outcome (hd_event (handleSubmit L out s r)) \<notin> {sent, send_failed, rate_limited_global}"
proof (cases "parseForm L r")
  case (Inl e)
  then show ?thesis by (cases e) (simp_all add: handleSubmit_def Let_def)
next
  case (Inr post)
  let ?a = "allow (iter_order out) (limiter s) (clientIP L (cfg s) r) (now_limit out)"
  obtain ok lim where a: "?a = (ok, lim)" by (cases ?a)
  consider (early) "\<not> (ok \<and> sameOrigin L r \<and> verifyCSRF r post)"
    | (late) "ok" "sameOrigin L r" "verifyCSRF r post" by blast
  then show ?thesis
  proof cases
    case early
    with Inr a show ?thesis by (auto simp: handleSubmit_def Let_def)
  next
    case late
    have h: "handleSubmit L out s r =
        submit_checked L out (s\<lparr>limiter := lim\<rparr>) r (clientIP L (cfg s) r) post"
      using Inr a late by (simp add: handleSubmit_def Let_def)
    have nc: "\<not> (trim_space (postFormValue post honeypotField) = []
        \<and> newSubmission L (form_input post) (cfg s) (now_sub out) = (Some sub, [])
        \<and> mailConfigured (cfg s))" for sub
      using assms [of post sub] Inr a late by (simp add: clean_post_def)
    show ?thesis
    proof (cases rule: newSubmission_cases [of L "form_input post" "cfg s" "now_sub out"])
      case (1 sub)
      with nc [of sub] show ?thesis unfolding h by (auto simp: submit_checked_def Let_def)
    next
      case (2 errs)
      then show ?thesis unfolding h by (auto simp: submit_checked_def Let_def)
    qed
  qed
qed

lemma handleSubmit_cases:
  obtains (passed) post sub where "clean_post L out s r post sub" "breaker_closed out s"
  | (tripped) post sub where "clean_post L out s r post sub" "\<not> breaker_closed out s"
  | (blocked) "\<And>post sub. \<not> clean_post L out s r post sub"
  by blast

section \<open>The send\<close>

definition stamped :: "golib \<Rightarrow> Config \<Rightarrow> request \<Rightarrow> Submission \<Rightarrow> Submission" where
  "stamped L c r sub = sub\<lparr>sub_sourceIP := clientIP L c r,
     sub_userAgent := truncateRunes (header_get r ''User-Agent'') maxUserAgentRunes\<rparr>"

text \<open>The one mail of a request.\<close>

definition mail_of :: "golib \<Rightarrow> outside \<Rightarrow> server \<Rightarrow> request \<Rightarrow> Submission \<Rightarrow> neterr option \<times> wire list" where
  "mail_of L out s r sub =
     Send L (srv_mailer s) (network out) (buildMessage L (cfg s) (stamped L (cfg s) r sub)) (now_mail out)"

definition issue_post :: "golib \<Rightarrow> server \<Rightarrow> request \<Rightarrow> Submission \<Rightarrow> wire \<Rightarrow> bool" where
  "issue_post L s r sub w \<longleftrightarrow>
     (\<exists>q. w = Http q \<and> rq_method q = ''POST'' \<and> rq_url q = issue_endpoint (gh s)
        \<and> rq_body q = JsonBody (issue_json (buildIssue L (cfg s) (stamped L (cfg s) r sub))))"

lemma file_issue_trace:
  "\<exists>g q lim. file_issue L out s sub tr = (g, tr @ q, s\<lparr>ghLimiter := lim\<rparr>) \<and> length q \<le> 1
     \<and> (\<forall>w \<in> set q. \<exists>p. w = Http p \<and> rq_method p = ''POST'' \<and> rq_url p = issue_endpoint (gh s)
          \<and> rq_body p = JsonBody (issue_json (buildIssue L (cfg s) sub)))
     \<and> (q \<noteq> [] \<longrightarrow> githubConfigured (cfg s)
          \<and> fst (allow (iter_order out) (ghLimiter s) ''github'' (now_gh out)))
     \<and> lim = (if githubConfigured (cfg s)
              then snd (allow (iter_order out) (ghLimiter s) ''github'' (now_gh out)) else ghLimiter s)"
proof (cases "githubConfigured (cfg s)")
  case False
  then show ?thesis
    by (intro exI [of _ gh_disabled] exI [of _ "[]"] exI [of _ "ghLimiter s"])
      (simp add: file_issue_def)
next
  case True
  obtain ok lim where a: "allow (iter_order out) (ghLimiter s) ''github'' (now_gh out) = (ok, lim)"
    by (cases "allow (iter_order out) (ghLimiter s) ''github'' (now_gh out)")
  show ?thesis
  proof (cases ok)
    case False
    with True a show ?thesis
      by (intro exI [of _ gh_capped] exI [of _ "[]"] exI [of _ lim]) (simp add: file_issue_def)
  next
    case ok: True
    let ?c = "CreateIssue L (gh s) (network out) tr (buildIssue L (cfg s) sub)"
    obtain q where q: "snd ?c = tr @ q" "length q \<le> 1"
      "\<forall>w \<in> set q. \<exists>p. w = Http p \<and> rq_method p = ''POST'' \<and> rq_url p = issue_endpoint (gh s)
         \<and> rq_body p = JsonBody (issue_json (buildIssue L (cfg s) sub))"
      using CreateIssue_trace [of L "gh s" "network out" tr "buildIssue L (cfg s) sub"] by blast
    show ?thesis
    proof (cases ?c)
      case (Pair x tr')
      with True ok a q show ?thesis
        by (intro exI [of _ "case x of Inl _ \<Rightarrow> gh_failed | Inr _ \<Rightarrow> gh_filed"] exI [of _ q]
            exI [of _ lim]) (auto simp: file_issue_def split: sum.split)
    qed
  qed
qed

lemma submit_send_shape:
  assumes "clean_post L out s r post sub" and "breaker_closed out s"
  shows "case mail_of L out s r sub of
       (Some e, tr) \<Rightarrow> hd_wire (handleSubmit L out s r) = tr
         \<and> log_outcome (hd_event (handleSubmit L out s r)) = send_failed
         \<and> hd_server (handleSubmit L out s r) = charged L out s r
     | (None, tr) \<Rightarrow> (\<exists>q. hd_wire (handleSubmit L out s r) = tr @ q \<and> length q \<le> 1
         \<and> (\<forall>w \<in> set q. issue_post L s r sub w)
         \<and> (q \<noteq> [] \<longrightarrow> githubConfigured (cfg s)
              \<and> fst (allow (iter_order out) (ghLimiter s) ''github'' (now_gh out))))
         \<and> log_outcome (hd_event (handleSubmit L out s r)) = sent
         \<and> hd_response (handleSubmit L out s r) = redirect thanksPath 303
         \<and> globalLimiter (hd_server (handleSubmit L out s r)) = globalLimiter (charged L out s r)
         \<and> ghLimiter (hd_server (handleSubmit L out s r)) =
             (if githubConfigured (cfg s)
              then snd (allow (iter_order out) (ghLimiter s) ''github'' (now_gh out))
              else ghLimiter s)"
proof -
  let ?s = "charged L out s r" and ?sub = "stamped L (cfg s) r sub"
  have h: "handleSubmit L out s r =
      (case mail_of L out s r sub of
         (Some e, tr) \<Rightarrow>
           finish send_failed (clientIP L (cfg s) r) (elapsed_ms out) gh_disabled (Some e)
             (renderForm out 502 (newFormView (cfg s) out r (form_values (form_input post)) [] msg_send_failed))
             tr ?s
       | (None, tr) \<Rightarrow>
           (case file_issue L out ?s ?sub tr of (g, tr, s') \<Rightarrow>
              finish sent (clientIP L (cfg s) r) (elapsed_ms out) g None (redirect thanksPath 303) tr s'))"
    unfolding handleSubmit_passed [OF assms] submit_send_def Let_def mail_of_def stamped_def
      charged_simps by (rule refl)
  show ?thesis
  proof (cases "mail_of L out s r sub")
    case (Pair err tr)
    show ?thesis
    proof (cases err)
      case (Some e)
      with Pair h show ?thesis by simp
    next
      case None
      obtain g q lim where f: "file_issue L out ?s ?sub tr = (g, tr @ q, ?s\<lparr>ghLimiter := lim\<rparr>)"
        "length q \<le> 1" "\<forall>w \<in> set q. issue_post L s r sub w"
        "q \<noteq> [] \<longrightarrow> githubConfigured (cfg s)
          \<and> fst (allow (iter_order out) (ghLimiter s) ''github'' (now_gh out))"
        "lim = (if githubConfigured (cfg s)
              then snd (allow (iter_order out) (ghLimiter s) ''github'' (now_gh out)) else ghLimiter s)"
        using file_issue_trace [of L out ?s ?sub tr] unfolding charged_simps issue_post_def by blast
      with Pair None h show ?thesis by auto
    qed
  qed
qed

lemma issue_recipients: "issue_post L s r sub w \<Longrightarrow> recipients w = []"
  by (auto simp: issue_post_def issue_json_def payload_recipients_def obj_at_def elems_def lookup_def_def)

lemma all_recipients_issues: "\<forall>w \<in> set q. issue_post L s r sub w \<Longrightarrow> all_recipients q = []"
  by (induction q) (auto simp: issue_recipients)

lemma mail_of_offered: "all_recipients (snd (mail_of L out s r sub)) \<in> {[], [Recipient (cfg s)]}"
  using transport.offered [of L "srv_mailer s" "network out"
      "buildMessage L (cfg s) (stamped L (cfg s) r sub)" "now_mail out"]
  by (simp add: mail_of_def buildMessage_def)

lemma submit_recipients:
  assumes "clean_post L out s r post sub" and "breaker_closed out s"
  shows "all_recipients (hd_wire (handleSubmit L out s r)) = all_recipients (snd (mail_of L out s r sub))"
proof (cases "mail_of L out s r sub")
  case (Pair err tr)
  with submit_send_shape [OF assms] show ?thesis
    by (cases err) (auto simp: all_recipients_issues)
qed

section \<open>Properties\<close>

text \<open>C17. The service is no open relay and no spam cannon: if a request makes the program touch the
  network at all, it was a readable form within its size, its source was within its limit, its
  origin and CSRF token were good, the honeypot was empty, every field validated, mail was
  configured and the aggregate limit granted it; and the only address any of its calls asks to
  deliver to, at most once, is the configured recipient.\<close>

theorem submit_network_gated:
  assumes "hd_wire (handleSubmit L out s r) \<noteq> []"
  shows "(\<exists>post sub. clean_post L out s r post sub) \<and> breaker_closed out s
     \<and> all_recipients (hd_wire (handleSubmit L out s r)) \<in> {[], [Recipient (cfg s)]}"
proof (cases rule: handleSubmit_cases [of L out s r])
  case (passed post sub)
  with submit_recipients mail_of_offered [of L out s r sub] show ?thesis by auto
next
  case (tripped post sub)
  with assms handleSubmit_tripped show ?thesis by simp
next
  case blocked
  with assms handleSubmit_blocked show ?thesis by blast
qed

definition sample_sub :: Submission where
  "sample_sub =
     \<lparr>sub_kind = kindBug, sub_name = ''Jane'', sub_email = ''jane@vanderbilt.edu'', sub_page = [],
      sub_summary = ''Broken'', sub_details = [], sub_at = 5 * hour, sub_sourceIP = [],
      sub_userAgent = []\<rparr>"

lemma sample_clean:
  "clean_post sample_lib sample_outside sample_server sample_request
     (sample_query (req_body sample_request)) sample_sub"
  unfolding clean_post_def by (intro conjI; code_simp)

lemma sample_closed: "breaker_closed sample_outside sample_server"
  unfolding breaker_closed_def by code_simp

theorem submit_network_gated_witness:
  "let h = handleSubmit sample_lib sample_outside sample_server sample_request
   in hd_wire h \<noteq> [] \<and> all_recipients (hd_wire h) \<in> {[], [''admin@vanderbilt.edu'']}"
proof -
  let ?h = "handleSubmit sample_lib sample_outside sample_server sample_request"
  have w: "hd_wire ?h \<noteq> []" by code_simp
  have "Recipient (cfg sample_server) = ''admin@vanderbilt.edu''" by code_simp
  with w submit_network_gated [OF w] show ?thesis by (simp add: Let_def)
qed

text \<open>C18. One mail, then at most one issue, and only the mail decides: past the gates the calls are
  those of the one \<open>Send\<close>; when it fails there is no issue and the daily cap is not charged; when
  it succeeds at most one request follows, the issue of this submission, if GitHub is configured
  and its cap granted it, and whatever GitHub answers the submitter is redirected to the thanks
  page and the outcome is \<open>sent\<close>.\<close>

theorem submit_mail_then_issue:
  assumes "clean_post L out s r post sub" and "breaker_closed out s"
    and "mail_of L out s r sub = (err, tr)"
  shows "\<exists>q. hd_wire (handleSubmit L out s r) = tr @ q \<and> length q \<le> 1
      \<and> (\<forall>w \<in> set q. issue_post L s r sub w)
      \<and> (q \<noteq> [] \<longrightarrow> err = None \<and> githubConfigured (cfg s)
           \<and> fst (allow (iter_order out) (ghLimiter s) ''github'' (now_gh out)))
      \<and> (if err = None
         then log_outcome (hd_event (handleSubmit L out s r)) = sent
           \<and> hd_response (handleSubmit L out s r) = redirect thanksPath 303
         else log_outcome (hd_event (handleSubmit L out s r)) = send_failed
           \<and> ghLimiter (hd_server (handleSubmit L out s r)) = ghLimiter s)"
proof (cases err)
  case None
  with submit_send_shape [OF assms(1,2)] assms(3) show ?thesis by auto
next
  case (Some e)
  with submit_send_shape [OF assms(1,2)] assms(3) show ?thesis
    by (intro exI [of _ "[]"]) simp
qed

theorem submit_mail_then_issue_witness:
  "\<exists>q. hd_wire (handleSubmit sample_lib sample_outside sample_server sample_request) =
       snd (mail_of sample_lib sample_outside sample_server sample_request sample_sub) @ q
     \<and> length q \<le> 1
     \<and> hd_response (handleSubmit sample_lib sample_outside sample_server sample_request)
         = redirect thanksPath 303"
proof -
  let ?m = "mail_of sample_lib sample_outside sample_server sample_request sample_sub"
  have "fst ?m = None" by code_simp
  then have m: "?m = (None, snd ?m)" by (simp add: prod_eq_iff)
  from submit_mail_then_issue [OF sample_clean sample_closed m] show ?thesis by auto
qed

text \<open>C19. Junk cannot trip the breaker: a request that is not a clean submission (unreadable, over its
  source's limit, foreign, without the token, honeypot filled, invalid, or mail not configured)
  makes no call on the network and leaves the aggregate and the GitHub limiters as they were.\<close>

theorem submit_junk_uncharged:
  assumes "\<And>post sub. \<not> clean_post L out s r post sub"
  shows "hd_wire (handleSubmit L out s r) = []
     \<and> globalLimiter (hd_server (handleSubmit L out s r)) = globalLimiter s
     \<and> ghLimiter (hd_server (handleSubmit L out s r)) = ghLimiter s"
  using handleSubmit_blocked [OF assms] by blast

theorem submit_junk_uncharged_witness:
  "let r = sample_request\<lparr>req_cookies := []\<rparr>;
       h = handleSubmit sample_lib sample_outside sample_server r
   in hd_wire h = [] \<and> globalLimiter (hd_server h) = globalLimiter sample_server
      \<and> log_outcome (hd_event h) = csrf_fail"
proof -
  let ?r = "sample_request\<lparr>req_cookies := []\<rparr>"
  have "\<not> verifyCSRF ?r post" for post by (simp add: verifyCSRF_def cookie_def)
  then have "\<not> clean_post sample_lib sample_outside sample_server ?r post sub" for post sub
    by (simp add: clean_post_def)
  from submit_junk_uncharged [OF this]
  have "hd_wire (handleSubmit sample_lib sample_outside sample_server ?r) = []
      \<and> globalLimiter (hd_server (handleSubmit sample_lib sample_outside sample_server ?r))
          = globalLimiter sample_server" by blast
  moreover have "log_outcome (hd_event (handleSubmit sample_lib sample_outside sample_server ?r)) = csrf_fail"
    by code_simp
  ultimately show ?thesis by (simp add: Let_def)
qed

end
