(* ===== verification/ContactReplies.thy ===== *)
theory ContactReplies
  imports ContactServer
begin

text \<open>
  What the outside can see and steer of the contact service (\<open>services/contact/server.go\<close>): the
  status and page of each outcome, the decoy of the honeypot, the address a request is attributed
  to, the double-submit token, the headers of every response, readiness.
\<close>

section \<open>Outcomes\<close>

fun outcome_status :: "outcome \<Rightarrow> int" where
  "outcome_status sent = 303"
| "outcome_status honeypot = 303"
| "outcome_status rate_limited_ip = 429"
| "outcome_status rate_limited_global = 429"
| "outcome_status csrf_fail = 403"
| "outcome_status origin_mismatch = 403"
| "outcome_status invalid = 400"
| "outcome_status unreadable = 400"
| "outcome_status too_large = 413"
| "outcome_status mail_unconfigured = 503"
| "outcome_status send_failed = 502"

fun outcome_warns :: "outcome \<Rightarrow> level" where
  "outcome_warns sent = Info"
| "outcome_warns honeypot = Info"
| "outcome_warns send_failed = Error"
| "outcome_warns mail_unconfigured = Error"
| "outcome_warns _ = Warn"

lemma outcome_level_table: "outcome_level oc = outcome_warns oc"
  by (cases oc) simp_all

text \<open>A result that is as its outcome says, for the values the user typed.\<close>

definition reply_ok :: "(string \<times> string) list \<Rightarrow> handled \<Rightarrow> bool" where
  "reply_ok values h \<longleftrightarrow>
     (let oc = log_outcome (hd_event h); resp = hd_response h
      in rp_status resp = outcome_status oc \<and> log_level (hd_event h) = outcome_warns oc
       \<and> (if oc \<in> {sent, honeypot} then resp = redirect thanksPath 303
          else \<exists>v. rp_page resp = FormPage v \<and> fv_Values v = values))"

lemma reply_ok_form:
  "\<forall>p. renders out p \<Longrightarrow> oc \<notin> {sent, honeypot} \<Longrightarrow> st = outcome_status oc \<Longrightarrow>
     reply_ok values (finish oc ip ms g err (renderForm out st (newFormView c out r values errs m)) tr s)"
  by (simp add: reply_ok_def finish_def Let_def outcome_level_table renderForm_def renderHTML_def
      newFormView_def case_prod_unfold del: outcome_level.simps)

lemma reply_ok_redirect:
  "oc \<in> {sent, honeypot} \<Longrightarrow> reply_ok values (finish oc ip ms g err (redirect thanksPath 303) tr s)"
  by (auto simp: reply_ok_def finish_def Let_def outcome_level_table redirect_def
      simp del: outcome_level.simps)

lemma submit_send_reply:
  "\<forall>p. renders out p \<Longrightarrow> reply_ok values (submit_send L out s r ip values sub)"
  by (auto simp: submit_send_def Let_def split: prod.split option.split
      intro!: reply_ok_form reply_ok_redirect)

lemma submit_checked_reply:
  "\<forall>p. renders out p \<Longrightarrow>
     reply_ok (form_values (form_input post)) (submit_checked L out s r ip post)"
  by (auto simp: submit_checked_def Let_def split: prod.split
      intro!: reply_ok_form reply_ok_redirect submit_send_reply)

text \<open>The values shown again: none when the form could not be read.\<close>

definition typed :: "golib \<Rightarrow> request \<Rightarrow> (string \<times> string) list" where
  "typed L r = (case parseForm L r of Inl _ \<Rightarrow> [] | Inr post \<Rightarrow> form_values (form_input post))"

text \<open>C20. Every submission is answered as its outcome says: the status and the log level of the
  table; a redirect to the thanks page for a sent mail and, identical in every byte, for a filled
  honeypot; and otherwise the form again, with what the user typed still in it.\<close>

theorem submit_reply:
  assumes "\<forall>p. renders out p"
  shows "reply_ok (typed L r) (handleSubmit L out s r)"
  using assms
  by (auto simp: handleSubmit_def typed_def Let_def split: sum.split form_error.split prod.split
      intro!: reply_ok_form submit_checked_reply)

theorem submit_reply_witness:
  "rp_status (hd_response (handleSubmit sample_lib sample_outside sample_server
       (sample_request\<lparr>req_cookies := []\<rparr>))) = 403"
proof -
  let ?r = "sample_request\<lparr>req_cookies := []\<rparr>"
  have "\<forall>p. renders sample_outside p" by (simp add: sample_outside_def)
  from submit_reply [OF this, of sample_lib ?r sample_server]
  have "rp_status (hd_response (handleSubmit sample_lib sample_outside sample_server ?r)) =
      outcome_status (log_outcome (hd_event (handleSubmit sample_lib sample_outside sample_server ?r)))"
    by (simp add: reply_ok_def Let_def)
  moreover have "log_outcome (hd_event (handleSubmit sample_lib sample_outside sample_server ?r)) = csrf_fail"
    by code_simp
  ultimately show ?thesis by simp
qed

section \<open>Whom a request is attributed to\<close>

text \<open>C21. A client cannot choose the address it is limited and recorded under: behind \<open>k\<close> trusted
  proxies, whatever the client sends before the last \<open>k\<close> entries of the forwarding header changes
  nothing; the entry the outermost trusted proxy wrote counts if it is an IP address, else the
  peer's address does.\<close>

theorem clientIP_ignores_forged:
  assumes "TrustProxy c" and "TrustedProxyHops c = int (length (split_byte CHR '','' b))"
    and "header_get r ''X-Forwarded-For'' = a @ CHR '','' # b"
  shows "clientIP L c r =
     (let cand = trim_space (hd (split_byte CHR '','' b))
      in if parse_ip L cand then cand else remote_host r)"
proof -
  let ?A = "split_byte CHR '','' a" and ?B = "split_byte CHR '','' b"
  have p: "split_byte CHR '','' (a @ CHR '','' # b) = ?A @ ?B" by (rule split_byte_append)
  have "(?A @ ?B) ! length ?A = hd ?B" by (simp add: nth_append hd_conv_nth)
  then show ?thesis
    using assms by (simp add: clientIP_def Let_def p)
qed

theorem clientIP_ignores_forged_witness:
  "clientIP sample_lib (cfg sample_server) sample_request = ''10.1.2.3''"
proof -
  have c: "TrustProxy (cfg sample_server)" by code_simp
  have h: "TrustedProxyHops (cfg sample_server) = int (length (split_byte CHR '','' '' 10.1.2.3''))"
    by code_simp
  have x: "header_get sample_request ''X-Forwarded-For'' = ''6.6.6.6'' @ CHR '','' # '' 10.1.2.3''"
    by code_simp
  have "parse_ip sample_lib (trim_space (hd (split_byte CHR '','' '' 10.1.2.3'')))"
    "trim_space (hd (split_byte CHR '','' '' 10.1.2.3'')) = ''10.1.2.3''"
    by code_simp+
  with clientIP_ignores_forged [OF c h x, of sample_lib] show ?thesis by simp
qed

section \<open>The token\<close>

text \<open>C22. The double-submit token: for a browser holding the cookie of one form page, a post is
  accepted if and only if it carries the token of a page made from the same random bytes; a page
  made from other bytes, an empty or an absent token is refused.\<close>

theorem csrf_same_draw:
  assumes "random16 out = Some b" and "b \<noteq> []" and "random16 out' = Some b'" and "b' \<noteq> []"
    and "newFormView c out r values errs m = (v, cks)"
    and "newFormView c out' r' values' errs' m' = (v', cks')"
    and "cookie q csrfCookie = Some (ck_value (hd cks))"
  shows "(postFormValue post csrfField = fv_CSRFToken v' \<longrightarrow> (verifyCSRF q post \<longleftrightarrow> b = b'))
     \<and> (verifyCSRF q post \<longrightarrow> postFormValue post csrfField = fv_CSRFToken v)
     \<and> (\<forall>k \<in> set cks. ck_httpOnly k \<and> ck_sameSiteStrict k \<and> ck_secure k = CookieSecure c)"
proof -
  obtain t t' where t: "randomToken (Some b) = Some t" "randomToken (Some b') = Some t'"
    by (simp add: randomToken_def)
  have ne: "t \<noteq> []" "t' \<noteq> []"
    using randomToken_decodes [OF t(1)] randomToken_decodes [OF t(2)] assms(2,4) by auto
  have v: "fv_CSRFToken v = t" "fv_CSRFToken v' = t'" "ck_value (hd cks) = t"
    "\<forall>k \<in> set cks. ck_httpOnly k \<and> ck_sameSiteStrict k \<and> ck_secure k = CookieSecure c"
    using assms(1,3,5,6) t by (auto simp: newFormView_def issueCSRF_def)
  with ne randomToken_inj [OF t] assms(7) show ?thesis
    by (auto simp: verifyCSRF_def Let_def)
qed

theorem csrf_same_draw_witness:
  "\<not> verifyCSRF (sample_request\<lparr>req_cookies := [(''ccc_csrf'', ''1fa0'')]\<rparr>) [(''_csrf'', ''1fa1'')]
   \<and> verifyCSRF (sample_request\<lparr>req_cookies := [(''ccc_csrf'', ''1fa0'')]\<rparr>) [(''_csrf'', ''1fa0'')]"
proof -
  let ?o = "sample_outside" and ?o' = "sample_outside\<lparr>random16 := Some [0x1f, 0xa1]\<rparr>"
  let ?c = "cfg sample_server" and ?q = "sample_request\<lparr>req_cookies := [(''ccc_csrf'', ''1fa0'')]\<rparr>"
  have r: "random16 ?o = Some [0x1f, 0xa0]" "random16 ?o' = Some [0x1f, 0xa1]"
    by (simp_all add: sample_outside_def)
  let ?V = "newFormView ?c ?o sample_request [] [] []" and ?V' = "newFormView ?c ?o' sample_request [] [] []"
  have tok: "randomToken (Some [0x1f, 0xa0]) = Some ''1fa0''" "randomToken (Some [0x1f, 0xa1]) = Some ''1fa1''"
    by (simp_all add: randomToken_def hexdigits_def)
  then have V: "fv_CSRFToken (fst ?V) = ''1fa0''" "ck_value (hd (snd ?V)) = ''1fa0''"
    "fv_CSRFToken (fst ?V') = ''1fa1''"
    by (simp_all add: newFormView_def issueCSRF_def r)
  then have q: "cookie ?q csrfCookie = Some (ck_value (hd (snd ?V)))"
    by (simp add: cookie_def csrfCookie_def)
  have "postFormValue [(''_csrf'', ''1fa1'')] csrfField = fv_CSRFToken (fst ?V')"
    "postFormValue [(''_csrf'', ''1fa0'')] csrfField = fv_CSRFToken (fst ?V)"
    by (simp_all add: V postFormValue_def csrfField_def lookup_def_def)
  note post = this
  note both = prod.collapse [symmetric, of ?V] prod.collapse [symmetric, of ?V']
  have "[0x1f, 0xa0] \<noteq> ([] :: 8 word list)" "[0x1f, 0xa1] \<noteq> ([] :: 8 word list)"
    "[0x1f, 0xa0] \<noteq> ([0x1f, 0xa1] :: 8 word list)" by simp_all
  note draws = this
  have "\<not> verifyCSRF ?q [(''_csrf'', ''1fa1'')]"
    using csrf_same_draw [OF r(1) draws(1) r(2) draws(2) both q] post(1) draws(3) by blast
  moreover have "verifyCSRF ?q [(''_csrf'', ''1fa0'')]"
    using csrf_same_draw [OF r(1) draws(1) r(1) draws(1) both(1) both(1) q] post(2) by blast
  ultimately show ?thesis by blast
qed

section \<open>Every response\<close>

lemma map_of_fold_update_other:
  "k \<notin> fst ` set xs \<Longrightarrow> map_of (fold (\<lambda>(k, v). AList.update k v) xs m) k = map_of m k"
  by (induction xs arbitrary: m) (auto simp: update_conv')

definition own_headers :: "string set" where
  "own_headers = {''Content-Security-Policy'', ''Referrer-Policy'', ''X-Frame-Options''}"

definition tame :: "response \<Rightarrow> bool" where
  "tame resp \<longleftrightarrow> fst ` set (rp_header resp) \<inter> own_headers = {}
     \<and> (\<forall>v. (''X-Content-Type-Options'', v) \<in> set (rp_header resp) \<longrightarrow> v = ''nosniff'')"

lemma tame_http_error: "tame (http_error m c)"
  by (simp add: tame_def http_error_def own_headers_def)

lemma tame_renderHTML: "tame (renderHTML out st p cks)"
  using tame_http_error [of "''internal error''" 500]
  by (auto simp: renderHTML_def tame_def own_headers_def)

lemma tame_redirect: "tame (redirect p c)"
  by (simp add: tame_def redirect_def own_headers_def)

lemma tame_finish:
  "tame resp \<Longrightarrow> tame (hd_response (finish oc ip ms g err resp tr s))"
  by (simp add: finish_def)

lemma tame_renderForm: "tame (renderForm out st v)"
  by (simp add: renderForm_def tame_renderHTML)

lemmas tame_intros = tame_finish tame_renderForm tame_redirect

lemma tame_handleSubmit: "tame (hd_response (handleSubmit L out s r))"
proof -
  have send: "tame (hd_response (submit_send L out s r ip vs sub))" for s ip vs sub
    by (auto simp: submit_send_def Let_def split: prod.split option.split intro!: tame_intros)
  have checked: "tame (hd_response (submit_checked L out s r ip post))" for s ip post
    by (auto simp: submit_checked_def Let_def split: prod.split intro!: tame_intros send)
  show ?thesis
    by (auto simp: handleSubmit_def Let_def split: sum.split form_error.split prod.split
        intro!: tame_intros checked)
qed

lemma security_headers_kept:
  assumes "tame resp" and "(k, v) \<in> set security_headers"
  shows "map_of (rp_header (securityHeaders resp)) k = Some v"
proof -
  have keep: "map_of (fold (\<lambda>(k, v). AList.update k v) xs m) ''X-Content-Type-Options'' = Some ''nosniff''"
    if "\<forall>v. (''X-Content-Type-Options'', v) \<in> set xs \<longrightarrow> v = ''nosniff''"
      "map_of m ''X-Content-Type-Options'' = Some ''nosniff''" for xs m
    using that by (induction xs arbitrary: m) (auto simp: update_conv' split: prod.split)
  from assms show ?thesis
    using map_of_fold_update_other [of _ "rp_header resp" security_headers] keep [of "rp_header resp" security_headers]
    by (auto simp: securityHeaders_def tame_def own_headers_def security_headers_def)
qed

lemma tame_handlers:
  "tame handleHealthz" "tame (handleReadyz c)" "tame (handleForm c out r)"
  "tame (handleThanks c out r)" "tame handleRoot"
  by (simp_all add: handleHealthz_def handleReadyz_def handleForm_def handleThanks_def handleRoot_def
      renderSuccess_def tame_renderForm tame_renderHTML tame_redirect tame_http_error)
    (simp_all add: tame_def own_headers_def)

lemma mux_submit: "mux_match m p = Inr ESubmit \<Longrightarrow> m = ''POST'' \<and> p = ''/contact/submit''"
  by (auto simp: mux_match_def routes_table_def split: if_splits)

text \<open>C23. Whatever is asked, unknown paths and wrong methods included, the response carries the four
  security headers with their values; and only a \<open>POST\<close> to the submit path can make a call on the
  network or change the service's state.\<close>

theorem serve_hardened:
  "(\<forall>(k, v) \<in> set security_headers. map_of (rp_header (fst (serve L out s r))) k = Some v)
   \<and> ((req_method r, req_path r) \<noteq> (''POST'', ''/contact/submit'') \<longrightarrow>
        snd (serve L out s r) = ([], s))"
proof
  have "tame (fst (case mux_match (req_method r) (req_path r) of
      Inl code \<Rightarrow> (http_error (if code = 404 then ''404 page not found'' else ''Method Not Allowed'') code, [], s)
    | Inr EForm \<Rightarrow> (handleForm (cfg s) out r, [], s)
    | Inr ESubmit \<Rightarrow> (let h = handleSubmit L out s r in (hd_response h, hd_wire h, hd_server h))
    | Inr EHealthz \<Rightarrow> (handleHealthz, [], s)
    | Inr EReadyz \<Rightarrow> (handleReadyz (cfg s), [], s)
    | Inr EThanks \<Rightarrow> (handleThanks (cfg s) out r, [], s)
    | Inr ERoot \<Rightarrow> (handleRoot, [], s)))"
    by (auto simp: tame_handlers tame_http_error tame_handleSubmit Let_def split: sum.split endpoint.split)
  then show "\<forall>(k, v) \<in> set security_headers. map_of (rp_header (fst (serve L out s r))) k = Some v"
    using security_headers_kept by (auto simp: serve_def split: prod.split)
  show "(req_method r, req_path r) \<noteq> (''POST'', ''/contact/submit'') \<longrightarrow> snd (serve L out s r) = ([], s)"
    using mux_submit by (auto simp: serve_def split: sum.split endpoint.split)
qed

theorem serve_hardened_witness:
  "snd (serve sample_lib sample_outside sample_server (sample_request\<lparr>req_path := ''/admin''\<rparr>))
     = ([], sample_server)"
proof -
  have "(req_method (sample_request\<lparr>req_path := ''/admin''\<rparr>), req_path (sample_request\<lparr>req_path := ''/admin''\<rparr>))
      \<noteq> (''POST'', ''/contact/submit'')" by simp
  with serve_hardened [of sample_lib sample_outside sample_server "sample_request\<lparr>req_path := ''/admin''\<rparr>"]
  show ?thesis by blast
qed


text \<open>C24. A ready service can deliver: when the readiness probe answers 200, no submission fails for
  lack of mail configuration, and behind a proxy every token cookie is marked secure.\<close>

theorem readyz_sound:
  assumes "rp_status (handleReadyz (cfg s)) = 200"
  shows "log_outcome (hd_event (handleSubmit L out s r)) \<noteq> mail_unconfigured
     \<and> (TrustProxy (cfg s) \<longrightarrow> (\<forall>k \<in> set (snd (issueCSRF (cfg s) out)). ck_secure k))"
proof -
  from assms have c: "mailConfigured (cfg s)" "TrustProxy (cfg s) \<longrightarrow> CookieSecure (cfg s)"
    by (auto simp: handleReadyz_def http_error_def split: if_splits)
  have send: "log_outcome (hd_event (submit_send L out t r ip vs sub)) \<noteq> mail_unconfigured"
    for t ip vs sub
    by (auto simp: submit_send_def finish_def Let_def split: prod.split option.split)
  have "log_outcome (hd_event (submit_checked L out t r ip post)) \<noteq> mail_unconfigured"
    if "cfg t = cfg s" for t ip post
    using that c(1) send by (auto simp: submit_checked_def finish_def Let_def split: prod.split)
  then have "log_outcome (hd_event (handleSubmit L out s r)) \<noteq> mail_unconfigured"
    by (auto simp: handleSubmit_def finish_def Let_def split: sum.split form_error.split prod.split)
  with c(2) show ?thesis by (auto simp: issueCSRF_def split: option.splits)
qed

theorem readyz_sound_witness:
  "let s = sample_server\<lparr>cfg := (cfg sample_server)\<lparr>CookieSecure := True\<rparr>\<rparr>
   in \<forall>k \<in> set (snd (issueCSRF (cfg s) sample_outside)). ck_secure k"
proof -
  let ?s = "sample_server\<lparr>cfg := (cfg sample_server)\<lparr>CookieSecure := True\<rparr>\<rparr>"
  have r: "rp_status (handleReadyz (cfg ?s)) = 200" by code_simp
  have "TrustProxy (cfg ?s)" by code_simp
  with readyz_sound [OF r, of sample_lib sample_outside sample_request] show ?thesis
    by (simp add: Let_def)
qed

end
