(* ===== verification/ContactRuns.thy ===== *)
theory ContactRuns
  imports ContactGuards
begin

text \<open>
  The contact service over its whole life: from the environment it is started in (\<open>main\<close>,
  \<open>services/contact/main.go\<close>) through any sequence of submissions. The two caps of the
  configuration bound what leaves the service: mails per hour and issues per day.

  Both follow from one argument, a locale over a system whose effects are metered by a limiter,
  interpreted once for the aggregate limiter and the mails and once for the GitHub limiter and the
  issues. Requests are taken one after another; since each limiter is only touched by its own
  calls, under its own lock, an interleaving of handlers charges it in some such order too.
\<close>

section \<open>Metered systems\<close>

fun run_system :: "('e \<Rightarrow> 's \<Rightarrow> 'r \<times> 's) \<Rightarrow> 's \<Rightarrow> 'e list \<Rightarrow> 'r list \<times> 's" where
  "run_system step s [] = ([], s)"
| "run_system step s (e # es) =
     (let (r, s1) = step e s; (rs, s2) = run_system step s1 es in (r # rs, s2))"

text \<open>The instants of the steps with an effect.\<close>

definition effect_times :: "('e \<Rightarrow> time) \<Rightarrow> ('r \<Rightarrow> bool) \<Rightarrow> 'e list \<Rightarrow> 'r list \<Rightarrow> time list" where
  "effect_times at eff es rs = map (at \<circ> fst) (filter (eff \<circ> snd) (zip es rs))"

definition within :: "int \<Rightarrow> duration \<Rightarrow> time list \<Rightarrow> bool" where
  "within lim w ts \<longleftrightarrow> (\<forall>u. int (length (filter (\<lambda>t. u - w < t \<and> t \<le> u) ts)) \<le> lim)"

lemma within_subseq: "subseq ts us \<Longrightarrow> within lim w us \<Longrightarrow> within lim w ts"
  unfolding within_def
  by (meson list_emb_length of_nat_mono order_trans subseq_filter)

lemma sorted_subseq: "subseq xs ys \<Longrightarrow> sorted ys \<Longrightarrow> sorted xs"
  by (auto simp: subseq_conv_nths intro: sorted_nths)

lemma granted_subset: "set (granted cs bs) \<subseteq> set cs"
  by (induction cs bs rule: granted.induct) auto

locale metered =
  fixes step :: "'e \<Rightarrow> 's \<Rightarrow> 'r \<times> 's"
    and meter :: "'s \<Rightarrow> rate_limiter"
    and key :: string
    and ord :: "'e \<Rightarrow> map_order"
    and at :: "'e \<Rightarrow> time"
    and eff :: "'r \<Rightarrow> bool"
  assumes step_meter:
    "meter (snd (step e s)) = meter s \<and> \<not> eff (fst (step e s))
     \<or> meter (snd (step e s)) = snd (allow (ord e) (meter s) key (at e))
       \<and> (eff (fst (step e s)) \<longrightarrow> fst (allow (ord e) (meter s) key (at e)))"
begin

text \<open>A run charges the limiter with a sequence of calls at a subsequence of its instants, and every
  effect is at the instant of a granted call.\<close>

lemma run_charges:
  "\<exists>cs. meter (snd (run_system step s es)) = snd (run_calls allow (meter s) cs)
     \<and> subseq (map (\<lambda>c. snd (snd c)) cs) (map at es) \<and> (\<forall>c \<in> set cs. fst (snd c) = key)
     \<and> subseq (effect_times at eff es (fst (run_system step s es)))
         (map snd (granted (map snd cs) (fst (run_calls allow (meter s) cs))))"
proof (induction es arbitrary: s)
  case Nil
  show ?case by (intro exI [of _ "[]"]) (simp add: effect_times_def)
next
  case (Cons e es)
  obtain r s1 where st: "step e s = (r, s1)" by (cases "step e s")
  obtain rs s2 where rn: "run_system step s1 es = (rs, s2)" by (cases "run_system step s1 es")
  from Cons.IH [of s1] obtain cs where cs: "meter s2 = snd (run_calls allow (meter s1) cs)"
    "subseq (map (\<lambda>c. snd (snd c)) cs) (map at es)" "\<forall>c \<in> set cs. fst (snd c) = key"
    "subseq (effect_times at eff es rs)
       (map snd (granted (map snd cs) (fst (run_calls allow (meter s1) cs))))"
    unfolding rn fst_conv snd_conv by blast
  have run: "run_system step s (e # es) = (r # rs, s2)" by (simp add: st rn)
  have et: "effect_times at eff (e # es) (r # rs) = (if eff r then [at e] else []) @ effect_times at eff es rs"
    by (simp add: effect_times_def)
  from step_meter [of e s] st consider (idle) "meter s1 = meter s" "\<not> eff r"
    | (call) "meter s1 = snd (allow (ord e) (meter s) key (at e))"
        "eff r \<longrightarrow> fst (allow (ord e) (meter s) key (at e))" by auto
  then show ?case
  proof cases
    case idle
    with cs show ?thesis
      unfolding run et fst_conv snd_conv
      by (intro exI [of _ cs]) (auto simp: comp_def intro: list_emb_Cons)
  next
    case call
    with cs show ?thesis
      unfolding run et fst_conv snd_conv
      by (intro exI [of _ "(ord e, key, at e) # cs"]) auto
  qed
qed

lemma effects_within:
  assumes "meter s = newRateLimiter lim w" and "0 < w" and "w \<le> max_duration" and "0 \<le> lim"
    and "sorted (map at es)"
  shows "within lim w (effect_times at eff es (fst (run_system step s es)))"
proof -
  obtain cs where cs: "subseq (map (\<lambda>c. snd (snd c)) cs) (map at es)" "\<forall>c \<in> set cs. fst (snd c) = key"
    "subseq (effect_times at eff es (fst (run_system step s es)))
       (map snd (granted (map snd cs) (fst (run_calls allow (meter s) cs))))"
    using run_charges [of s es] by blast
  let ?g = "granted (map snd cs) (fst (run_calls allow (newRateLimiter lim w) cs))"
  let ?t = "if cs = [] then 0 else snd (snd (hd cs))"
  have "sorted (map (\<lambda>c. snd (snd c)) cs)"
    using cs(1) assms(5) by (rule sorted_subseq)
  then have "calls_from ?t {key} (map snd cs)"
    using cs(2) by (cases cs) (auto simp: calls_from_def comp_def)
  then have ok: "windows_ok lim w ?g"
    using rl.run_windows_ok [OF window_inv_new [where K = "{key}" and w = w and t = ?t and lim = lim] _ assms(4)] assms(2,3)
    by (simp add: maxTrackedKeys_def)
  have "\<forall>c \<in> set ?g. fst c = key"
    using cs(2) granted_subset by fastforce
  then have "times_of ?g key = map snd ?g" by (simp add: times_of_def)
  with ok have "within lim w (map snd ?g)"
    unfolding windows_ok_def within_def by metis
  with cs(3) show ?thesis by (simp add: assms(1) within_subseq)
qed

end

section \<open>Submissions one after another\<close>

type_synonym submission_event = "outside \<times> request"

definition submit_step :: "golib \<Rightarrow> submission_event \<Rightarrow> server \<Rightarrow> handled \<times> server" where
  "submit_step L e s = (let h = handleSubmit L (fst e) s (snd e) in (h, hd_server h))"

definition mail_offered :: "handled \<Rightarrow> bool" where
  "mail_offered h \<longleftrightarrow> all_recipients (hd_wire h) \<noteq> []"

text \<open>A call that files an issue: a request with a titled JSON object.\<close>

definition wire_issue :: "wire \<Rightarrow> bool" where
  "wire_issue w =
     (case w of Smtp _ \<Rightarrow> False
      | Http r \<Rightarrow> (case rq_body r of JsonBody j \<Rightarrow> obj_at ''title'' j \<noteq> JNull | _ \<Rightarrow> False))"

definition issue_filed :: "handled \<Rightarrow> bool" where
  "issue_filed h \<longleftrightarrow> list_ex wire_issue (hd_wire h)"

lemma post_json_no_issue:
  "obj_at ''title'' j = JNull \<Longrightarrow> \<not> list_ex wire_issue tr \<Longrightarrow>
     \<not> list_ex wire_issue (snd (post_json L n tr u b j what))"
  by (auto simp: post_json_def Let_def wire_issue_def split: option.split sum.split dest!: newRequest_Some)

lemma graph_token_no_issue: "\<not> list_ex wire_issue (snd (graph_token L g n []))"
  by (auto simp: graph_token_def Let_def wire_issue_def
      split: option.split sum.split prod.split dest!: newRequest_Some)

lemma run_steps_no_issue:
  "\<not> list_ex wire_issue tr \<Longrightarrow> \<not> list_ex wire_issue (snd (run_steps n tr steps))"
  by (induction n tr steps rule: run_steps.induct) (auto simp: wire_issue_def split: option.split)

lemma Send_no_issue: "\<not> list_ex wire_issue (snd (Send L mlr n m t))"
proof (cases mlr)
  case (SMTP s)
  then show ?thesis by (simp add: smtp_send_def run_steps_no_issue)
next
  case (Graph g)
  have "obj_at ''title'' (graph_payload m) = JNull"
    by (simp add: graph_payload_def obj_at_def lookup_def_def)
  with Graph graph_token_no_issue [of L g n] show ?thesis
    by (cases "graph_token L g n []") (auto simp: graph_send_def post_json_no_issue split: sum.split)
next
  case (Agent a)
  have "obj_at ''title'' (agent_payload m) = JNull"
    by (simp add: agent_payload_def obj_at_def lookup_def_def)
  with Agent show ?thesis by (simp add: agent_send_def Let_def post_json_no_issue)
qed

lemma passed_meters:
  assumes "clean_post L out s r post sub" and "breaker_closed out s"
  shows "globalLimiter (hd_server (handleSubmit L out s r)) =
      snd (allow (iter_order out) (globalLimiter s) ''global'' (now_global out))"
    and "ghLimiter (hd_server (handleSubmit L out s r)) = ghLimiter s
        \<and> \<not> issue_filed (handleSubmit L out s r)
      \<or> ghLimiter (hd_server (handleSubmit L out s r)) =
          snd (allow (iter_order out) (ghLimiter s) ''github'' (now_gh out))
        \<and> (issue_filed (handleSubmit L out s r) \<longrightarrow>
             fst (allow (iter_order out) (ghLimiter s) ''github'' (now_gh out)))"
proof -
  obtain err tr where m: "mail_of L out s r sub = (err, tr)" by (cases "mail_of L out s r sub")
  have tr: "\<not> list_ex wire_issue tr"
    using Send_no_issue m by (metis mail_of_def snd_conv)
  note shape = submit_send_shape [OF assms, unfolded m]
  show "globalLimiter (hd_server (handleSubmit L out s r)) =
      snd (allow (iter_order out) (globalLimiter s) ''global'' (now_global out))"
    using shape by (cases err) auto
  show "ghLimiter (hd_server (handleSubmit L out s r)) = ghLimiter s
        \<and> \<not> issue_filed (handleSubmit L out s r)
      \<or> ghLimiter (hd_server (handleSubmit L out s r)) =
          snd (allow (iter_order out) (ghLimiter s) ''github'' (now_gh out))
        \<and> (issue_filed (handleSubmit L out s r) \<longrightarrow>
             fst (allow (iter_order out) (ghLimiter s) ''github'' (now_gh out)))"
  proof (cases err)
    case (Some e)
    with shape tr show ?thesis by (simp add: issue_filed_def)
  next
    case None
    with shape obtain q where q: "hd_wire (handleSubmit L out s r) = tr @ q"
      "q \<noteq> [] \<longrightarrow> githubConfigured (cfg s)
        \<and> fst (allow (iter_order out) (ghLimiter s) ''github'' (now_gh out))"
      "ghLimiter (hd_server (handleSubmit L out s r)) =
         (if githubConfigured (cfg s)
          then snd (allow (iter_order out) (ghLimiter s) ''github'' (now_gh out)) else ghLimiter s)"
      by auto
    with tr show ?thesis by (cases "q = []") (auto simp: issue_filed_def)
  qed
qed

interpretation mails: metered "submit_step L" globalLimiter "''global''"
  "\<lambda>e. iter_order (fst e)" "\<lambda>e. now_global (fst e)" mail_offered for L
proof
  fix e s
  let ?h = "handleSubmit L (fst e) s (snd e)"
  show "globalLimiter (snd (submit_step L e s)) = globalLimiter s
        \<and> \<not> mail_offered (fst (submit_step L e s))
      \<or> globalLimiter (snd (submit_step L e s)) =
          snd (allow (iter_order (fst e)) (globalLimiter s) ''global'' (now_global (fst e)))
        \<and> (mail_offered (fst (submit_step L e s)) \<longrightarrow>
             fst (allow (iter_order (fst e)) (globalLimiter s) ''global'' (now_global (fst e))))"
  proof (cases rule: handleSubmit_cases [of L "fst e" s "snd e"])
    case (passed post sub)
    with passed_meters(1) [OF passed] show ?thesis by (simp add: submit_step_def Let_def breaker_closed_def)
  next
    case (tripped post sub)
    with handleSubmit_tripped [OF tripped] show ?thesis by (simp add: submit_step_def Let_def mail_offered_def)
  next
    case blocked
    with handleSubmit_blocked [OF blocked] show ?thesis by (simp add: submit_step_def Let_def mail_offered_def)
  qed
qed

interpretation issues: metered "submit_step L" ghLimiter "''github''"
  "\<lambda>e. iter_order (fst e)" "\<lambda>e. now_gh (fst e)" issue_filed for L
proof
  fix e s
  show "ghLimiter (snd (submit_step L e s)) = ghLimiter s \<and> \<not> issue_filed (fst (submit_step L e s))
      \<or> ghLimiter (snd (submit_step L e s)) =
          snd (allow (iter_order (fst e)) (ghLimiter s) ''github'' (now_gh (fst e)))
        \<and> (issue_filed (fst (submit_step L e s)) \<longrightarrow>
             fst (allow (iter_order (fst e)) (ghLimiter s) ''github'' (now_gh (fst e))))"
  proof (cases rule: handleSubmit_cases [of L "fst e" s "snd e"])
    case (passed post sub)
    with passed_meters(2) [OF passed] show ?thesis by (simp add: submit_step_def Let_def)
  next
    case (tripped post sub)
    with handleSubmit_tripped [OF tripped] show ?thesis by (simp add: submit_step_def Let_def issue_filed_def)
  next
    case blocked
    with handleSubmit_blocked [OF blocked] show ?thesis by (simp add: submit_step_def Let_def issue_filed_def)
  qed
qed

section \<open>The caps\<close>

lemma contact_main_starts:
  assumes "contact_main L g = Inr s"
  shows "cfg s = fst (Load L g) \<and> validate (cfg s) = None
     \<and> globalLimiter s = newRateLimiter (GlobalRateLimitPerHour (cfg s)) hour
     \<and> ghLimiter s = newRateLimiter (GitHubDailyCap (cfg s)) (24 * hour)"
  using assms snd_Load [of L g]
  by (auto simp: contact_main_def newServer_def split: prod.splits option.splits sum.splits)

text \<open>The service starts exactly on a valid environment: no environment that loads without an
  error makes it exit, whatever is left unconfigured, and every other one does, with exit code 1.\<close>

theorem contact_main_total:
  "case contact_main L g of
     Inr s \<Rightarrow> snd (Load L g) = None \<and> cfg s = fst (Load L g)
   | Inl code \<Rightarrow> snd (Load L g) \<noteq> None \<and> code = 1"
proof (cases "Load L g")
  case (Pair c e)
  then have v: "validate c = e" using snd_Load [of L g] by simp
  show ?thesis
  proof (cases e)
    case (Some x)
    with Pair show ?thesis by (simp add: contact_main_def)
  next
    case None
    with v have "Transport c \<in> {''smtp'', ''graph'', ''agentmail''}" by (simp add: validate_None_iff)
    then obtain m where "newMailer c = Inr m" by (auto simp: newMailer_def Let_def)
    with Pair None show ?thesis by (simp add: contact_main_def newServer_def)
  qed
qed

definition sample_gh_env :: getenv where
  "sample_gh_env k =
     (if k = ''CONTACT_INTAKE_GITHUB_TOKEN'' then ''t''
      else if k = ''CONTACT_GITHUB_REPO'' then ''o/r'' else sample_env k)"

definition sample_service :: server where
  "sample_service = projr (contact_main sample_lib sample_gh_env)"

lemma sample_service: "contact_main sample_lib sample_gh_env = Inr sample_service"
proof -
  have "\<not> isl (contact_main sample_lib sample_gh_env)" by code_simp
  then show ?thesis by (simp add: sample_service_def)
qed

definition sample_day :: "submission_event list" where
  "sample_day = [(sample_outside, sample_request),
     (sample_outside\<lparr>now_global := 6 * hour, now_gh := 6 * hour\<rparr>, sample_request)]"

text \<open>C27. The mailbox is protected: from any environment the service starts in, over any sequence of
  submissions from any clients, against any behaviour of clock readings in order and of the
  network, at most \<open>GlobalRateLimitPerHour\<close> mails are offered for delivery in any hour.\<close>

theorem mails_per_hour:
  assumes "contact_main L g = Inr s" and "sorted (map (\<lambda>e. now_global (fst e)) es)"
  shows "within (GlobalRateLimitPerHour (cfg s)) hour
     (effect_times (\<lambda>e. now_global (fst e)) mail_offered es (fst (run_system (submit_step L) s es)))"
proof -
  note st = contact_main_starts [OF assms(1)]
  then have "validate (cfg s) = None" by blast
  then have "0 \<le> GlobalRateLimitPerHour (cfg s)" by (simp add: validate_None_iff)
  with st assms(2) show ?thesis by (intro mails.effects_within) simp_all
qed

theorem mails_per_hour_witness:
  "within (GlobalRateLimitPerHour (cfg sample_service)) hour
     (effect_times (\<lambda>e. now_global (fst e)) mail_offered sample_day
        (fst (run_system (submit_step sample_lib) sample_service sample_day)))
   \<and> effect_times (\<lambda>e. now_global (fst e)) mail_offered sample_day
        (fst (run_system (submit_step sample_lib) sample_service sample_day)) = [5 * hour, 6 * hour]"
proof
  have "sorted (map (\<lambda>e. now_global (fst e)) sample_day)" by code_simp
  from mails_per_hour [OF sample_service this]
  show "within (GlobalRateLimitPerHour (cfg sample_service)) hour
     (effect_times (\<lambda>e. now_global (fst e)) mail_offered sample_day
        (fst (run_system (submit_step sample_lib) sample_service sample_day)))" .
  show "effect_times (\<lambda>e. now_global (fst e)) mail_offered sample_day
        (fst (run_system (submit_step sample_lib) sample_service sample_day)) = [5 * hour, 6 * hour]"
    by code_simp
qed

text \<open>C28. The tracker is protected: likewise at most \<open>GitHubDailyCap\<close> issues are filed in any 24
  hours.\<close>

theorem issues_per_day:
  assumes "contact_main L g = Inr s" and "sorted (map (\<lambda>e. now_gh (fst e)) es)"
  shows "within (GitHubDailyCap (cfg s)) (24 * hour)
     (effect_times (\<lambda>e. now_gh (fst e)) issue_filed es (fst (run_system (submit_step L) s es)))"
proof -
  note st = contact_main_starts [OF assms(1)]
  then have "validate (cfg s) = None" by blast
  then have "0 \<le> GitHubDailyCap (cfg s)" by (simp add: validate_None_iff)
  with st assms(2) show ?thesis by (intro issues.effects_within) simp_all
qed

theorem issues_per_day_witness:
  "within (GitHubDailyCap (cfg sample_service)) (24 * hour)
     (effect_times (\<lambda>e. now_gh (fst e)) issue_filed sample_day
        (fst (run_system (submit_step sample_lib) sample_service sample_day)))
   \<and> effect_times (\<lambda>e. now_gh (fst e)) issue_filed sample_day
        (fst (run_system (submit_step sample_lib) sample_service sample_day)) = [5 * hour, 6 * hour]"
proof
  have "sorted (map (\<lambda>e. now_gh (fst e)) sample_day)" by code_simp
  from issues_per_day [OF sample_service this]
  show "within (GitHubDailyCap (cfg sample_service)) (24 * hour)
     (effect_times (\<lambda>e. now_gh (fst e)) issue_filed sample_day
        (fst (run_system (submit_step sample_lib) sample_service sample_day)))" .
  show "effect_times (\<lambda>e. now_gh (fst e)) issue_filed sample_day
        (fst (run_system (submit_step sample_lib) sample_service sample_day)) = [5 * hour, 6 * hour]"
    by code_simp
qed

end
