(* ===== verification/GoFlags.thy ===== *)
theory GoFlags
  imports GoLib
begin

text \<open>
  The package \<open>flag\<close> of Go as the command line uses it (\<open>FlagSet.Parse\<close> with
  \<open>ContinueOnError\<close>), with \<open>strconv.ParseBool\<close> and \<open>strconv.ParseInt(s, 0, 64)\<close>: a flag set is the
  list of its declared names with their current values; parsing gives the values, the names that
  were set and the arguments that are left, or stops at the first error.
\<close>

section \<open>Numbers\<close>

definition char_lower_int :: "char \<Rightarrow> int" where
  "char_lower_int c = (let b = of_char c in if 65 \<le> b \<and> b \<le> 90 then b + 32 else b)"

text \<open>The value of a digit in bases up to 36.\<close>

definition wide_digit :: "char \<Rightarrow> int option" where
  "wide_digit c =
     (let b = char_lower_int c
      in if 48 \<le> b \<and> b \<le> 57 then Some (b - 48) else if 97 \<le> b \<and> b \<le> 122 then Some (b - 87) else None)"

text \<open>Digits until the first that is none in the base, or past 64 bits.\<close>

fun base_val :: "int \<Rightarrow> int \<Rightarrow> string \<Rightarrow> string + int" where
  "base_val base acc [] = Ok acc"
| "base_val base acc (c # s) =
     (if c = CHR ''_'' then base_val base acc s
      else case wide_digit c of
             None \<Rightarrow> Err ''parse error''
           | Some d \<Rightarrow>
               if d \<ge> base then Err ''parse error''
               else if acc * base + d > 18446744073709551615 then Err ''value out of range''
               else base_val base (acc * base + d) s)"

text \<open>\<open>underscoreOK\<close>: an underscore separates digits; the prefix of the base counts as one. The state
  is what the character before was: a digit, an underscore, or neither.\<close>

datatype before = Digit | Underscore | Neither

fun underscores_ok :: "bool \<Rightarrow> before \<Rightarrow> string \<Rightarrow> bool" where
  "underscores_ok hex p [] \<longleftrightarrow> p \<noteq> Underscore"
| "underscores_ok hex p (c # s) \<longleftrightarrow>
     (let b = char_lower_int c
      in if 48 \<le> b \<and> b \<le> 57 \<or> hex \<and> 97 \<le> b \<and> b \<le> 102 then underscores_ok hex Digit s
         else if c = CHR ''_'' then p = Digit \<and> underscores_ok hex Underscore s
         else p \<noteq> Underscore \<and> underscores_ok hex Neither s)"

text \<open>The base a number announces, and its digits; a lone prefix is no prefix.\<close>

definition base_prefix :: "string \<Rightarrow> int \<times> string" where
  "base_prefix s =
     (if s \<noteq> [] \<and> hd s = CHR ''0'' then
        (if length s \<ge> 3 \<and> char_lower_int (s ! 1) = of_char CHR ''b'' then (2, drop 2 s)
         else if length s \<ge> 3 \<and> char_lower_int (s ! 1) = of_char CHR ''o'' then (8, drop 2 s)
         else if length s \<ge> 3 \<and> char_lower_int (s ! 1) = of_char CHR ''x'' then (16, drop 2 s)
         else (8, drop 1 s))
      else (10, s))"

definition underscores_in :: "string \<Rightarrow> bool" where
  "underscores_in s =
     (if length s \<ge> 2 \<and> hd s = CHR ''0''
         \<and> char_lower_int (s ! 1) \<in> {of_char CHR ''b'', of_char CHR ''o'', of_char CHR ''x''}
      then underscores_ok (char_lower_int (s ! 1) = of_char CHR ''x'') Digit (drop 2 s)
      else underscores_ok False Neither s)"

definition parse_uint0 :: "string \<Rightarrow> string + int" where
  "parse_uint0 s =
     (if s = [] then Err ''parse error''
      else case base_prefix s of (base, ds) \<Rightarrow>
             (case base_val base 0 ds of
                Inl e \<Rightarrow> Err e
              | Inr n \<Rightarrow> if CHR ''_'' \<in> set ds \<and> \<not> underscores_in s then Err ''parse error'' else Ok n))"

text \<open>\<open>strconv.ParseInt(s, 0, 64)\<close>, its error as the package \<open>flag\<close> reports it.\<close>

definition parse_int0 :: "string \<Rightarrow> string + int" where
  "parse_int0 s =
     (let (neg, ds) = (case s of
                         [] \<Rightarrow> (False, [])
                       | c # r \<Rightarrow> if c = CHR ''-'' then (True, r) else if c = CHR ''+'' then (False, r)
                                 else (False, s))
      in case parse_uint0 ds of
           Inl e \<Rightarrow> Err e
         | Inr n \<Rightarrow> (let m = (if neg then - n else n)
                      in if in_int64 m then Ok m else Err ''value out of range''))"

definition parse_bool :: "string \<Rightarrow> bool option" where
  "parse_bool s =
     (if s \<in> {''1'', ''t'', ''T'', ''true'', ''TRUE'', ''True''} then Some True
      else if s \<in> {''0'', ''f'', ''F'', ''false'', ''FALSE'', ''False''} then Some False
      else None)"

section \<open>Flag sets\<close>

datatype fval = FBool bool | FStr string | FInt int | FDur duration

type_synonym flags = "(string \<times> fval) list"

fun same_kind :: "fval \<Rightarrow> fval \<Rightarrow> bool" where
  "same_kind (FBool _) (FBool _) = True"
| "same_kind (FStr _) (FStr _) = True"
| "same_kind (FInt _) (FInt _) = True"
| "same_kind (FDur _) (FDur _) = True"
| "same_kind _ _ = False"

text \<open>\<open>Value.Set\<close>: the new value or the text of the error.\<close>

fun set_value :: "golib \<Rightarrow> fval \<Rightarrow> string \<Rightarrow> string + fval" where
  "set_value L (FBool _) s = (case parse_bool s of None \<Rightarrow> Err ''parse error'' | Some b \<Rightarrow> Ok (FBool b))"
| "set_value L (FStr _) s = Ok (FStr s)"
| "set_value L (FInt _) s = (case parse_int0 s of Inl e \<Rightarrow> Err e | Inr n \<Rightarrow> Ok (FInt n))"
| "set_value L (FDur _) s =
     (case parse_duration L s of None \<Rightarrow> Err ''parse error'' | Some d \<Rightarrow> Ok (FDur d))"

datatype flag_error = HelpRequested | FlagError string

fun flag_error_text :: "flag_error \<Rightarrow> string" where
  "flag_error_text HelpRequested = ''flag: help requested''"
| "flag_error_text (FlagError t) = t"

text \<open>What an argument is: the end of the flags (kept), the terminator \<open>--\<close>, a malformed flag, or a
  flag's name with the value after an equals sign.\<close>

datatype arg = Positional | Terminator | Malformed | Flag string "string option"

definition split_flag :: "string \<Rightarrow> arg" where
  "split_flag name =
     (if name = [] \<or> hd name = CHR ''-'' \<or> hd name = CHR ''='' then Malformed
      else case cut_byte CHR ''='' name of (k, v, found) \<Rightarrow> Flag k (if found then Some v else None))"

definition classify :: "string \<Rightarrow> arg" where
  "classify s =
     (if length s < 2 \<or> hd s \<noteq> CHR ''-'' then Positional
      else if s ! 1 = CHR ''-'' then (if length s = 2 then Terminator else split_flag (drop 2 s))
      else split_flag (drop 1 s))"

text \<open>The result of parsing: the error if any, the values, the names set, the arguments left. A
  boolean flag that is given a malformed value is left false; the values of the others are not
  read after an error.\<close>

record parsed =
  pr_error :: "flag_error option"
  pr_flags :: flags
  pr_set :: "string list"
  pr_args :: "string list"

definition stop_at :: "flag_error \<Rightarrow> flags \<Rightarrow> string list \<Rightarrow> parsed" where
  "stop_at e fs seen = \<lparr>pr_error = Some e, pr_flags = fs, pr_set = seen, pr_args = []\<rparr>"

definition done_at :: "flags \<Rightarrow> string list \<Rightarrow> string list \<Rightarrow> parsed" where
  "done_at fs seen args = \<lparr>pr_error = None, pr_flags = fs, pr_set = seen, pr_args = args\<rparr>"

fun bad_value :: "golib \<Rightarrow> fval \<Rightarrow> string \<Rightarrow> string \<Rightarrow> string \<Rightarrow> flag_error" where
  "bad_value L (FBool _) v k e =
     FlagError (''invalid boolean value '' @ go_quote L v @ '' for -'' @ k @ '': '' @ e)"
| "bad_value L _ v k e =
     FlagError (''invalid value '' @ go_quote L v @ '' for flag -'' @ k @ '': '' @ e)"

fun after_error :: "fval \<Rightarrow> fval" where
  "after_error (FBool _) = FBool False"
| "after_error old = old"

text \<open>The value of a flag and the arguments after it: what follows the equals sign, \<open>true\<close> for a
  boolean flag without one, the next argument for any other flag.\<close>

definition take_value :: "fval \<Rightarrow> string option \<Rightarrow> string list \<Rightarrow> (string \<times> string list) option" where
  "take_value old v args =
     (case v of
        Some v \<Rightarrow> Some (v, args)
      | None \<Rightarrow> (case old of
                  FBool _ \<Rightarrow> Some (''true'', args)
                | _ \<Rightarrow> (case args of [] \<Rightarrow> None | v # args' \<Rightarrow> Some (v, args'))))"

lemma take_value_suffix: "take_value old v args = Some (x, args') \<Longrightarrow> suffix args' args"
  by (auto simp: take_value_def suffix_ConsI split: option.splits fval.splits list.splits)

function parse_flags :: "golib \<Rightarrow> flags \<Rightarrow> string list \<Rightarrow> string list \<Rightarrow> parsed" where
  "parse_flags L fs seen [] = done_at fs seen []"
| "parse_flags L fs seen (s # args) =
     (case classify s of
        Positional \<Rightarrow> done_at fs seen (s # args)
      | Terminator \<Rightarrow> done_at fs seen args
      | Malformed \<Rightarrow> stop_at (FlagError (''bad flag syntax: '' @ s)) fs seen
      | Flag k v \<Rightarrow>
          (case map_of fs k of
             None \<Rightarrow>
               stop_at (if k = ''help'' \<or> k = ''h'' then HelpRequested
                        else FlagError (''flag provided but not defined: -'' @ k)) fs seen
           | Some old \<Rightarrow>
               (case take_value old v args of
                  None \<Rightarrow> stop_at (FlagError (''flag needs an argument: -'' @ k)) fs seen
                | Some (val, args') \<Rightarrow>
                    (case set_value L old val of
                       Inl e \<Rightarrow> stop_at (bad_value L old val k e) (AList.update k (after_error old) fs) seen
                     | Inr x \<Rightarrow> parse_flags L (AList.update k x fs) (k # seen) args'))))"
  by pat_completeness auto
termination
  by (relation "measure (\<lambda>(L, fs, seen, args). length args)")
    (auto dest!: take_value_suffix suffix_length_le)

text \<open>Reading a flag's variable.\<close>

definition flag_bool :: "flags \<Rightarrow> string \<Rightarrow> bool" where
  "flag_bool fs k = (case map_of fs k of Some (FBool b) \<Rightarrow> b | _ \<Rightarrow> False)"

definition flag_str :: "flags \<Rightarrow> string \<Rightarrow> string" where
  "flag_str fs k = (case map_of fs k of Some (FStr s) \<Rightarrow> s | _ \<Rightarrow> [])"

definition flag_int :: "flags \<Rightarrow> string \<Rightarrow> int" where
  "flag_int fs k = (case map_of fs k of Some (FInt n) \<Rightarrow> n | _ \<Rightarrow> 0)"

definition flag_dur :: "flags \<Rightarrow> string \<Rightarrow> duration" where
  "flag_dur fs k = (case map_of fs k of Some (FDur d) \<Rightarrow> d | _ \<Rightarrow> 0)"

section \<open>Types are kept\<close>

text \<open>Parsing changes neither the declared names nor the kind of any value, sets declared names only,
  and leaves a suffix of the arguments.\<close>

definition keeps_types :: "flags \<Rightarrow> flags \<Rightarrow> bool" where
  "keeps_types fs fs' \<longleftrightarrow>
     map fst fs' = map fst fs \<and> (\<forall>k. rel_option same_kind (map_of fs k) (map_of fs' k))"

lemma same_kind_refl [simp]: "same_kind x x"
  by (cases x) simp_all

lemma same_kind_trans: "same_kind x y \<Longrightarrow> same_kind y z \<Longrightarrow> same_kind x z"
  by (cases x; cases y; cases z) simp_all

lemma keeps_types_refl [simp]: "keeps_types fs fs"
  by (simp add: keeps_types_def option.rel_refl)

lemma rel_kind_trans:
  "rel_option same_kind x y \<Longrightarrow> rel_option same_kind y z \<Longrightarrow> rel_option same_kind x z"
  by (cases x; cases y; cases z) (auto dest: same_kind_trans)

lemma keeps_types_trans: "keeps_types a b \<Longrightarrow> keeps_types b c \<Longrightarrow> keeps_types a c"
  unfolding keeps_types_def using rel_kind_trans by metis

lemma keeps_types_update:
  assumes "map_of fs k = Some x" and "same_kind x y"
  shows "keeps_types fs (AList.update k y fs)"
proof -
  have "k \<in> set (keys fs)" using assms(1) by (metis map_of_SomeD fst_conv image_eqI set_map)
  with assms show ?thesis
    by (simp add: keeps_types_def keys_update_in update_conv' option.rel_refl)
qed

lemma set_value_kind: "set_value L old s = Inr x \<Longrightarrow> same_kind old x"
  by (cases old) (auto split: option.splits sum.splits)

definition parsed_ok :: "flags \<Rightarrow> string list \<Rightarrow> string list \<Rightarrow> parsed \<Rightarrow> bool" where
  "parsed_ok fs seen args p \<longleftrightarrow>
     keeps_types fs (pr_flags p) \<and> set (pr_set p) \<subseteq> set seen \<union> set (keys fs)
     \<and> (pr_error p = None \<longrightarrow> suffix (pr_args p) args)"

lemma stop_at_ok: "keeps_types fs fs' \<Longrightarrow> parsed_ok fs seen args (stop_at e fs' seen)"
  by (auto simp: parsed_ok_def stop_at_def)

lemma done_at_ok: "suffix args' args \<Longrightarrow> parsed_ok fs seen args (done_at fs seen args')"
  by (auto simp: parsed_ok_def done_at_def)

lemma parsed_ok_step:
  assumes "parsed_ok (AList.update k y fs) (k # seen) args' p"
    and "map_of fs k = Some x" and "same_kind x y" and "suffix args' args"
  shows "parsed_ok fs seen args p"
proof -
  have "keeps_types fs (AList.update k y fs)" by (rule keeps_types_update [OF assms(2,3)])
  moreover have "k \<in> set (keys fs)" using assms(2) by (metis map_of_SomeD fst_conv image_eqI set_map)
  ultimately show ?thesis using assms(1,4)
    by (auto simp: parsed_ok_def keys_update_in dest: keeps_types_trans intro: suffix_order.trans)
qed

lemma parse_flags_ok: "parsed_ok fs seen args (parse_flags L fs seen args)"
proof (induction L fs seen args rule: parse_flags.induct)
  case (1 L fs seen)
  then show ?case by (simp add: done_at_ok)
next
  case (2 L fs seen s args)
  have tail: "suffix args (s # args)" by (simp add: suffix_ConsI)
  show ?case
  proof (cases "classify s")
    case (Flag k v)
    show ?thesis
    proof (cases "map_of fs k")
      case None
      with Flag show ?thesis by (simp add: stop_at_ok)
    next
      case (Some old)
      show ?thesis
      proof (cases "take_value old v args")
        case None
        with Flag Some show ?thesis by (simp add: stop_at_ok)
      next
        case (Some p)
        obtain val args' where p: "take_value old v args = Some (val, args')" using Some by (cases p) auto
        note old = \<open>map_of fs k = Some old\<close>
        show ?thesis
        proof (cases "set_value L old val")
          case (Inl e)
          have "keeps_types fs (AList.update k (after_error old) fs)"
            by (rule keeps_types_update [OF old]) (cases old; simp)
          with Flag old p Inl show ?thesis by (simp add: stop_at_ok)
        next
          case (Inr x)
          have "parsed_ok fs seen (s # args) (parse_flags L (AList.update k x fs) (k # seen) args')"
            using 2 [OF Flag old p refl Inr] old set_value_kind [OF Inr]
              suffix_order.trans [OF take_value_suffix [OF p] tail]
            by (rule parsed_ok_step)
          with Flag old p Inr show ?thesis by simp
        qed
      qed
    qed
  qed (simp_all add: stop_at_ok done_at_ok tail)
qed

end
