(* ===== verification/ContactMain.thy ===== *)
theory ContactMain
  imports ContactServer GoFlags
begin

text \<open>
  The process of the contact service, \<open>main\<close> of \<open>services/contact/main.go\<close>: the command line, and the
  life of the server as a transition system. The main goroutine is in \<open>ListenAndServe\<close>, has its error,
  waits for the channel \<open>idle\<close>, or has exited; the other one waits for a signal, is in \<open>Shutdown\<close>, or
  has closed the channel. Requests in flight are counted. What \<open>net/http\<close> does is as documented:
  \<open>Shutdown\<close> stops the listener, makes \<open>ListenAndServe\<close> return \<open>ErrServerClosed\<close> and returns when no
  request is in flight or its context has expired; an error of the listener is returned at any time.
  An exit of the process ends everything in it. \<open>Signal\<close> is the moment from which a received signal
  has made the server stop listening.
\<close>

section \<open>The command line\<close>

text \<open>The flag set of the package ends the process on an error: with 2, or with 0 when help was
  asked for.\<close>

definition contact_start :: "golib \<Rightarrow> getenv \<Rightarrow> (string \<Rightarrow> neterr + int) \<Rightarrow> string list \<Rightarrow> int + server" where
  "contact_start L g get args =
     (let p = parse_flags L [(''healthcheck'', FBool False)] [] args
      in case pr_error p of
           Some HelpRequested \<Rightarrow> Inl 0
         | Some e \<Rightarrow> Inl 2
         | None \<Rightarrow> if flag_bool (pr_flags p) ''healthcheck'' then Inl (runHealthcheck g get)
                   else contact_main L g)"

section \<open>The life of the process\<close>

datatype main_pc = InServe | ServeFailed | AwaitIdle | Exited int

datatype signal_pc = AwaitSignal | InShutdown | IdleClosed

record process =
  main_at :: main_pc
  signal_at :: signal_pc
  in_flight :: nat

datatype happening =
    Accept
  | Finish
  | ServeError
  | Signal
  | ServerClosed
  | Drained
  | Deadline
  | MainEnds
  | MainFails

definition started :: process where
  "started = \<lparr>main_at = InServe, signal_at = AwaitSignal, in_flight = 0\<rparr>"

definition alive :: "process \<Rightarrow> bool" where
  "alive p \<longleftrightarrow> (\<forall>code. main_at p \<noteq> Exited code)"

inductive step :: "process \<Rightarrow> happening \<Rightarrow> process \<Rightarrow> bool" where
  accept: "main_at p = InServe \<Longrightarrow> signal_at p = AwaitSignal \<Longrightarrow>
     step p Accept (p\<lparr>in_flight := Suc (in_flight p)\<rparr>)"
| finish: "alive p \<Longrightarrow> in_flight p = Suc k \<Longrightarrow> step p Finish (p\<lparr>in_flight := k\<rparr>)"
| serve_error: "main_at p = InServe \<Longrightarrow> step p ServeError (p\<lparr>main_at := ServeFailed\<rparr>)"
| main_fails: "main_at p = ServeFailed \<Longrightarrow> step p MainFails (p\<lparr>main_at := Exited 1\<rparr>)"
| signal: "alive p \<Longrightarrow> signal_at p = AwaitSignal \<Longrightarrow> step p Signal (p\<lparr>signal_at := InShutdown\<rparr>)"
| server_closed: "main_at p = InServe \<Longrightarrow> signal_at p \<noteq> AwaitSignal \<Longrightarrow>
     step p ServerClosed (p\<lparr>main_at := AwaitIdle\<rparr>)"
| drained: "alive p \<Longrightarrow> signal_at p = InShutdown \<Longrightarrow> in_flight p = 0 \<Longrightarrow>
     step p Drained (p\<lparr>signal_at := IdleClosed\<rparr>)"
| deadline: "alive p \<Longrightarrow> signal_at p = InShutdown \<Longrightarrow> step p Deadline (p\<lparr>signal_at := IdleClosed\<rparr>)"
| main_ends: "main_at p = AwaitIdle \<Longrightarrow> signal_at p = IdleClosed \<Longrightarrow>
     step p MainEnds (p\<lparr>main_at := Exited 0\<rparr>)"

inductive_cases step_elims: "step p h q"

inductive_simps step_Signal_iff: "step p Signal q"

inductive history :: "process \<Rightarrow> happening list \<Rightarrow> process \<Rightarrow> bool" where
  history_nil: "history p [] p"
| history_step: "history p hs q \<Longrightarrow> step q h r \<Longrightarrow> history p (hs @ [h]) r"

lemma history_trans: "history q hs' r \<Longrightarrow> history p hs q \<Longrightarrow> history p (hs @ hs') r"
proof (induction rule: history.induct)
  case (history_nil q)
  then show ?case by simp
next
  case (history_step q hs' r h r')
  then have "history p ((hs @ hs') @ [h]) r'" by (intro history.history_step) simp_all
  then show ?case by simp
qed

lemma history_one: "step p h q \<Longrightarrow> history p [h] q"
  using history.history_step [OF history.history_nil] by fastforce

section \<open>Graceful shutdown\<close>

text \<open>Along every history of the process.\<close>

definition orderly :: "happening list \<Rightarrow> process \<Rightarrow> bool" where
  "orderly hs p \<longleftrightarrow>
     count_list hs Accept = count_list hs Finish + in_flight p
     \<and> (signal_at p = AwaitSignal \<longleftrightarrow> Signal \<notin> set hs)
     \<and> (signal_at p = IdleClosed \<longrightarrow> in_flight p = 0 \<or> Deadline \<in> set hs)
     \<and> (case main_at p of
            InServe \<Rightarrow> ServeError \<notin> set hs
          | ServeFailed \<Rightarrow> ServeError \<in> set hs
          | AwaitIdle \<Rightarrow> ServeError \<notin> set hs \<and> signal_at p \<noteq> AwaitSignal
          | Exited code \<Rightarrow> code = 0 \<and> ServeError \<notin> set hs \<and> signal_at p = IdleClosed
                         \<or> code = 1 \<and> ServeError \<in> set hs)"

lemma orderly_step:
  assumes "step p h q" and "orderly hs p"
  shows "orderly (hs @ [h]) q"
  using assms by cases (auto simp: orderly_def alive_def split: main_pc.splits)

lemma history_orderly: "history p hs q \<Longrightarrow> p = started \<Longrightarrow> orderly hs q"
  by (induction rule: history.induct) (simp_all add: orderly_step, simp add: orderly_def started_def)

text \<open>C25. A shutdown loses nothing it need not lose: the process exits with 0 only after a signal and
  after \<open>Shutdown\<close> has returned, and then every request it accepted was served to its end, unless
  the ten seconds ran out; the only other exit is with 1, exactly when the listener failed.\<close>

theorem shutdown_graceful:
  assumes "history started hs p" and "main_at p = Exited code"
  shows "code = 0 \<and> ServeError \<notin> set hs \<and> Signal \<in> set hs
       \<and> (Deadline \<in> set hs \<or> in_flight p = 0 \<and> count_list hs Accept = count_list hs Finish)
     \<or> code = 1 \<and> ServeError \<in> set hs"
  using history_orderly [OF assms(1) refl] assms(2) by (auto simp: orderly_def)

theorem shutdown_graceful_witness:
  "\<exists>p. history started [Accept, Accept, Signal, Finish, ServerClosed, Finish, Drained, MainEnds] p
     \<and> main_at p = Exited 0 \<and> in_flight p = 0"
proof -
  have s: "step started Accept (started\<lparr>in_flight := 1\<rparr>)"
    "step (started\<lparr>in_flight := 1\<rparr>) Accept (started\<lparr>in_flight := 2\<rparr>)"
    "step (started\<lparr>in_flight := 2\<rparr>) Signal (started\<lparr>in_flight := 2, signal_at := InShutdown\<rparr>)"
    "step (started\<lparr>in_flight := 2, signal_at := InShutdown\<rparr>) Finish
       (started\<lparr>in_flight := 1, signal_at := InShutdown\<rparr>)"
    "step (started\<lparr>in_flight := 1, signal_at := InShutdown\<rparr>) ServerClosed
       (started\<lparr>in_flight := 1, signal_at := InShutdown, main_at := AwaitIdle\<rparr>)"
    "step (started\<lparr>in_flight := 1, signal_at := InShutdown, main_at := AwaitIdle\<rparr>) Finish
       (started\<lparr>in_flight := 0, signal_at := InShutdown, main_at := AwaitIdle\<rparr>)"
    "step (started\<lparr>in_flight := 0, signal_at := InShutdown, main_at := AwaitIdle\<rparr>) Drained
       (started\<lparr>in_flight := 0, signal_at := IdleClosed, main_at := AwaitIdle\<rparr>)"
    "step (started\<lparr>in_flight := 0, signal_at := IdleClosed, main_at := AwaitIdle\<rparr>) MainEnds
       (started\<lparr>in_flight := 0, signal_at := IdleClosed, main_at := Exited 0\<rparr>)"
    by (simp_all add: step.simps started_def alive_def numeral_2_eq_2)
  note steps = history_trans [OF history_one]
  have "history started [Accept, Accept, Signal, Finish, ServerClosed, Finish, Drained, MainEnds]
      (started\<lparr>in_flight := 0, signal_at := IdleClosed, main_at := Exited 0\<rparr>)" (is "history _ ?hs ?p")
    using steps [OF s(8) steps [OF s(7) steps [OF s(6) steps [OF s(5) steps [OF s(4) steps [OF s(3)
      steps [OF s(2) history_one [OF s(1)]]]]]]]] by simp
  moreover have "main_at ?p = Exited 0" by simp
  moreover from shutdown_graceful [OF calculation] have "in_flight ?p = 0" by simp
  ultimately show ?thesis by blast
qed

section \<open>Every shutdown ends\<close>

text \<open>After a signal nothing is accepted any more, and every step comes closer to the end: the size of a
  process is what is left to happen.\<close>

instantiation process_ext :: (type) size
begin

definition size_process_ext :: "'a process_scheme \<Rightarrow> nat" where
  "size_process_ext p =
     in_flight p + (case main_at p of InServe \<Rightarrow> 2 | ServeFailed \<Rightarrow> 1 | AwaitIdle \<Rightarrow> 1 | Exited _ \<Rightarrow> 0)
     + (if signal_at p = InShutdown then 1 else 0)"

instance ..

end

lemma step_after_signal:
  assumes "step p h q" and "signal_at p \<noteq> AwaitSignal"
  shows "signal_at q \<noteq> AwaitSignal" and "size q < size p"
  using assms by (cases, simp_all add: size_process_ext_def)+

lemma history_after_signal:
  assumes "history p hs q" and "signal_at p \<noteq> AwaitSignal"
  shows "signal_at q \<noteq> AwaitSignal \<and> length hs + size q \<le> size p"
  using assms
proof (induction rule: history.induct)
  case (history_step p hs q h r)
  with step_after_signal [OF history_step(2)] show ?case by fastforce
qed simp

text \<open>As long as the process is alive it has a step to take, and needs no failure for it.\<close>

lemma step_possible:
  assumes "alive p" and "signal_at p \<noteq> AwaitSignal"
  obtains h q where "step p h q" and "h \<noteq> ServeError"
proof (cases "signal_at p = InShutdown")
  case True
  then show thesis using assms(1) that step.deadline by blast
next
  case False
  with assms(2) have idle: "signal_at p = IdleClosed" by (cases "signal_at p") auto
  show thesis
  proof (cases "main_at p")
    case InServe
    with assms(2) show thesis using that step.server_closed by blast
  next
    case ServeFailed
    then show thesis using that step.main_fails by blast
  next
    case AwaitIdle
    with idle show thesis using that step.main_ends by blast
  qed (use assms(1) in \<open>auto simp: alive_def\<close>)
qed

lemma shutdown_continues:
  "signal_at p \<noteq> AwaitSignal \<Longrightarrow> \<exists>hs q. history p hs q \<and> \<not> alive q \<and> ServeError \<notin> set hs"
proof (induction "size p" arbitrary: p rule: less_induct)
  case less
  show ?case
  proof (cases "alive p")
    case False
    then show ?thesis using history.history_nil by fastforce
  next
    case True
    then obtain h q where s: "step p h q" "h \<noteq> ServeError" using less.prems by (rule step_possible)
    from less.hyps [OF step_after_signal(2) [OF s(1) less.prems] step_after_signal(1) [OF s(1) less.prems]]
    obtain hs r where "history q hs r" "\<not> alive r" "ServeError \<notin> set hs" by blast
    with s(2) history_trans [OF _ history_one [OF s(1)]] show ?thesis by (intro exI [of _ "h # hs"] exI [of _ r]) auto
  qed
qed

text \<open>C26. After a signal the process ends: whatever the order of events, no more than the requests in
  flight and three further steps can follow, and as long as it has not exited it can go on to exit:
  with 1 if the listener has failed, with 0 otherwise.\<close>

theorem shutdown_terminates:
  assumes "history started hs p" and "Signal \<in> set hs" and "history p hs' q"
  shows "length hs' \<le> in_flight p + 3
    \<and> (\<exists>hs'' r. history q hs'' r \<and> main_at r = Exited (if ServeError \<in> set (hs @ hs') then 1 else 0))"
proof
  have sig: "signal_at p \<noteq> AwaitSignal"
    using history_orderly [OF assms(1) refl] assms(2) by (simp add: orderly_def)
  note after = history_after_signal [OF assms(3) sig]
  have "size p \<le> in_flight p + 3" by (simp add: size_process_ext_def split: main_pc.split)
  with after show "length hs' \<le> in_flight p + 3" by simp
  from shutdown_continues after
  obtain hs'' r where r: "history q hs'' r" "\<not> alive r" "ServeError \<notin> set hs''" by blast
  then obtain code where code: "main_at r = Exited code" by (auto simp: alive_def)
  have "history started ((hs @ hs') @ hs'') r"
    by (rule history_trans [OF r(1) history_trans [OF assms(3,1)]])
  from history_orderly [OF this refl] code r(3)
  have "code = (if ServeError \<in> set (hs @ hs') then 1 else 0)" by (auto simp: orderly_def)
  with r(1) code show "\<exists>hs'' r. history q hs'' r
      \<and> main_at r = Exited (if ServeError \<in> set (hs @ hs') then 1 else 0)" by blast
qed

theorem shutdown_terminates_witness:
  "\<exists>hs r. history (started\<lparr>signal_at := InShutdown\<rparr>) hs r \<and> main_at r = Exited 0"
proof -
  have "step started Signal (started\<lparr>signal_at := InShutdown\<rparr>)"
    by (simp add: step_Signal_iff started_def alive_def)
  from shutdown_terminates [OF history_one [OF this] _ history.history_nil] show ?thesis by simp
qed

end
