(* ===== verification/WikiConfig.thy ===== *)
theory WikiConfig
  imports GoNet
begin

text \<open>
  The configuration of the wiki client, \<open>services/wiki-client/config.go\<close>. A malformed value is an
  error, not a silent default; errors are their texts, so that it can be said what they reveal.
\<close>

record wiki_config =
  wc_BaseURL :: string
  wc_Token :: string
  wc_HTTPTimeout :: duration
  wc_MaxRetries :: int
  wc_RetryBaseDelay :: duration

definition wiki_env :: "getenv \<Rightarrow> string \<Rightarrow> string \<Rightarrow> string" where
  "wiki_env g k d = (let v = g k in if v \<noteq> [] then v else d)"

definition wiki_envInt ::
  "golib \<Rightarrow> getenv \<Rightarrow> string \<Rightarrow> int \<Rightarrow> string list \<Rightarrow> int \<times> string list" where
  "wiki_envInt L g k d errs =
     (let v = g k
      in if v = [] then (d, errs)
         else case atoi v of
                None \<Rightarrow> (d, errs @ [k @ ''='' @ go_quote L v @ '' is not an integer''])
              | Some n \<Rightarrow> (n, errs))"

definition wiki_envDuration ::
  "golib \<Rightarrow> getenv \<Rightarrow> string \<Rightarrow> duration \<Rightarrow> string list \<Rightarrow> duration \<times> string list" where
  "wiki_envDuration L g k d errs =
     (let v = g k
      in if v = [] then (d, errs)
         else case parse_duration L v of
                None \<Rightarrow> (d, errs @ [k @ ''='' @ go_quote L v @ '' is not a duration (e.g. 15s, 200ms)''])
              | Some n \<Rightarrow> (n, errs))"

definition wiki_validate :: "golib \<Rightarrow> wiki_config \<Rightarrow> string option" where
  "wiki_validate L c =
     (if wc_BaseURL c = [] then Some ''WIKI_BASE_URL is required''
      else if \<not> prefix ''http://'' (wc_BaseURL c) \<and> \<not> prefix ''https://'' (wc_BaseURL c)
      then Some (''WIKI_BASE_URL must start with http:// or https://, got '' @ go_quote L (wc_BaseURL c))
      else if wc_Token c = [] then Some ''WIKI_API_TOKEN is required''
      else case cut_byte CHR '':'' (wc_Token c) of (tid, secret, ok) \<Rightarrow>
        if \<not> ok \<or> tid = [] \<or> secret = []
        then Some ''WIKI_API_TOKEN must be in the form <token_id>:<secret>''
        else if wc_MaxRetries c < 0
        then Some (''WIKI_MAX_RETRIES must be >= 0, got '' @ itoa (wc_MaxRetries c))
        else None)"

definition wiki_Load :: "golib \<Rightarrow> getenv \<Rightarrow> wiki_config \<times> string option" where
  "wiki_Load L g =
     (let (timeout, errs) = wiki_envDuration L g ''WIKI_HTTP_TIMEOUT'' (15 * second) [];
          (retries, errs) = wiki_envInt L g ''WIKI_MAX_RETRIES'' 3 errs;
          (delay, errs) = wiki_envDuration L g ''WIKI_RETRY_BASE_DELAY'' (200 * millisecond) errs;
          c = \<lparr>wc_BaseURL = trim_right_byte CHR ''/'' (wiki_env g ''WIKI_BASE_URL'' []),
               wc_Token = g ''WIKI_API_TOKEN'', wc_HTTPTimeout = timeout, wc_MaxRetries = retries,
               wc_RetryBaseDelay = delay\<rparr>
      in if errs \<noteq> [] then (c, Some (''invalid WIKI_* configuration: '' @ join ''; '' errs))
         else (c, wiki_validate L c))"

section \<open>Validity\<close>

definition token_form :: "string \<Rightarrow> bool" where
  "token_form t \<longleftrightarrow> (\<exists>tid secret. t = tid @ CHR '':'' # secret \<and> CHR '':'' \<notin> set tid \<and> tid \<noteq> [] \<and> secret \<noteq> [])"

lemma token_form_cut:
  "token_form t \<longleftrightarrow> (case cut_byte CHR '':'' t of (tid, secret, ok) \<Rightarrow> ok \<and> tid \<noteq> [] \<and> secret \<noteq> [])"
proof
  assume "token_form t"
  then show "case cut_byte CHR '':'' t of (tid, secret, ok) \<Rightarrow> ok \<and> tid \<noteq> [] \<and> secret \<noteq> []"
    by (auto simp: token_form_def cut_byte_found)
next
  assume "case cut_byte CHR '':'' t of (tid, secret, ok) \<Rightarrow> ok \<and> tid \<noteq> [] \<and> secret \<noteq> []"
  then show "token_form t"
    by (cases "cut_byte CHR '':'' t") (auto simp: token_form_def dest: cut_byte_True)
qed

lemma wiki_validate_None:
  "wiki_validate L c = None \<longleftrightarrow>
     wc_BaseURL c \<noteq> [] \<and> (prefix ''http://'' (wc_BaseURL c) \<or> prefix ''https://'' (wc_BaseURL c))
     \<and> token_form (wc_Token c) \<and> 0 \<le> wc_MaxRetries c"
  by (cases "cut_byte CHR '':'' (wc_Token c)")
    (auto simp: wiki_validate_def token_form_cut not_less)

text \<open>What the loaders of single values do.\<close>

definition malformed_int :: "getenv \<Rightarrow> string \<Rightarrow> bool" where
  "malformed_int g k \<longleftrightarrow> g k \<noteq> [] \<and> atoi (g k) = None"

definition malformed_duration :: "golib \<Rightarrow> getenv \<Rightarrow> string \<Rightarrow> bool" where
  "malformed_duration L g k \<longleftrightarrow> g k \<noteq> [] \<and> parse_duration L (g k) = None"

lemma envInt_errs: "(snd (wiki_envInt L g k d errs) = []) \<longleftrightarrow> errs = [] \<and> \<not> malformed_int g k"
  by (auto simp: wiki_envInt_def malformed_int_def Let_def split: option.split)

lemma envDuration_errs:
  "(snd (wiki_envDuration L g k d errs) = []) \<longleftrightarrow> errs = [] \<and> \<not> malformed_duration L g k"
  by (auto simp: wiki_envDuration_def malformed_duration_def Let_def split: option.split)

lemma wiki_Load_cases:
  obtains (bad) c errs where "errs \<noteq> []"
      "\<And>t. wiki_Load L (g(''WIKI_API_TOKEN'' := t)) =
         (c\<lparr>wc_Token := t\<rparr>, Some (''invalid WIKI_* configuration: '' @ join ''; '' errs))"
  | (good) c where "\<not> malformed_int g ''WIKI_MAX_RETRIES''"
      "\<not> malformed_duration L g ''WIKI_HTTP_TIMEOUT''"
      "\<not> malformed_duration L g ''WIKI_RETRY_BASE_DELAY''"
      "wc_BaseURL c = [] \<or> last (wc_BaseURL c) \<noteq> CHR ''/''"
      "\<And>t. wiki_Load L (g(''WIKI_API_TOKEN'' := t)) =
         (c\<lparr>wc_Token := t\<rparr>, wiki_validate L (c\<lparr>wc_Token := t\<rparr>))"
proof -
  let ?T = "wiki_envDuration L g ''WIKI_HTTP_TIMEOUT'' (15 * second) []"
  let ?R = "wiki_envInt L g ''WIKI_MAX_RETRIES'' 3 (snd ?T)"
  let ?D = "wiki_envDuration L g ''WIKI_RETRY_BASE_DELAY'' (200 * millisecond) (snd ?R)"
  let ?c = "\<lparr>wc_BaseURL = trim_right_byte CHR ''/'' (wiki_env g ''WIKI_BASE_URL'' []),
     wc_Token = [], wc_HTTPTimeout = fst ?T, wc_MaxRetries = fst ?R, wc_RetryBaseDelay = fst ?D\<rparr>"
  have same: "wiki_envInt L (g(''WIKI_API_TOKEN'' := t)) ''WIKI_MAX_RETRIES'' d errs
      = wiki_envInt L g ''WIKI_MAX_RETRIES'' d errs"
    "wiki_envDuration L (g(''WIKI_API_TOKEN'' := t)) ''WIKI_HTTP_TIMEOUT'' d errs
      = wiki_envDuration L g ''WIKI_HTTP_TIMEOUT'' d errs"
    "wiki_envDuration L (g(''WIKI_API_TOKEN'' := t)) ''WIKI_RETRY_BASE_DELAY'' d errs
      = wiki_envDuration L g ''WIKI_RETRY_BASE_DELAY'' d errs"
    "wiki_env (g(''WIKI_API_TOKEN'' := t)) ''WIKI_BASE_URL'' u = wiki_env g ''WIKI_BASE_URL'' u"
    for t d errs u
    by (simp_all add: wiki_envInt_def wiki_envDuration_def wiki_env_def)
  have load: "wiki_Load L (g(''WIKI_API_TOKEN'' := t)) =
      (if snd ?D \<noteq> []
       then (?c\<lparr>wc_Token := t\<rparr>, Some (''invalid WIKI_* configuration: '' @ join ''; '' (snd ?D)))
       else (?c\<lparr>wc_Token := t\<rparr>, wiki_validate L (?c\<lparr>wc_Token := t\<rparr>)))" for t
    by (simp add: wiki_Load_def same Let_def case_prod_unfold)
  show thesis
  proof (cases "snd ?D = []")
    case True
    then have "\<not> malformed_int g ''WIKI_MAX_RETRIES''" "\<not> malformed_duration L g ''WIKI_HTTP_TIMEOUT''"
      "\<not> malformed_duration L g ''WIKI_RETRY_BASE_DELAY''"
      by (simp_all add: envInt_errs envDuration_errs)
    moreover have "wc_BaseURL ?c = [] \<or> last (wc_BaseURL ?c) \<noteq> CHR ''/''"
      by (rule trim_right_byte_last) simp
    ultimately show thesis using good [of ?c] load True by simp
  next
    case False
    with bad [of "snd ?D" ?c] load show thesis by simp
  qed
qed

lemma wiki_validate_texts:
  "\<exists>e1 e2 e3. \<forall>t. wiki_validate L (c\<lparr>wc_Token := t\<rparr>) \<in> {None, Some e1, Some e2, Some e3}"
proof (cases "wc_BaseURL c = [] \<or> (\<not> prefix ''http://'' (wc_BaseURL c) \<and> \<not> prefix ''https://'' (wc_BaseURL c))")
  case True
  then have "wiki_validate L (c\<lparr>wc_Token := t\<rparr>) = wiki_validate L c" for t
    by (auto simp: wiki_validate_def)
  then show ?thesis
    by (cases "wiki_validate L c") (auto intro: exI)
next
  case False
  then show ?thesis
    by (intro exI [of _ "''WIKI_API_TOKEN is required''"]
        exI [of _ "''WIKI_API_TOKEN must be in the form <token_id>:<secret>''"]
        exI [of _ "''WIKI_MAX_RETRIES must be >= 0, got '' @ itoa (wc_MaxRetries c)"])
      (simp add: wiki_validate_def split: prod.split)
qed

text \<open>C29. Loading fails loudly and says nothing about the secret: it succeeds only when no present
  value is malformed, the URL is http or https without a trailing slash, the token has a non-empty
  identifier and secret and the retry budget is not negative; and whatever the token is, the error
  is one of three texts fixed by the rest of the environment.\<close>

theorem wiki_Load_loud_and_silent:
  "(snd (wiki_Load L g) = None \<longrightarrow>
      \<not> malformed_int g ''WIKI_MAX_RETRIES'' \<and> \<not> malformed_duration L g ''WIKI_HTTP_TIMEOUT''
      \<and> \<not> malformed_duration L g ''WIKI_RETRY_BASE_DELAY''
      \<and> (let u = wc_BaseURL (fst (wiki_Load L g))
         in (prefix ''http://'' u \<or> prefix ''https://'' u) \<and> last u \<noteq> CHR ''/'')
      \<and> token_form (g ''WIKI_API_TOKEN'') \<and> 0 \<le> wc_MaxRetries (fst (wiki_Load L g)))
   \<and> (\<exists>e1 e2 e3. \<forall>t. snd (wiki_Load L (g(''WIKI_API_TOKEN'' := t))) \<in> {None, Some e1, Some e2, Some e3})"
proof (cases rule: wiki_Load_cases [of L g])
  case (bad c errs)
  from bad(2) [of "g ''WIKI_API_TOKEN''"] bad(2) show ?thesis by simp
next
  case (good c)
  let ?t = "g ''WIKI_API_TOKEN''"
  have l: "wiki_Load L g = (c\<lparr>wc_Token := ?t\<rparr>, wiki_validate L (c\<lparr>wc_Token := ?t\<rparr>))"
    using good(5) [of ?t] by simp
  show ?thesis
  proof
    show "snd (wiki_Load L g) = None \<longrightarrow>
      \<not> malformed_int g ''WIKI_MAX_RETRIES'' \<and> \<not> malformed_duration L g ''WIKI_HTTP_TIMEOUT''
      \<and> \<not> malformed_duration L g ''WIKI_RETRY_BASE_DELAY''
      \<and> (let u = wc_BaseURL (fst (wiki_Load L g))
         in (prefix ''http://'' u \<or> prefix ''https://'' u) \<and> last u \<noteq> CHR ''/'')
      \<and> token_form ?t \<and> 0 \<le> wc_MaxRetries (fst (wiki_Load L g))"
      using good(1-4) by (auto simp: l wiki_validate_None)
    show "\<exists>e1 e2 e3. \<forall>t. snd (wiki_Load L (g(''WIKI_API_TOKEN'' := t)))
        \<in> {None, Some e1, Some e2, Some e3}"
      unfolding good(5) snd_conv by (rule wiki_validate_texts)
  qed
qed

definition sample_wiki_env :: getenv where
  "sample_wiki_env k =
     (if k = ''WIKI_BASE_URL'' then ''https://wiki/''
      else if k = ''WIKI_API_TOKEN'' then ''id:secret''
      else if k = ''WIKI_MAX_RETRIES'' then ''2'' else [])"

theorem wiki_Load_loud_and_silent_witness:
  "wc_MaxRetries (fst (wiki_Load sample_lib sample_wiki_env)) = 2
   \<and> token_form (sample_wiki_env ''WIKI_API_TOKEN'')
   \<and> last (wc_BaseURL (fst (wiki_Load sample_lib sample_wiki_env))) \<noteq> CHR ''/''"
proof -
  have "snd (wiki_Load sample_lib sample_wiki_env) = None" by code_simp
  moreover have "wc_MaxRetries (fst (wiki_Load sample_lib sample_wiki_env)) = 2" by code_simp
  ultimately show ?thesis
    using wiki_Load_loud_and_silent [of sample_lib sample_wiki_env] by (simp add: Let_def)
qed

end
