(* ===== verification/WikiClient.thy ===== *)
theory WikiClient
  imports WikiConfig
begin

text \<open>
  The wiki client's request path, \<open>services/wiki-client/client.go\<close> and \<open>errors.go\<close>: construction, the
  retry loop with its backoff and jitter, the mapping of answers to errors, JSON and multipart
  requests.

  An operation gives its error, if any, its result, and the trace of what it did: requests sent,
  delays slept, retries logged. What the outside answers (the wiki, the end of a context while
  sleeping, the random source) is decided by a \<open>wnet\<close> from the trace so far.
\<close>

section \<open>Client and world\<close>

record client =
  cl_baseURL :: string
  cl_token :: string
  cl_maxRetries :: int
  cl_baseDelay :: duration
  cl_logs :: bool

definition New :: "golib \<Rightarrow> wiki_config \<Rightarrow> bool \<Rightarrow> string + client" where
  "New L c logs =
     (case wiki_validate L c of
        Some e \<Rightarrow> Err e
      | None \<Rightarrow> Ok \<lparr>cl_baseURL = trim_right_byte CHR ''/'' (wc_BaseURL c), cl_token = wc_Token c,
                    cl_maxRetries = wc_MaxRetries c,
                    cl_baseDelay = (if wc_RetryBaseDelay c \<le> 0 then 200 * millisecond
                                    else wc_RetryBaseDelay c),
                    cl_logs = logs\<rparr>)"

datatype ev =
    Req http_req
  | Sleep duration
  | RetryLog string string int int bool

text \<open>\<open>wait\<close>: the context's error when it ends before the timer; \<open>rand_below n\<close>: a number below \<open>n\<close>
  from the system's random source, unless that fails; \<open>boundary\<close>: of a multipart body;
  \<open>map_order\<close>: the order in which a \<open>range\<close> over a Go map meets its entries.\<close>

record wnet =
  wiki_do :: "ev list \<Rightarrow> http_req \<Rightarrow> http_reply"
  wait :: "ev list \<Rightarrow> duration \<Rightarrow> neterr option"
  rand_below :: "ev list \<Rightarrow> int \<Rightarrow> int option"
  boundary :: "ev list \<Rightarrow> string"
  map_order :: "ev list \<Rightarrow> (string \<times> string) list \<Rightarrow> (string \<times> string) list"

section \<open>Errors\<close>

record api_error =
  ae_StatusCode :: int
  ae_Code :: int
  ae_Message :: string
  ae_Method :: string
  ae_Path :: string

definition Retryable :: "api_error \<Rightarrow> bool" where
  "Retryable e \<longleftrightarrow> ae_StatusCode e \<ge> 500"

definition api_error_text :: "api_error \<Rightarrow> string" where
  "api_error_text e =
     ''bookstack '' @ ae_Method e @ '' '' @ ae_Path e @ '': '' @ itoa (ae_StatusCode e)
     @ '' (code '' @ itoa (ae_Code e) @ ''): '' @ ae_Message e"

datatype client_error =
    ContextDone neterr
  | BuildFailed string string neterr
  | TransportFailed string string neterr
  | DecodeFailed string string
  | MarshalFailed string string
  | UploadUnreadable string neterr
  | API api_error

fun client_error_text :: "golib \<Rightarrow> client_error \<Rightarrow> string" where
  "client_error_text L (ContextDone e) = e"
| "client_error_text L (BuildFailed m p e) = ''wikiclient: build request '' @ m @ '' '' @ p @ '': '' @ e"
| "client_error_text L (TransportFailed m p e) = ''wikiclient: '' @ m @ '' '' @ p @ '': '' @ e"
| "client_error_text L (DecodeFailed m p) =
     ''wikiclient: decode '' @ m @ '' '' @ p @ '' response: invalid JSON''"
| "client_error_text L (MarshalFailed m p) = ''wikiclient: marshal '' @ m @ '' '' @ p @ '': unsupported value''"
| "client_error_text L (UploadUnreadable f e) =
     ''wikiclient: read upload '' @ go_quote L f @ '': '' @ e"
| "client_error_text L (API e) = api_error_text e"

text \<open>The envelope \<open>{"error": {"code": .., "message": ..}}\<close>, if it decodes and has a message.\<close>

definition error_envelope :: "golib \<Rightarrow> json \<Rightarrow> (int \<times> string) option" where
  "error_envelope L j =
     (let es = field_values L ''error'' j;
          codes = concat (map (field_values L ''code'') es);
          msgs = concat (map (field_values L ''message'') es);
          ok = is_record j \<and> list_all is_record es
               \<and> length (ints_in codes) = length codes \<and> length (strings_in msgs) = length msgs;
          msg = last_or [] (strings_in msgs)
      in if ok \<and> msg \<noteq> [] then Some (last_or 0 (ints_in codes), msg) else None)"

definition apiErrorFrom :: "golib \<Rightarrow> int \<Rightarrow> string \<Rightarrow> string \<Rightarrow> string \<Rightarrow> api_error" where
  "apiErrorFrom L status body meth path =
     (let e = \<lparr>ae_StatusCode = status, ae_Code = 0, ae_Message = [], ae_Method = meth, ae_Path = path\<rparr>
      in case (case json_parse L body of None \<Rightarrow> None | Some j \<Rightarrow> error_envelope L j) of
           Some (code, msg) \<Rightarrow> e\<lparr>ae_Code := code, ae_Message := msg\<rparr>
         | None \<Rightarrow> e\<lparr>ae_Message := (if status_text L status = [] then ''request failed''
                                    else status_text L status)\<rparr>)"

section \<open>Backoff\<close>

definition maxDelay :: duration where "maxDelay = 5 * second"

text \<open>The value of a 64-bit signed integer.\<close>

definition wrap64 :: "int \<Rightarrow> int" where
  "wrap64 x = (x + 2 ^ 63) mod 2 ^ 64 - 2 ^ 63"

definition backoff_delay :: "duration \<Rightarrow> nat \<Rightarrow> duration" where
  "backoff_delay base attempt =
     (let d = wrap64 (base * 2 ^ (attempt - 1)) in if d > maxDelay \<or> d \<le> 0 then maxDelay else d)"

definition jitter :: "wnet \<Rightarrow> ev list \<Rightarrow> duration \<Rightarrow> duration" where
  "jitter n tr d =
     (if d \<le> 0 then 0
      else let half = d div 2
           in case rand_below n tr (half + 1) of None \<Rightarrow> d | Some r \<Rightarrow> half + r)"

definition backoff :: "client \<Rightarrow> wnet \<Rightarrow> nat \<Rightarrow> ev list \<Rightarrow> neterr option \<times> ev list" where
  "backoff c n attempt tr =
     (let d = jitter n tr (backoff_delay (cl_baseDelay c) attempt)
      in (wait n tr d, tr @ [Sleep d]))"

section \<open>The request path\<close>

definition maxRespBody :: int where "maxRespBody = push_bit 20 8"

definition logRetry :: "client \<Rightarrow> string \<Rightarrow> string \<Rightarrow> nat \<Rightarrow> int \<Rightarrow> bool \<Rightarrow> ev list \<Rightarrow> ev list" where
  "logRetry c meth path attempt status transport tr =
     (if cl_logs c \<and> int attempt < cl_maxRetries c
      then tr @ [RetryLog meth path (int attempt) status transport] else tr)"

definition authorize :: "client \<Rightarrow> http_req \<Rightarrow> http_req" where
  "authorize c req =
     setHeader ''Accept'' ''application/json'' (setHeader ''Authorization'' (''Token '' @ cl_token c) req)"

text \<open>How \<open>out\<close> is decoded: the value and whether there was no error; an empty body leaves the zero
  value.\<close>

definition decode_reply ::
  "golib \<Rightarrow> string \<Rightarrow> string \<Rightarrow> (json \<Rightarrow> 'a \<times> bool) \<Rightarrow> 'a \<Rightarrow> string \<Rightarrow> client_error option \<times> 'a" where
  "decode_reply L meth path dec zero body =
     (if body = [] then (None, zero)
      else case json_parse L body of
             None \<Rightarrow> (Some (DecodeFailed meth path), zero)
           | Some j \<Rightarrow> (case dec j of (v, ok) \<Rightarrow> (if ok then None else Some (DecodeFailed meth path), v)))"

text \<open>The loop of \<open>doRaw\<close>: the attempts left, the number of this one, the last error. The request is
  built anew for each attempt, from buffered bytes, so it is the same each time.\<close>

fun doRaw_loop ::
  "golib \<Rightarrow> client \<Rightarrow> wnet \<Rightarrow> string \<Rightarrow> string \<Rightarrow> (neterr + http_req) \<Rightarrow> (json \<Rightarrow> 'a \<times> bool) \<Rightarrow> 'a
     \<Rightarrow> nat \<Rightarrow> nat \<Rightarrow> client_error option \<Rightarrow> ev list \<Rightarrow> (client_error option \<times> 'a) \<times> ev list" where
  "doRaw_loop L c n meth path build dec zero 0 attempt lastErr tr = ((lastErr, zero), tr)"
| "doRaw_loop L c n meth path build dec zero (Suc k) attempt lastErr tr =
     (case (if attempt > 0 then backoff c n attempt tr else (None, tr)) of
        (Some e, tr) \<Rightarrow> ((Some (ContextDone e), zero), tr)
      | (None, tr) \<Rightarrow>
        (case build of
           Inl e \<Rightarrow> ((Some (BuildFailed meth path e), zero), tr)
         | Inr req \<Rightarrow>
           (let req = authorize c req; tr' = tr @ [Req req]
            in case wiki_do n tr req of
                 Inl e \<Rightarrow>
                   doRaw_loop L c n meth path build dec zero k (attempt + 1)
                     (Some (TransportFailed meth path e)) (logRetry c meth path attempt 0 True tr')
               | Inr resp \<Rightarrow>
                 (let body = limit_read maxRespBody (rs_body resp); status = rs_code resp
                  in if status \<ge> 500
                     then doRaw_loop L c n meth path build dec zero k (attempt + 1)
                            (Some (API (apiErrorFrom L status body meth path)))
                            (logRetry c meth path attempt status False tr')
                     else if \<not> status_2xx resp
                     then ((Some (API (apiErrorFrom L status body meth path)), zero), tr')
                     else (decode_reply L meth path dec zero body, tr')))))"

declare doRaw_loop.simps(2) [simp del]

definition doRaw ::
  "golib \<Rightarrow> client \<Rightarrow> wnet \<Rightarrow> string \<Rightarrow> string \<Rightarrow> (neterr + http_req) \<Rightarrow> (json \<Rightarrow> 'a \<times> bool) \<Rightarrow> 'a
     \<Rightarrow> ev list \<Rightarrow> (client_error option \<times> 'a) \<times> ev list" where
  "doRaw L c n meth path build dec zero tr =
     doRaw_loop L c n meth path build dec zero (nat (cl_maxRetries c + 1)) 0 None tr"

definition url_error :: neterr where "url_error = ''invalid URL''"

text \<open>The JSON path: a value to send, or none.\<close>

definition json_request :: "golib \<Rightarrow> client \<Rightarrow> string \<Rightarrow> string \<Rightarrow> json option \<Rightarrow> neterr + http_req" where
  "json_request L c meth path inp =
     (case newRequest L meth (cl_baseURL c @ path)
             (case inp of None \<Rightarrow> NoBody | Some j \<Rightarrow> JsonBody j) of
        None \<Rightarrow> Err url_error
      | Some req \<Rightarrow>
          Ok (case inp of None \<Rightarrow> req | Some _ \<Rightarrow> setHeader ''Content-Type'' ''application/json'' req))"

text \<open>The value to send is marshalled once, before the first attempt; \<open>Some None\<close> stands for one that
  \<open>json.Marshal\<close> refuses.\<close>

definition do_json ::
  "golib \<Rightarrow> client \<Rightarrow> wnet \<Rightarrow> string \<Rightarrow> string \<Rightarrow> json option option \<Rightarrow> (json \<Rightarrow> 'a \<times> bool) \<Rightarrow> 'a
     \<Rightarrow> ev list \<Rightarrow> (client_error option \<times> 'a) \<times> ev list" where
  "do_json L c n meth path inp dec zero tr =
     (case inp of
        Some None \<Rightarrow> ((Some (MarshalFailed meth path), zero), tr)
      | Some (Some j) \<Rightarrow> doRaw L c n meth path (json_request L c meth path (Some j)) dec zero tr
      | None \<Rightarrow> doRaw L c n meth path (json_request L c meth path None) dec zero tr)"

text \<open>The multipart path: the body, with its boundary, is rendered once; reading the file may fail.\<close>

definition upload_request ::
  "golib \<Rightarrow> client \<Rightarrow> string \<Rightarrow> string \<Rightarrow> string \<Rightarrow> (string \<times> string) list \<Rightarrow> string \<Rightarrow> string \<Rightarrow> string
     \<Rightarrow> neterr + http_req" where
  "upload_request L c meth path bnd flds fileField fileName content =
     (case newRequest L meth (cl_baseURL c @ path) (Multipart flds fileField fileName content) of
        None \<Rightarrow> Err url_error
      | Some req \<Rightarrow> Ok (setHeader ''Content-Type'' (''multipart/form-data; boundary='' @ bnd) req))"

definition doUpload ::
  "golib \<Rightarrow> client \<Rightarrow> wnet \<Rightarrow> string \<Rightarrow> string \<Rightarrow> (string \<times> string) list \<Rightarrow> string \<Rightarrow> string
     \<Rightarrow> (neterr + string) \<Rightarrow> (json \<Rightarrow> 'a \<times> bool) \<Rightarrow> 'a \<Rightarrow> ev list
     \<Rightarrow> (client_error option \<times> 'a) \<times> ev list" where
  "doUpload L c n meth path flds fileField fileName r dec zero tr =
     (case r of
        Inl e \<Rightarrow> ((Some (UploadUnreadable fileName e), zero), tr)
      | Inr content \<Rightarrow>
          doRaw L c n meth path
            (upload_request L c meth path (boundary n tr) (map_order n tr flds) fileField fileName content) dec zero tr)"

end
