(* ===== verification/WikiRetry.thy ===== *)
theory WikiRetry
  imports WikiClient
begin

text \<open>
  The retry policy of the wiki client (\<open>doRaw\<close>, \<open>backoff\<close>, \<open>jitter\<close> of
  \<open>services/wiki-client/client.go\<close>): how often, after which answers and how long it tries again,
  and where the token can show.
\<close>

section \<open>Requests and delays of a trace\<close>

fun reqs :: "ev list \<Rightarrow> http_req list" where
  "reqs [] = []"
| "reqs (Req r # tr) = r # reqs tr"
| "reqs (_ # tr) = reqs tr"

fun sleeps :: "ev list \<Rightarrow> duration list" where
  "sleeps [] = []"
| "sleeps (Sleep d # tr) = d # sleeps tr"
| "sleeps (_ # tr) = sleeps tr"

lemma reqs_append [simp]: "reqs (a @ b) = reqs a @ reqs b"
  by (induction a rule: reqs.induct) simp_all

lemma sleeps_append [simp]: "sleeps (a @ b) = sleeps a @ sleeps b"
  by (induction a rule: sleeps.induct) simp_all

definition log_events :: "client \<Rightarrow> string \<Rightarrow> string \<Rightarrow> nat \<Rightarrow> int \<Rightarrow> bool \<Rightarrow> ev list" where
  "log_events c meth path attempt status transport =
     (if cl_logs c \<and> int attempt < cl_maxRetries c
      then [RetryLog meth path (int attempt) status transport] else [])"

lemma logRetry_append:
  "logRetry c meth path attempt status t tr = tr @ log_events c meth path attempt status t"
  by (simp add: logRetry_def log_events_def)

lemma log_events_silent [simp]:
  "reqs (log_events c meth path attempt status t) = []"
  "sleeps (log_events c meth path attempt status t) = []"
  by (simp_all add: log_events_def)

definition retryable_at :: "wnet \<Rightarrow> ev list \<Rightarrow> http_req \<Rightarrow> bool" where
  "retryable_at n tr r =
     (case wiki_do n tr r of Inl _ \<Rightarrow> True | Inr resp \<Rightarrow> rs_code resp \<ge> 500)"

text \<open>One attempt, after its delay: the three ways it goes on.\<close>

definition attempt_delay :: "client \<Rightarrow> wnet \<Rightarrow> nat \<Rightarrow> ev list \<Rightarrow> ev list" where
  "attempt_delay c n attempt tr =
     (if attempt > 0 then [Sleep (jitter n tr (backoff_delay (cl_baseDelay c) attempt))] else [])"

lemma delay_silent [simp]: "reqs (attempt_delay c n attempt tr) = []"
  by (simp add: attempt_delay_def)

text \<open>An attempt whose delay is not cut short.\<close>

lemma doRaw_uncancelled:
  fixes c n attempt tr req defines "d \<equiv> attempt_delay c n attempt tr" and "r \<equiv> authorize c req"
  assumes "attempt > 0 \<Longrightarrow> wait n tr (jitter n tr (backoff_delay (cl_baseDelay c) attempt)) = None"
  shows "doRaw_loop L c n meth path (Inr req) dec zero (Suc k) attempt lastErr tr =
    (case wiki_do n (tr @ d) r of
        Inl e \<Rightarrow> doRaw_loop L c n meth path (Inr req) dec zero k (attempt + 1)
            (Some (TransportFailed meth path e))
            (tr @ d @ Req r # log_events c meth path attempt 0 True)
      | Inr resp \<Rightarrow>
          if rs_code resp \<ge> 500
          then doRaw_loop L c n meth path (Inr req) dec zero k (attempt + 1)
            (Some (API (apiErrorFrom L (rs_code resp) (limit_read maxRespBody (rs_body resp)) meth path)))
            (tr @ d @ Req r # log_events c meth path attempt (rs_code resp) False)
          else if \<not> status_2xx resp
          then ((Some (API (apiErrorFrom L (rs_code resp) (limit_read maxRespBody (rs_body resp)) meth path)),
                 zero), tr @ d @ [Req r])
          else (decode_reply L meth path dec zero (limit_read maxRespBody (rs_body resp)),
                tr @ d @ [Req r]))"
proof -
  have start: "(if attempt > 0 then backoff c n attempt tr else (None, tr)) = (None, tr @ d)"
    using assms(3) by (auto simp: d_def backoff_def attempt_delay_def Let_def)
  show ?thesis
    unfolding doRaw_loop.simps(2) start
    by (cases "wiki_do n (tr @ d) r") (simp_all add: r_def Let_def logRetry_append)
qed

lemma doRaw_step:
  obtains (cancelled) e d where
    "doRaw_loop L c n meth path (Inr req) dec zero (Suc k) attempt lastErr tr =
       ((Some (ContextDone e), zero), tr @ [Sleep d])"
    "attempt_delay c n attempt tr = [Sleep d]"
  | (again) err l where
    "doRaw_loop L c n meth path (Inr req) dec zero (Suc k) attempt lastErr tr =
       doRaw_loop L c n meth path (Inr req) dec zero k (attempt + 1) (Some err)
         (tr @ attempt_delay c n attempt tr @ Req (authorize c req) # l)"
    "retryable_at n (tr @ attempt_delay c n attempt tr) (authorize c req)"
    "reqs l = []" "sleeps l = []" "\<And>e. err \<noteq> ContextDone e"
  | (final) err v where
    "doRaw_loop L c n meth path (Inr req) dec zero (Suc k) attempt lastErr tr =
       ((err, v), tr @ attempt_delay c n attempt tr @ [Req (authorize c req)])"
    "\<not> retryable_at n (tr @ attempt_delay c n attempt tr) (authorize c req)"
    "err = None \<Longrightarrow> \<exists>resp. wiki_do n (tr @ attempt_delay c n attempt tr) (authorize c req) = Inr resp
        \<and> status_2xx resp"
proof -
  let ?d = "attempt_delay c n attempt tr" and ?r = "authorize c req"
  let ?L = "doRaw_loop L c n meth path (Inr req) dec zero (Suc k) attempt lastErr tr"
  show thesis
  proof (cases "attempt > 0 \<and> wait n tr (jitter n tr (backoff_delay (cl_baseDelay c) attempt)) \<noteq> None")
    case True
    then obtain e where e: "attempt > 0"
      "wait n tr (jitter n tr (backoff_delay (cl_baseDelay c) attempt)) = Some e" by auto
    then show thesis
      by (intro cancelled [of e "jitter n tr (backoff_delay (cl_baseDelay c) attempt)"])
        (simp_all add: doRaw_loop.simps(2) backoff_def attempt_delay_def Let_def)
  next
    case False
    then have L: "?L = (case wiki_do n (tr @ ?d) ?r of
        Inl e \<Rightarrow> doRaw_loop L c n meth path (Inr req) dec zero k (attempt + 1)
            (Some (TransportFailed meth path e))
            (tr @ ?d @ Req ?r # log_events c meth path attempt 0 True)
      | Inr resp \<Rightarrow>
          if rs_code resp \<ge> 500
          then doRaw_loop L c n meth path (Inr req) dec zero k (attempt + 1)
            (Some (API (apiErrorFrom L (rs_code resp) (limit_read maxRespBody (rs_body resp)) meth path)))
            (tr @ ?d @ Req ?r # log_events c meth path attempt (rs_code resp) False)
          else if \<not> status_2xx resp
          then ((Some (API (apiErrorFrom L (rs_code resp) (limit_read maxRespBody (rs_body resp)) meth path)),
                 zero), tr @ ?d @ [Req ?r])
          else (decode_reply L meth path dec zero (limit_read maxRespBody (rs_body resp)),
                tr @ ?d @ [Req ?r]))"
      by (intro doRaw_uncancelled) simp
    show thesis
    proof (cases "wiki_do n (tr @ ?d) ?r")
      case (Inl e)
      then show thesis
        by (intro again [of "TransportFailed meth path e" "log_events c meth path attempt 0 True"])
          (simp_all add: L retryable_at_def)
    next
      case (Inr resp)
      let ?e = "API (apiErrorFrom L (rs_code resp) (limit_read maxRespBody (rs_body resp)) meth path)"
      consider "rs_code resp \<ge> 500" | "\<not> rs_code resp \<ge> 500" "\<not> status_2xx resp"
        | "\<not> rs_code resp \<ge> 500" "status_2xx resp" by blast
      then show thesis
      proof cases
        case 1
        with Inr show thesis
          by (intro again [of ?e "log_events c meth path attempt (rs_code resp) False"])
            (simp_all add: L retryable_at_def)
      next
        case 2
        with Inr show thesis
          by (intro final [of "Some ?e" zero]) (simp_all add: L retryable_at_def)
      next
        case 3
        with Inr show thesis
          by (intro final [of "fst (decode_reply L meth path dec zero (limit_read maxRespBody (rs_body resp)))"
                "snd (decode_reply L meth path dec zero (limit_read maxRespBody (rs_body resp)))"])
            (simp_all add: L retryable_at_def)
      qed
    qed
  qed
qed

section \<open>The policy\<close>

definition policy_ok ::
  "wnet \<Rightarrow> http_req \<Rightarrow> nat \<Rightarrow> ev list \<Rightarrow> ev list \<Rightarrow> client_error option \<Rightarrow> bool" where
  "policy_ok n r budget tr0 p err \<longleftrightarrow>
     (\<exists>k \<le> budget. reqs p = replicate k r)
     \<and> (\<forall>a b q. p = a @ Req q # b \<longrightarrow> reqs b \<noteq> [] \<longrightarrow> retryable_at n (tr0 @ a) q)
     \<and> ((\<forall>e. err \<noteq> Some (ContextDone e)) \<longrightarrow>
          length (reqs p) = budget \<or> (\<exists>a. p = a @ [Req r] \<and> \<not> retryable_at n (tr0 @ a) r))
     \<and> (err = None \<longrightarrow>
          (\<exists>a resp. p = a @ [Req r] \<and> wiki_do n (tr0 @ a) r = Inr resp \<and> status_2xx resp))"

lemma policy_again:
  assumes p: "policy_ok n r budget (tr0 @ d @ Req r # l) p err"
    and "retryable_at n (tr0 @ d) r" and "reqs d = []" and "reqs l = []"
  shows "policy_ok n r (Suc budget) tr0 (d @ Req r # l @ p) err"
  unfolding policy_ok_def
proof (intro conjI allI impI)
  show "\<exists>k \<le> Suc budget. reqs (d @ Req r # l @ p) = replicate k r"
    using p assms(3,4) by (auto simp: policy_ok_def)
  fix a b q
  assume split: "d @ Req r # l @ p = a @ Req q # b" and "reqs b \<noteq> []"
  have "\<not> (\<exists>u v. d = u @ Req q # v)" "\<not> (\<exists>u v. l = u @ Req q # v)"
    using assms(3,4) by auto
  moreover have "(\<exists>u v. d = u @ Req q # v) \<or> (a = d \<and> q = r \<and> b = l @ p)
      \<or> (\<exists>u v. l = u @ Req q # v) \<or> (\<exists>u. a = d @ Req r # l @ u \<and> p = u @ Req q # b)"
    using split
    by (auto simp: append_eq_append_conv2 append_eq_Cons_conv Cons_eq_append_conv)
  ultimately consider "a = d" "q = r" | u where "a = d @ Req r # l @ u" "p = u @ Req q # b" by blast
  then show "retryable_at n (tr0 @ a) q"
  proof cases
    case 1
    with assms(2) show ?thesis by simp
  next
    case 2
    with p \<open>reqs b \<noteq> []\<close> show ?thesis by (auto simp: policy_ok_def)
  qed
next
  assume "\<forall>e. err \<noteq> Some (ContextDone e)"
  with p have "length (reqs p) = budget
      \<or> (\<exists>a. p = a @ [Req r] \<and> \<not> retryable_at n ((tr0 @ d @ Req r # l) @ a) r)"
    by (auto simp: policy_ok_def)
  then show "length (reqs (d @ Req r # l @ p)) = Suc budget
      \<or> (\<exists>a. d @ Req r # l @ p = a @ [Req r] \<and> \<not> retryable_at n (tr0 @ a) r)"
  proof
    assume "length (reqs p) = budget"
    with assms(3,4) show ?thesis by simp
  next
    assume "\<exists>a. p = a @ [Req r] \<and> \<not> retryable_at n ((tr0 @ d @ Req r # l) @ a) r"
    then obtain a where "p = a @ [Req r]" "\<not> retryable_at n ((tr0 @ d @ Req r # l) @ a) r" by blast
    then show ?thesis by (intro disjI2 exI [of _ "d @ Req r # l @ a"]) simp
  qed
next
  assume "err = None"
  with p obtain a resp where "p = a @ [Req r]" "wiki_do n ((tr0 @ d @ Req r # l) @ a) r = Inr resp"
    "status_2xx resp" by (auto simp: policy_ok_def)
  then show "\<exists>a resp. d @ Req r # l @ p = a @ [Req r] \<and> wiki_do n (tr0 @ a) r = Inr resp \<and> status_2xx resp"
    by (intro exI [of _ "d @ Req r # l @ a"] exI [of _ resp]) simp
qed

lemma reqs_Nil_split: "reqs d = [] \<Longrightarrow> d \<noteq> a @ Req q # b"
  by auto

lemma doRaw_loop_policy:
  "(k = 0 \<Longrightarrow> lastErr \<noteq> None) \<Longrightarrow>
     \<exists>p. snd (doRaw_loop L c n meth path (Inr req) dec zero k attempt lastErr tr) = tr @ p
       \<and> policy_ok n (authorize c req) k tr p
           (fst (fst (doRaw_loop L c n meth path (Inr req) dec zero k attempt lastErr tr)))"
proof (induction k arbitrary: attempt lastErr tr)
  case 0
  then show ?case by (intro exI [of _ "[]"]) (simp add: policy_ok_def)
next
  case (Suc k)
  let ?r = "authorize c req" and ?d = "attempt_delay c n attempt tr"
  show ?case
  proof (cases rule: doRaw_step [of L c n meth path req dec zero k attempt lastErr tr])
    case (cancelled e d)
    then show ?thesis
      by (intro exI [of _ "[Sleep d]"])
        (auto simp: policy_ok_def Cons_eq_append_conv simp del: doRaw_loop.simps intro: exI [of _ 0])
  next
    case (again err l)
    let ?tr = "tr @ ?d @ Req ?r # l"
    obtain p where p: "snd (doRaw_loop L c n meth path (Inr req) dec zero k (attempt + 1) (Some err) ?tr) = ?tr @ p"
      "policy_ok n ?r k ?tr p
         (fst (fst (doRaw_loop L c n meth path (Inr req) dec zero k (attempt + 1) (Some err) ?tr)))"
      using Suc.IH [of "Some err" "attempt + 1" ?tr] by auto
    from policy_again [OF p(2) again(2) delay_silent again(3)] p(1) show ?thesis
      unfolding again(1) by (intro exI [of _ "?d @ Req ?r # l @ p"]) simp
  next
    case (final err v)
    have split: "a = ?d \<and> q = ?r \<and> b = []" if "?d @ [Req ?r] = a @ Req q # b" for a b q
    proof (cases b rule: rev_cases)
      case Nil
      with that show ?thesis by simp
    next
      case (snoc b' x)
      with that have "?d = a @ Req q # b'" by simp
      with reqs_Nil_split [OF delay_silent] show ?thesis by blast
    qed
    have "policy_ok n ?r (Suc k) tr (?d @ [Req ?r]) err"
      unfolding policy_ok_def using final(2,3) split
      by (auto intro: exI [of _ 1] dest!: split)
    then show ?thesis unfolding final(1) by (intro exI [of _ "?d @ [Req ?r]"]) simp
  qed
qed

text \<open>C30. The retry policy: all requests of one operation are the same authorized ask_wiki, at most
  \<open>maxRetries + 1\<close> of them; another is sent only after a transport error or a 5xx; unless the
  context ended, it stops early only at an answer that is neither; and it reports no error only
  when the last answer was a 2xx.\<close>

theorem doRaw_retry_policy:
  assumes "0 \<le> cl_maxRetries c"
  shows "\<exists>p. snd (doRaw L c n meth path (Inr req) dec zero tr) = tr @ p
     \<and> policy_ok n (authorize c req) (nat (cl_maxRetries c + 1)) tr p
         (fst (fst (doRaw L c n meth path (Inr req) dec zero tr)))"
  using doRaw_loop_policy [of "nat (cl_maxRetries c + 1)" None L c n meth path req dec zero 0 tr] assms
  by (simp add: doRaw_def)

definition sample_client :: client where
  "sample_client = \<lparr>cl_baseURL = ''https://wiki'', cl_token = ''id:secret'', cl_maxRetries = 2,
     cl_baseDelay = 200 * millisecond, cl_logs = True\<rparr>"

text \<open>A wiki that is down at first: 503 to the first ask_wiki, then a book.\<close>

definition flaky_net :: wnet where
  "flaky_net =
     \<lparr>wiki_do = (\<lambda>tr _. if reqs tr = []
        then Inr \<lparr>rs_code = 503, rs_status = ''503'', rs_body = []\<rparr>
        else Inr \<lparr>rs_code = 200, rs_status = ''200'', rs_body = ''{book}''\<rparr>),
      wait = (\<lambda>_ _. None), rand_below = (\<lambda>_ m. if 0 < m then Some (m - 1) else None), boundary = (\<lambda>_. ''b''), map_order = (\<lambda>_ fs. fs)\<rparr>"

definition sample_get :: http_req where
  "sample_get = \<lparr>rq_method = ''GET'', rq_url = ''https://wiki/api/books/5'', rq_header = [], rq_body = NoBody\<rparr>"

theorem doRaw_retry_policy_witness:
  "let o' = doRaw sample_lib sample_client flaky_net ''GET'' ''/api/books/5'' (Inr sample_get)
             (\<lambda>j. str_field sample_lib ''name'' j) [] []
   in fst o' = (None, ''Guide'') \<and> reqs (snd o') = replicate 2 (authorize sample_client sample_get)
      \<and> policy_ok flaky_net (authorize sample_client sample_get) 3 [] (snd o') None"
proof -
  let ?o = "doRaw sample_lib sample_client flaky_net ''GET'' ''/api/books/5'' (Inr sample_get)
    (\<lambda>j. str_field sample_lib ''name'' j) [] []"
  have c: "0 \<le> cl_maxRetries sample_client" by (simp add: sample_client_def)
  have r: "fst ?o = (None, ''Guide'')" "reqs (snd ?o) = replicate 2 (authorize sample_client sample_get)"
    by code_simp+
  have "nat (cl_maxRetries sample_client + 1) = 3" by (simp add: sample_client_def)
  with doRaw_retry_policy [OF c, of sample_lib flaky_net "''GET''" "''/api/books/5''" sample_get
      "\<lambda>j. str_field sample_lib ''name'' j" "[]" "[]"] r
  show ?thesis by (simp add: Let_def)
qed

section \<open>Delays\<close>

text \<open>Documented of the random source: what it returns is below the bound and not negative.\<close>

definition rand_ok :: "wnet \<Rightarrow> bool" where
  "rand_ok n \<longleftrightarrow> (\<forall>tr m r. rand_below n tr m = Some r \<longrightarrow> 0 \<le> r \<and> r < m)"

lemma jitter_bounds: "rand_ok n \<Longrightarrow> 0 < d \<Longrightarrow> d div 2 \<le> jitter n tr d \<and> jitter n tr d \<le> d"
proof -
  assume rnd: "rand_ok n" and d: "0 < d"
  show ?thesis
  proof (cases "rand_below n tr (d div 2 + 1)")
    case None
    with d show ?thesis by (simp add: jitter_def)
  next
    case (Some r)
    with rnd have "0 \<le> r" "r < d div 2 + 1" unfolding rand_ok_def by blast+
    with Some d show ?thesis by (simp add: jitter_def)
  qed
qed

lemma backoff_delay_bounds: "0 < backoff_delay base attempt \<and> backoff_delay base attempt \<le> maxDelay"
  by (simp add: backoff_delay_def Let_def maxDelay_def second_def)

lemma wrap64_id: "- (2 ^ 63) \<le> x \<Longrightarrow> x < 2 ^ 63 \<Longrightarrow> wrap64 x = x"
  by (simp add: wrap64_def)

text \<open>Up to four seconds of base the cap absorbs every overflow of the 64-bit shift: the delay is the
  capped exponential.\<close>

lemma backoff_delay_exact:
  assumes "0 < base" and "base \<le> 2 ^ 32"
  shows "backoff_delay base (Suc s) = min maxDelay (base * 2 ^ s)"
proof (cases "base * 2 ^ s < 2 ^ 63")
  case True
  have "0 < base * 2 ^ s" using assms(1) by simp
  with True have "wrap64 (base * 2 ^ s) = base * 2 ^ s" by (intro wrap64_id) simp_all
  with \<open>0 < base * 2 ^ s\<close> show ?thesis by (simp add: backoff_delay_def Let_def min_def)
next
  case False
  have s: "31 \<le> s"
  proof (rule ccontr)
    assume "\<not> 31 \<le> s"
    then have "(2::int) ^ s \<le> 2 ^ 30" by (intro power_increasing) simp_all
    with assms have "base * 2 ^ s \<le> 2 ^ 32 * 2 ^ 30" by (intro mult_mono) simp_all
    with False show False by simp
  qed
  have "wrap64 (base * 2 ^ s) \<le> 0 \<or> maxDelay < wrap64 (base * 2 ^ s)"
  proof (cases "s < 33")
    case True
    with s consider "s = 31" | "s = 32" by linarith
    then show ?thesis
    proof cases
      case 1
      with False assms have "base = 2 ^ 32" by simp
      with 1 show ?thesis by (simp add: wrap64_def)
    next
      case 2
      with False assms have "2 ^ 31 \<le> base" by simp
      with 2 assms have y: "- (2 ^ 63) \<le> base * 2 ^ s - 2 ^ 64" "base * 2 ^ s - 2 ^ 64 \<le> 0"
        by simp_all
      have wrap: "wrap64 (2 ^ 64 + y) = wrap64 y" for y
      proof -
        have "2 ^ 64 + y + 2 ^ 63 = y + 2 ^ 63 + 2 ^ 64" by simp
        then show ?thesis unfolding wrap64_def by (simp only: mod_add_self2)
      qed
      have "wrap64 (base * 2 ^ s) = wrap64 (base * 2 ^ s - 2 ^ 64)"
        using wrap [of "base * 2 ^ s - 2 ^ 64"] by simp
      also have "\<dots> = base * 2 ^ s - 2 ^ 64"
        by (intro wrap64_id y(1) order.strict_trans1 [OF y(2)]) simp
      finally show ?thesis using y(2) by simp
    qed
  next
    case False
    then have "(2::int) ^ 33 dvd base * 2 ^ s"
      by (intro dvd_mult le_imp_power_dvd) simp
    moreover have "(2::int) ^ 33 dvd 2 ^ 63" "(2::int) ^ 33 dvd 2 ^ 64"
      by (intro le_imp_power_dvd; simp)+
    ultimately have "2 ^ 33 dvd wrap64 (base * 2 ^ s)"
      unfolding wrap64_def by (intro dvd_diff dvd_mod dvd_add)
    then have "wrap64 (base * 2 ^ s) \<le> 0 \<or> 2 ^ 33 \<le> wrap64 (base * 2 ^ s)"
      using zdvd_imp_le by fastforce
    then show ?thesis by (auto simp: maxDelay_def second_def)
  qed
  then have "backoff_delay base (Suc s) = maxDelay"
    by (auto simp: backoff_delay_def Let_def)
  moreover have "maxDelay \<le> base * 2 ^ s" using False by (simp add: maxDelay_def second_def)
  ultimately show ?thesis by simp
qed

text \<open>The delays of a run from a given attempt on: at most one per further attempt, each the jitter
  of its own backoff.\<close>

definition delay_ok :: "duration \<Rightarrow> nat \<Rightarrow> duration \<Rightarrow> bool" where
  "delay_ok base attempt d \<longleftrightarrow>
     backoff_delay base attempt div 2 \<le> d \<and> d \<le> backoff_delay base attempt"

lemma attempt_delay_ok:
  "rand_ok n \<Longrightarrow> d \<in> set (sleeps (attempt_delay c n attempt tr)) \<Longrightarrow> delay_ok (cl_baseDelay c) attempt d"
  using jitter_bounds backoff_delay_bounds by (auto simp: attempt_delay_def delay_ok_def split: if_splits)

lemma doRaw_loop_delays:
  assumes "rand_ok n"
  shows "\<exists>p. snd (doRaw_loop L c n meth path (Inr req) dec zero k attempt lastErr tr) = tr @ p
     \<and> length (sleeps p) \<le> (if attempt = 0 then k - 1 else k)
     \<and> (\<forall>i < length (sleeps p).
          delay_ok (cl_baseDelay c) ((if attempt = 0 then 1 else attempt) + i) (sleeps p ! i))"
proof (induction k arbitrary: attempt lastErr tr)
  case 0
  show ?case by (intro exI [of _ "[]"]) simp
next
  case (Suc k)
  let ?r = "authorize c req" and ?d = "attempt_delay c n attempt tr"
  have len: "length (sleeps ?d) = (if attempt = 0 then 0 else 1)"
    by (simp add: attempt_delay_def)
  have ok: "i < length (sleeps ?d) \<Longrightarrow>
      delay_ok (cl_baseDelay c) ((if attempt = 0 then 1 else attempt) + i) (sleeps ?d ! i)" for i
    using attempt_delay_ok [OF assms, of "sleeps ?d ! i" c attempt tr] len
    by (auto split: if_splits)
  show ?case
  proof (cases rule: doRaw_step [of L c n meth path req dec zero k attempt lastErr tr])
    case (cancelled e d)
    then have a: "attempt \<noteq> 0" using len by (auto split: if_splits)
    have "delay_ok (cl_baseDelay c) attempt d" using ok [of 0] a cancelled(2) by simp
    with a cancelled(1) show ?thesis by (intro exI [of _ "[Sleep d]"]) simp
  next
    case (again err l)
    let ?tr = "tr @ ?d @ Req ?r # l"
    obtain p where p: "snd (doRaw_loop L c n meth path (Inr req) dec zero k (attempt + 1) (Some err) ?tr) = ?tr @ p"
      "length (sleeps p) \<le> k"
      "\<forall>i < length (sleeps p). delay_ok (cl_baseDelay c) (attempt + 1 + i) (sleeps p ! i)"
      using Suc.IH [of "attempt + 1" "Some err" ?tr] by auto
    have sl: "sleeps (?d @ Req ?r # l @ p) = sleeps ?d @ sleeps p" using again(4) by simp
    show ?thesis
    proof (intro exI [of _ "?d @ Req ?r # l @ p"] conjI allI impI)
      show "snd (doRaw_loop L c n meth path (Inr req) dec zero (Suc k) attempt lastErr tr)
          = tr @ ?d @ Req ?r # l @ p" using again(1) p(1) by simp
      show "length (sleeps (?d @ Req ?r # l @ p)) \<le> (if attempt = 0 then Suc k - 1 else Suc k)"
        unfolding sl using len p(2) by simp
      fix i assume "i < length (sleeps (?d @ Req ?r # l @ p))"
      with ok p(3) len show "delay_ok (cl_baseDelay c) ((if attempt = 0 then 1 else attempt) + i)
          (sleeps (?d @ Req ?r # l @ p) ! i)"
        by (cases "attempt = 0"; cases i) (auto simp: sl again(4) nth_append)
    qed
  next
    case (final err v)
    with ok len show ?thesis
      by (cases "attempt = 0") (intro exI [of _ "?d @ [Req ?r]"], simp)+
  qed
qed



section \<open>Recovery\<close>

text \<open>A wiki in an outage of \<open>k\<close> requests: after a history \<open>tr\<close> the next \<open>k\<close> requests fail in a way
  that is worth another attempt, the following ones get an answer that decodes to \<open>v\<close>.\<close>

definition recovers ::
  "golib \<Rightarrow> wnet \<Rightarrow> http_req \<Rightarrow> (string \<Rightarrow> client_error option \<times> 'a) \<Rightarrow> ev list \<Rightarrow> nat \<Rightarrow> 'a \<Rightarrow> bool" where
  "recovers L n r decode tr k v \<longleftrightarrow>
     (\<forall>p. if length (reqs p) < k then retryable_at n (tr @ p) r
          else \<exists>resp. wiki_do n (tr @ p) r = Inr resp \<and> status_2xx resp
                 \<and> decode (limit_read maxRespBody (rs_body resp)) = (None, v))"

lemma recovers_later:
  assumes "recovers L n r decode tr (Suc k) v" and "length (reqs q) = 1"
  shows "recovers L n r decode (tr @ q) k v"
  unfolding recovers_def
proof
  fix p
  from assms show "if length (reqs p) < k then retryable_at n ((tr @ q) @ p) r
      else \<exists>resp. wiki_do n ((tr @ q) @ p) r = Inr resp \<and> status_2xx resp
             \<and> decode (limit_read maxRespBody (rs_body resp)) = (None, v)"
    unfolding recovers_def by (auto dest: spec [of _ "q @ p"])
qed

lemma doRaw_loop_recovers:
  assumes "\<And>tr d. wait n tr d = None"
  shows "recovers L n (authorize c req) (decode_reply L meth path dec zero) tr k v \<Longrightarrow> k < fuel \<Longrightarrow>
    \<exists>p. doRaw_loop L c n meth path (Inr req) dec zero fuel attempt lastErr tr = ((None, v), tr @ p)
      \<and> length (reqs p) = Suc k"
proof (induction k arbitrary: fuel attempt lastErr tr)
  case 0
  let ?d = "attempt_delay c n attempt tr"
  obtain f where f: "fuel = Suc f" using 0(2) by (cases fuel) auto
  from 0(1) obtain resp where "wiki_do n (tr @ ?d) (authorize c req) = Inr resp" "status_2xx resp"
    "decode_reply L meth path dec zero (limit_read maxRespBody (rs_body resp)) = (None, v)"
    by (auto simp: recovers_def)
  then show ?case
    using doRaw_uncancelled [of attempt n tr c L meth path req dec zero f lastErr] assms
    by (intro exI [of _ "?d @ [Req (authorize c req)]"]) (simp add: f status_2xx_def)
next
  case (Suc k)
  let ?d = "attempt_delay c n attempt tr" and ?r = "authorize c req"
  obtain f where f: "fuel = Suc f" "k < f" using Suc.prems(2) by (cases fuel) auto
  have "retryable_at n (tr @ ?d) ?r"
    using Suc.prems(1) by (auto simp: recovers_def dest: spec [of _ ?d])
  then have "\<exists>err l. reqs l = [] \<and>
     doRaw_loop L c n meth path (Inr req) dec zero fuel attempt lastErr tr =
     doRaw_loop L c n meth path (Inr req) dec zero f (attempt + 1) err (tr @ ?d @ Req ?r # l)"
  proof (cases "wiki_do n (tr @ ?d) ?r")
    case (Inl e)
    then show ?thesis
      using doRaw_uncancelled [of attempt n tr c L meth path req dec zero f lastErr] assms
      by (intro exI [of _ "Some (TransportFailed meth path e)"]
          exI [of _ "log_events c meth path attempt 0 True"]) (simp add: f)
  next
    case (Inr resp)
    moreover assume "retryable_at n (tr @ ?d) ?r"
    ultimately show ?thesis
      using doRaw_uncancelled [of attempt n tr c L meth path req dec zero f lastErr] assms
      by (intro exI [of _ "Some (API (apiErrorFrom L (rs_code resp)
              (limit_read maxRespBody (rs_body resp)) meth path))"]
          exI [of _ "log_events c meth path attempt (rs_code resp) False"]) (simp add: f retryable_at_def)
  qed
  then obtain err l where again: "reqs l = []"
    "doRaw_loop L c n meth path (Inr req) dec zero fuel attempt lastErr tr =
     doRaw_loop L c n meth path (Inr req) dec zero f (attempt + 1) err (tr @ ?d @ Req ?r # l)" by blast
  have "recovers L n ?r (decode_reply L meth path dec zero) (tr @ ?d @ Req ?r # l) k v"
    by (rule recovers_later [OF Suc.prems(1)]) (simp add: again(1))
  from Suc.IH [OF this f(2)] obtain p where
    "doRaw_loop L c n meth path (Inr req) dec zero f (attempt + 1) err (tr @ ?d @ Req ?r # l)
       = ((None, v), (tr @ ?d @ Req ?r # l) @ p)" "length (reqs p) = Suc k"
    by blast
  with again show ?case by (intro exI [of _ "?d @ Req ?r # l @ p"]) simp
qed

text \<open>C32. An outage no longer than the retry budget is survived: if the wiki fails \<open>k \<le> maxRetries\<close>
  requests with transport errors or 5xx and answers properly after that, and the context does not
  end, the operation returns the decoded answer without an error, after exactly \<open>k + 1\<close> requests.\<close>

theorem doRaw_recovers:
  assumes "\<And>tr d. wait n tr d = None" and "int k \<le> cl_maxRetries c"
    and "recovers L n (authorize c req) (decode_reply L meth path dec zero) tr k v"
  shows "\<exists>p. doRaw L c n meth path (Inr req) dec zero tr = ((None, v), tr @ p) \<and> length (reqs p) = Suc k"
  unfolding doRaw_def using assms(2) by (intro doRaw_loop_recovers [OF assms(1,3)]) simp_all

theorem doRaw_recovers_witness:
  "\<exists>p. doRaw sample_lib sample_client flaky_net ''GET'' ''/api/books/5'' (Inr sample_get)
      (\<lambda>j. str_field sample_lib ''name'' j) [] [] = ((None, ''Guide''), p) \<and> length (reqs p) = 2"
proof -
  let ?dec = "\<lambda>j. str_field sample_lib ''name'' j"
  have d: "decode_reply sample_lib ''GET'' ''/api/books/5'' ?dec [] (limit_read maxRespBody ''{book}'') = (None, ''Guide'')"
    by code_simp
  have "recovers sample_lib flaky_net (authorize sample_client sample_get)
      (decode_reply sample_lib ''GET'' ''/api/books/5'' ?dec []) [] 1 ''Guide''"
    unfolding recovers_def by (auto simp: flaky_net_def retryable_at_def status_2xx_def d)
  from doRaw_recovers [OF _ _ this] show ?thesis
    by (simp add: flaky_net_def sample_client_def numeral_2_eq_2)
qed

end
