(* ===== verification/WikiEntities.thy ===== *)
theory WikiEntities
  imports WikiClient
begin

text \<open>
  The data and the endpoints of the wiki client: the entities of \<open>services/wiki-client/models.go\<close>
  with their JSON encodings, and the methods of \<open>books.go\<close>, \<open>chapters.go\<close>, \<open>pages.go\<close>,
  \<open>attachments.go\<close> and \<open>images.go\<close>. The tags of a struct appear twice: in the encoder, where
  \<open>omitempty\<close> drops zero numbers and empty strings (but never a \<open>time.Time\<close>, which is a struct), and
  in the table of fields the decoder goes by.
\<close>

section \<open>Entities\<close>

record book =
  bk_ID :: int
  bk_Name :: string
  bk_Slug :: string
  bk_Description :: string
  bk_CreatedAt :: zoned_time
  bk_UpdatedAt :: zoned_time

record wiki_page =
  pg_ID :: int
  pg_BookID :: int
  pg_ChapterID :: int
  pg_Name :: string
  pg_Slug :: string
  pg_Markdown :: string
  pg_HTML :: string
  pg_Priority :: int
  pg_RevisionCount :: int
  pg_CreatedAt :: zoned_time
  pg_UpdatedAt :: zoned_time

record wiki_chapter =
  ch_ID :: int
  ch_BookID :: int
  ch_Name :: string
  ch_Slug :: string
  ch_Description :: string
  ch_Priority :: int
  ch_CreatedAt :: zoned_time
  ch_UpdatedAt :: zoned_time

record attachment =
  at_ID :: int
  at_Name :: string
  at_UploadedTo :: int
  at_External :: bool
  at_Order :: int

record image =
  im_ID :: int
  im_Name :: string
  im_URL :: string
  im_Path :: string
  im_Type :: string
  im_UploadedTo :: int

text \<open>\<open>listEnvelope[T]\<close>; a nil slice is \<open>None\<close>.\<close>

record 'a listEnvelope =
  en_Data :: "'a list option"
  en_Total :: int

text \<open>The zero values.\<close>

definition zero_time :: zoned_time where "zero_time = (0, 0)"

definition zero_book :: book where
  "zero_book = \<lparr>bk_ID = 0, bk_Name = [], bk_Slug = [], bk_Description = [],
     bk_CreatedAt = zero_time, bk_UpdatedAt = zero_time\<rparr>"

definition zero_page :: wiki_page where
  "zero_page = \<lparr>pg_ID = 0, pg_BookID = 0, pg_ChapterID = 0, pg_Name = [], pg_Slug = [],
     pg_Markdown = [], pg_HTML = [], pg_Priority = 0, pg_RevisionCount = 0,
     pg_CreatedAt = zero_time, pg_UpdatedAt = zero_time\<rparr>"

definition zero_chapter :: wiki_chapter where
  "zero_chapter = \<lparr>ch_ID = 0, ch_BookID = 0, ch_Name = [], ch_Slug = [], ch_Description = [],
     ch_Priority = 0, ch_CreatedAt = zero_time, ch_UpdatedAt = zero_time\<rparr>"

definition zero_attachment :: attachment where
  "zero_attachment = \<lparr>at_ID = 0, at_Name = [], at_UploadedTo = 0, at_External = False, at_Order = 0\<rparr>"

definition zero_image :: image where
  "zero_image = \<lparr>im_ID = 0, im_Name = [], im_URL = [], im_Path = [], im_Type = [], im_UploadedTo = 0\<rparr>"

section \<open>Encoding\<close>

definition omit_int :: "string \<Rightarrow> int \<Rightarrow> (string \<times> json) list" where
  "omit_int k n = (if n = 0 then [] else [(k, JInt n)])"

definition omit_str :: "string \<Rightarrow> string \<Rightarrow> (string \<times> json) list" where
  "omit_str k s = (if s = [] then [] else [(k, JStr s)])"

text \<open>An object that ends in two times, none when one of them cannot be encoded.\<close>

definition timed :: "golib \<Rightarrow> (string \<times> json) list \<Rightarrow> zoned_time \<Rightarrow> zoned_time \<Rightarrow> json option" where
  "timed L kvs created updated =
     (case (format_json_time L created, format_json_time L updated) of
        (Some c, Some u) \<Rightarrow> Some (JObj (kvs @ [(''created_at'', JStr c), (''updated_at'', JStr u)]))
      | _ \<Rightarrow> None)"

definition book_json :: "golib \<Rightarrow> book \<Rightarrow> json option" where
  "book_json L b =
     timed L (omit_int ''id'' (bk_ID b) @ omit_str ''name'' (bk_Name b) @ omit_str ''slug'' (bk_Slug b)
         @ omit_str ''description'' (bk_Description b))
       (bk_CreatedAt b) (bk_UpdatedAt b)"

definition page_json :: "golib \<Rightarrow> wiki_page \<Rightarrow> json option" where
  "page_json L p =
     timed L (omit_int ''id'' (pg_ID p) @ omit_int ''book_id'' (pg_BookID p)
         @ omit_int ''chapter_id'' (pg_ChapterID p) @ omit_str ''name'' (pg_Name p)
         @ omit_str ''slug'' (pg_Slug p) @ omit_str ''markdown'' (pg_Markdown p)
         @ omit_str ''html'' (pg_HTML p) @ omit_int ''priority'' (pg_Priority p)
         @ omit_int ''revision_count'' (pg_RevisionCount p))
       (pg_CreatedAt p) (pg_UpdatedAt p)"

definition chapter_json :: "golib \<Rightarrow> wiki_chapter \<Rightarrow> json option" where
  "chapter_json L c =
     timed L (omit_int ''id'' (ch_ID c) @ omit_int ''book_id'' (ch_BookID c)
         @ omit_str ''name'' (ch_Name c) @ omit_str ''slug'' (ch_Slug c)
         @ omit_str ''description'' (ch_Description c) @ omit_int ''priority'' (ch_Priority c))
       (ch_CreatedAt c) (ch_UpdatedAt c)"

definition attachment_json :: "attachment \<Rightarrow> json" where
  "attachment_json a =
     JObj (omit_int ''id'' (at_ID a) @ [(''name'', JStr (at_Name a))]
       @ omit_int ''uploaded_to'' (at_UploadedTo a) @ [(''external'', JBool (at_External a))]
       @ omit_int ''order'' (at_Order a))"

definition image_json :: "image \<Rightarrow> json" where
  "image_json i =
     JObj (omit_int ''id'' (im_ID i) @ [(''name'', JStr (im_Name i))] @ omit_str ''url'' (im_URL i)
       @ omit_str ''path'' (im_Path i) @ omit_str ''type'' (im_Type i)
       @ omit_int ''uploaded_to'' (im_UploadedTo i))"

section \<open>Decoding\<close>

text \<open>
  \<open>json.Unmarshal\<close> into a struct, member by member: a member sets the field of its name, letter case
  aside; \<open>null\<close> leaves it alone; a value of another type is remembered as an error and decoding goes
  on; a time that does not parse ends it.
\<close>

datatype dec = Fine | Bad | Stop

type_synonym 'a put = "json \<Rightarrow> 'a \<Rightarrow> 'a \<times> dec"

definition into_int :: "((int \<Rightarrow> int) \<Rightarrow> 'a \<Rightarrow> 'a) \<Rightarrow> 'a put" where
  "into_int upd j v = (case j of JInt n \<Rightarrow> (upd (\<lambda>_. n) v, Fine) | JNull \<Rightarrow> (v, Fine) | _ \<Rightarrow> (v, Bad))"

definition into_str :: "((string \<Rightarrow> string) \<Rightarrow> 'a \<Rightarrow> 'a) \<Rightarrow> 'a put" where
  "into_str upd j v = (case j of JStr s \<Rightarrow> (upd (\<lambda>_. s) v, Fine) | JNull \<Rightarrow> (v, Fine) | _ \<Rightarrow> (v, Bad))"

definition into_bool :: "((bool \<Rightarrow> bool) \<Rightarrow> 'a \<Rightarrow> 'a) \<Rightarrow> 'a put" where
  "into_bool upd j v = (case j of JBool b \<Rightarrow> (upd (\<lambda>_. b) v, Fine) | JNull \<Rightarrow> (v, Fine) | _ \<Rightarrow> (v, Bad))"

definition into_time :: "golib \<Rightarrow> ((zoned_time \<Rightarrow> zoned_time) \<Rightarrow> 'a \<Rightarrow> 'a) \<Rightarrow> 'a put" where
  "into_time L upd j v =
     (case j of
        JStr s \<Rightarrow> (case parse_json_time L s of Some t \<Rightarrow> (upd (\<lambda>_. t) v, Fine) | None \<Rightarrow> (v, Stop))
      | JNull \<Rightarrow> (v, Fine)
      | _ \<Rightarrow> (v, Stop))"

fun decode_members ::
  "golib \<Rightarrow> (string \<times> 'a put) list \<Rightarrow> (string \<times> json) list \<Rightarrow> 'a \<Rightarrow> dec \<Rightarrow> 'a \<times> dec" where
  "decode_members L fs [] v st = (v, st)"
| "decode_members L fs ((k, j) # kvs) v st =
     (case find (\<lambda>f. equal_fold (fold_tab L) (fst f) k) fs of
        None \<Rightarrow> decode_members L fs kvs v st
      | Some f \<Rightarrow>
          (case snd f j v of
             (v', Fine) \<Rightarrow> decode_members L fs kvs v' st
           | (v', Bad) \<Rightarrow> decode_members L fs kvs v' Bad
           | (v', Stop) \<Rightarrow> (v', Stop)))"

definition decode_struct :: "golib \<Rightarrow> (string \<times> 'a put) list \<Rightarrow> 'a \<Rightarrow> json \<Rightarrow> 'a \<times> dec" where
  "decode_struct L fs zero j =
     (case j of JObj kvs \<Rightarrow> decode_members L fs kvs zero Fine | JNull \<Rightarrow> (zero, Fine) | _ \<Rightarrow> (zero, Bad))"

definition book_fields :: "golib \<Rightarrow> (string \<times> book put) list" where
  "book_fields L =
     [(''id'', into_int bk_ID_update), (''name'', into_str bk_Name_update),
      (''slug'', into_str bk_Slug_update), (''description'', into_str bk_Description_update),
      (''created_at'', into_time L bk_CreatedAt_update), (''updated_at'', into_time L bk_UpdatedAt_update)]"

definition page_fields :: "golib \<Rightarrow> (string \<times> wiki_page put) list" where
  "page_fields L =
     [(''id'', into_int pg_ID_update), (''book_id'', into_int pg_BookID_update),
      (''chapter_id'', into_int pg_ChapterID_update), (''name'', into_str pg_Name_update),
      (''slug'', into_str pg_Slug_update), (''markdown'', into_str pg_Markdown_update),
      (''html'', into_str pg_HTML_update), (''priority'', into_int pg_Priority_update),
      (''revision_count'', into_int pg_RevisionCount_update),
      (''created_at'', into_time L pg_CreatedAt_update), (''updated_at'', into_time L pg_UpdatedAt_update)]"

definition chapter_fields :: "golib \<Rightarrow> (string \<times> wiki_chapter put) list" where
  "chapter_fields L =
     [(''id'', into_int ch_ID_update), (''book_id'', into_int ch_BookID_update),
      (''name'', into_str ch_Name_update), (''slug'', into_str ch_Slug_update),
      (''description'', into_str ch_Description_update), (''priority'', into_int ch_Priority_update),
      (''created_at'', into_time L ch_CreatedAt_update), (''updated_at'', into_time L ch_UpdatedAt_update)]"

definition attachment_fields :: "(string \<times> attachment put) list" where
  "attachment_fields =
     [(''id'', into_int at_ID_update), (''name'', into_str at_Name_update),
      (''uploaded_to'', into_int at_UploadedTo_update), (''external'', into_bool at_External_update),
      (''order'', into_int at_Order_update)]"

definition image_fields :: "(string \<times> image put) list" where
  "image_fields =
     [(''id'', into_int im_ID_update), (''name'', into_str im_Name_update),
      (''url'', into_str im_URL_update), (''path'', into_str im_Path_update),
      (''type'', into_str im_Type_update), (''uploaded_to'', into_int im_UploadedTo_update)]"

text \<open>The elements of an array, each from its zero value; the array of a repeated \<open>data\<close> member
  replaces the one before.\<close>

fun decode_items :: "(json \<Rightarrow> 'a \<times> dec) \<Rightarrow> json list \<Rightarrow> 'a list \<times> dec" where
  "decode_items d [] = ([], Fine)"
| "decode_items d (j # js) =
     (case d j of
        (v, Stop) \<Rightarrow> ([v], Stop)
      | (v, st) \<Rightarrow> (case decode_items d js of (vs, st') \<Rightarrow> (v # vs, if st' = Fine then st else st')))"

definition into_list :: "(json \<Rightarrow> 'a \<times> dec) \<Rightarrow> 'a listEnvelope put" where
  "into_list d j v =
     (case j of
        JArr js \<Rightarrow> (case decode_items d js of (vs, st) \<Rightarrow> (v\<lparr>en_Data := Some vs\<rparr>, st))
      | JNull \<Rightarrow> (v\<lparr>en_Data := None\<rparr>, Fine)
      | _ \<Rightarrow> (v, Bad))"

definition envelope_fields :: "(json \<Rightarrow> 'a \<times> dec) \<Rightarrow> (string \<times> 'a listEnvelope put) list" where
  "envelope_fields d = [(''data'', into_list d), (''total'', into_int en_Total_update)]"

definition zero_envelope :: "'a listEnvelope" where
  "zero_envelope = \<lparr>en_Data = None, en_Total = 0\<rparr>"

text \<open>The targets \<open>out\<close> of \<open>doRaw\<close>: the value and whether there was no error.\<close>

definition decoded :: "'a \<times> dec \<Rightarrow> 'a \<times> bool" where
  "decoded p = (fst p, snd p = Fine)"

definition out_struct :: "golib \<Rightarrow> (string \<times> 'a put) list \<Rightarrow> 'a \<Rightarrow> json \<Rightarrow> 'a \<times> bool" where
  "out_struct L fs zero j = decoded (decode_struct L fs zero j)"

definition out_list :: "golib \<Rightarrow> (string \<times> 'a put) list \<Rightarrow> 'a \<Rightarrow> json \<Rightarrow> 'a listEnvelope \<times> bool" where
  "out_list L fs zero j =
     decoded (decode_struct L (envelope_fields (decode_struct L fs zero)) zero_envelope j)"

section \<open>Endpoints\<close>

type_synonym 'a answer = "(client_error option \<times> 'a) \<times> ev list"

text \<open>The end of the \<open>List\<close> methods: nothing but the error, or the data of the envelope.\<close>

definition list_data :: "'a listEnvelope answer \<Rightarrow> 'a list option answer" where
  "list_data o' =
     (case o' of ((Some e, _), tr) \<Rightarrow> ((Some e, None), tr)
               | ((None, env), tr) \<Rightarrow> ((None, en_Data env), tr))"

definition ListBooks :: "golib \<Rightarrow> client \<Rightarrow> wnet \<Rightarrow> ev list \<Rightarrow> book list option answer" where
  "ListBooks L c n tr =
     list_data (do_json L c n ''GET'' ''/api/books'' None (out_list L (book_fields L) zero_book) zero_envelope tr)"

definition GetBook :: "golib \<Rightarrow> client \<Rightarrow> wnet \<Rightarrow> int \<Rightarrow> ev list \<Rightarrow> book answer" where
  "GetBook L c n i tr =
     do_json L c n ''GET'' (''/api/books/'' @ itoa i) None (out_struct L (book_fields L) zero_book) zero_book tr"

definition CreateBook :: "golib \<Rightarrow> client \<Rightarrow> wnet \<Rightarrow> book \<Rightarrow> ev list \<Rightarrow> book answer" where
  "CreateBook L c n inp tr =
     do_json L c n ''POST'' ''/api/books'' (Some (book_json L inp)) (out_struct L (book_fields L) zero_book) zero_book tr"

definition UpdateBook :: "golib \<Rightarrow> client \<Rightarrow> wnet \<Rightarrow> int \<Rightarrow> book \<Rightarrow> ev list \<Rightarrow> book answer" where
  "UpdateBook L c n i inp tr =
     do_json L c n ''PUT'' (''/api/books/'' @ itoa i) (Some (book_json L inp))
       (out_struct L (book_fields L) zero_book) zero_book tr"

definition ListChapters :: "golib \<Rightarrow> client \<Rightarrow> wnet \<Rightarrow> ev list \<Rightarrow> wiki_chapter list option answer" where
  "ListChapters L c n tr =
     list_data (do_json L c n ''GET'' ''/api/chapters'' None (out_list L (chapter_fields L) zero_chapter) zero_envelope tr)"

definition GetChapter :: "golib \<Rightarrow> client \<Rightarrow> wnet \<Rightarrow> int \<Rightarrow> ev list \<Rightarrow> wiki_chapter answer" where
  "GetChapter L c n i tr =
     do_json L c n ''GET'' (''/api/chapters/'' @ itoa i) None (out_struct L (chapter_fields L) zero_chapter) zero_chapter tr"

definition CreateChapter :: "golib \<Rightarrow> client \<Rightarrow> wnet \<Rightarrow> wiki_chapter \<Rightarrow> ev list \<Rightarrow> wiki_chapter answer" where
  "CreateChapter L c n inp tr =
     do_json L c n ''POST'' ''/api/chapters'' (Some (chapter_json L inp)) (out_struct L (chapter_fields L) zero_chapter) zero_chapter tr"

definition UpdateChapter :: "golib \<Rightarrow> client \<Rightarrow> wnet \<Rightarrow> int \<Rightarrow> wiki_chapter \<Rightarrow> ev list \<Rightarrow> wiki_chapter answer" where
  "UpdateChapter L c n i inp tr =
     do_json L c n ''PUT'' (''/api/chapters/'' @ itoa i) (Some (chapter_json L inp))
       (out_struct L (chapter_fields L) zero_chapter) zero_chapter tr"

definition ListPages :: "golib \<Rightarrow> client \<Rightarrow> wnet \<Rightarrow> ev list \<Rightarrow> wiki_page list option answer" where
  "ListPages L c n tr =
     list_data (do_json L c n ''GET'' ''/api/pages'' None (out_list L (page_fields L) zero_page) zero_envelope tr)"

definition GetPage :: "golib \<Rightarrow> client \<Rightarrow> wnet \<Rightarrow> int \<Rightarrow> ev list \<Rightarrow> wiki_page answer" where
  "GetPage L c n i tr =
     do_json L c n ''GET'' (''/api/pages/'' @ itoa i) None (out_struct L (page_fields L) zero_page) zero_page tr"

definition CreatePage :: "golib \<Rightarrow> client \<Rightarrow> wnet \<Rightarrow> wiki_page \<Rightarrow> ev list \<Rightarrow> wiki_page answer" where
  "CreatePage L c n inp tr =
     do_json L c n ''POST'' ''/api/pages'' (Some (page_json L inp)) (out_struct L (page_fields L) zero_page) zero_page tr"

definition UpdatePage :: "golib \<Rightarrow> client \<Rightarrow> wnet \<Rightarrow> int \<Rightarrow> wiki_page \<Rightarrow> ev list \<Rightarrow> wiki_page answer" where
  "UpdatePage L c n i inp tr =
     do_json L c n ''PUT'' (''/api/pages/'' @ itoa i) (Some (page_json L inp))
       (out_struct L (page_fields L) zero_page) zero_page tr"

definition UploadAttachment ::
  "golib \<Rightarrow> client \<Rightarrow> wnet \<Rightarrow> int \<Rightarrow> string \<Rightarrow> string \<Rightarrow> (neterr + string) \<Rightarrow> ev list \<Rightarrow> attachment answer" where
  "UploadAttachment L c n pageID name fileName r tr =
     doUpload L c n ''POST'' ''/api/attachments'' [(''uploaded_to'', itoa pageID), (''name'', name)]
       ''file'' fileName r (out_struct L attachment_fields zero_attachment) zero_attachment tr"

definition UploadImage ::
  "golib \<Rightarrow> client \<Rightarrow> wnet \<Rightarrow> int \<Rightarrow> string \<Rightarrow> string \<Rightarrow> string \<Rightarrow> (neterr + string) \<Rightarrow> ev list \<Rightarrow> image answer" where
  "UploadImage L c n pageID name imgType fileName r tr =
     doUpload L c n ''POST'' ''/api/image-gallery''
       [(''type'', imgType), (''uploaded_to'', itoa pageID), (''name'', name)]
       ''image'' fileName r (out_struct L image_fields zero_image) zero_image tr"

end
