(* ===== verification/WikiWire.thy ===== *)
theory WikiWire
  imports WikiEntities
begin

text \<open>
  The wire format of the wiki client: decoding an entity from its own encoding gives it back, with
  \<open>omitempty\<close> on the way out and the zero value on the way in.
\<close>

section \<open>Finding the field of a member\<close>

definition field_name :: "string \<Rightarrow> bool" where
  "field_name s \<longleftrightarrow> ascii s \<and> map char_lower s = s"

lemma equal_fold_names:
  assumes "field_name s" and "field_name t"
  shows "equal_fold tab s t \<longleftrightarrow> s = t"
proof
  assume e: "equal_fold tab s t"
  have "char_of (rune_lower tab (of_char c)) = char_lower c" if "(of_char c :: int) < 0x80" for c
    using that by (simp add: char_lower_def rune_lower_def)
  then have "map char_of (map (rune_lower tab) (runes u)) = map char_lower u" if "ascii u" for u
    using that by (auto simp: runes_ascii ascii_def list_all_iff)
  with e assms show "s = t" by (metis equal_fold_def field_name_def)
qed simp

lemma find_member:
  assumes "list_all field_name (map fst fs)" and "field_name k"
  shows "find (\<lambda>f. equal_fold tab (fst f) k) fs = find (\<lambda>f. fst f = k) fs"
  using assms by (induction fs) (simp_all add: equal_fold_names)

lemma tables_named:
  "list_all field_name (map fst (book_fields L))" "list_all field_name (map fst (page_fields L))"
  "list_all field_name (map fst (chapter_fields L))"
  "list_all field_name (map fst attachment_fields)" "list_all field_name (map fst image_fields)"
proof -
  have "list_all field_name
      [''id'', ''book_id'', ''chapter_id'', ''name'', ''slug'', ''description'', ''markdown'', ''html'',
       ''priority'', ''revision_count'', ''created_at'', ''updated_at'', ''uploaded_to'', ''external'',
       ''order'', ''url'', ''path'', ''type'']"
    by code_simp
  then show "list_all field_name (map fst (book_fields L))" "list_all field_name (map fst (page_fields L))"
    "list_all field_name (map fst (chapter_fields L))"
    "list_all field_name (map fst attachment_fields)" "list_all field_name (map fst image_fields)"
    by (simp_all add: book_fields_def page_fields_def chapter_fields_def attachment_fields_def
        image_fields_def)
qed

section \<open>One member at a time\<close>

text \<open>The field a table has under a name, when the table's names are field names.\<close>

definition has_field :: "(string \<times> 'a put) list \<Rightarrow> string \<Rightarrow> 'a put \<Rightarrow> bool" where
  "has_field fs k f \<longleftrightarrow>
     list_all field_name (map fst fs) \<and> find (\<lambda>f. fst f = k) fs = Some (k, f)"

lemma has_field_name: "has_field fs k f \<Longrightarrow> field_name k"
  by (auto simp: has_field_def list_all_iff dest!: find_SomeD)

lemma decode_member:
  assumes "has_field fs k f"
  shows "decode_members L fs ((k, j) # kvs) v st =
     (case f j v of
        (v', Fine) \<Rightarrow> decode_members L fs kvs v' st
      | (v', Bad) \<Rightarrow> decode_members L fs kvs v' Bad
      | (v', Stop) \<Rightarrow> (v', Stop))"
proof -
  have "find (\<lambda>f. equal_fold (fold_tab L) (fst f) k) fs = Some (k, f)"
    using assms find_member [of fs k] has_field_name [OF assms] by (simp add: has_field_def)
  then show ?thesis by simp
qed

declare decode_members.simps(2) [simp del]

lemma decode_int:
  assumes "has_field fs k (into_int upd)"
  shows "decode_members L fs ((k, JInt n) # kvs) v st = decode_members L fs kvs (upd (\<lambda>_. n) v) st"
  by (simp add: decode_member [OF assms] into_int_def)

lemma decode_str:
  assumes "has_field fs k (into_str upd)"
  shows "decode_members L fs ((k, JStr s) # kvs) v st = decode_members L fs kvs (upd (\<lambda>_. s) v) st"
  by (simp add: decode_member [OF assms] into_str_def)

lemma decode_bool:
  assumes "has_field fs k (into_bool upd)"
  shows "decode_members L fs ((k, JBool b) # kvs) v st = decode_members L fs kvs (upd (\<lambda>_. b) v) st"
  by (simp add: decode_member [OF assms] into_bool_def)

lemma decode_omit_int:
  assumes "has_field fs k (into_int upd)" and "upd (\<lambda>_. 0) v = v"
  shows "decode_members L fs (omit_int k n @ kvs) v st = decode_members L fs kvs (upd (\<lambda>_. n) v) st"
  using assms(2) by (simp add: omit_int_def decode_int [OF assms(1)])

lemma decode_omit_str:
  assumes "has_field fs k (into_str upd)" and "upd (\<lambda>_. []) v = v"
  shows "decode_members L fs (omit_str k s @ kvs) v st = decode_members L fs kvs (upd (\<lambda>_. s) v) st"
  using assms(2) by (simp add: omit_str_def decode_str [OF assms(1)])

text \<open>A time whose text reads back as itself.\<close>

definition time_stable :: "golib \<Rightarrow> zoned_time \<Rightarrow> bool" where
  "time_stable L t \<longleftrightarrow> (\<exists>s. format_json_time L t = Some s \<and> parse_json_time L s = Some t)"

lemma decode_timed:
  assumes "time_stable L c" and "time_stable L u"
    and "has_field fs ''created_at'' (into_time L upd1)" and "has_field fs ''updated_at'' (into_time L upd2)"
    and "\<And>rest. decode_members L fs (kvs @ rest) zero Fine = decode_members L fs rest v Fine"
  shows "\<exists>j. timed L kvs c u = Some j \<and> decode_struct L fs zero j = (upd2 (\<lambda>_. u) (upd1 (\<lambda>_. c) v), Fine)"
  using assms(1,2,5)
  by (auto simp: time_stable_def timed_def decode_struct_def decode_member [OF assms(3)]
      decode_member [OF assms(4)] into_time_def)

lemmas field_tables = book_fields_def page_fields_def chapter_fields_def attachment_fields_def
  image_fields_def

section \<open>Round trips\<close>

lemma book_roundtrip:
  assumes "time_stable L (bk_CreatedAt b)" and "time_stable L (bk_UpdatedAt b)"
  shows "\<exists>j. book_json L b = Some j \<and> decode_struct L (book_fields L) zero_book j = (b, Fine)"
proof -
  have f: "has_field (book_fields L) ''id'' (into_int bk_ID_update)"
    "has_field (book_fields L) ''name'' (into_str bk_Name_update)"
    "has_field (book_fields L) ''slug'' (into_str bk_Slug_update)"
    "has_field (book_fields L) ''description'' (into_str bk_Description_update)"
    "has_field (book_fields L) ''created_at'' (into_time L bk_CreatedAt_update)"
    "has_field (book_fields L) ''updated_at'' (into_time L bk_UpdatedAt_update)"
    by (simp_all add: has_field_def tables_named) (simp_all add: book_fields_def)
  let ?kvs = "omit_int ''id'' (bk_ID b) @ omit_str ''name'' (bk_Name b) @ omit_str ''slug'' (bk_Slug b)
      @ omit_str ''description'' (bk_Description b)"
  let ?v = "zero_book\<lparr>bk_ID := bk_ID b, bk_Name := bk_Name b, bk_Slug := bk_Slug b,
      bk_Description := bk_Description b\<rparr>"
  have "decode_members L (book_fields L) (?kvs @ rest) zero_book Fine
      = decode_members L (book_fields L) rest ?v Fine" for rest
    by (simp add: decode_omit_int [OF f(1)] decode_omit_str [OF f(2)] decode_omit_str [OF f(3)]
        decode_omit_str [OF f(4)] zero_book_def)
  from decode_timed [OF assms f(5,6) this] show ?thesis
    by - (cases b, simp add: book_json_def zero_book_def)
qed

lemma chapter_roundtrip:
  assumes "time_stable L (ch_CreatedAt c)" and "time_stable L (ch_UpdatedAt c)"
  shows "\<exists>j. chapter_json L c = Some j \<and> decode_struct L (chapter_fields L) zero_chapter j = (c, Fine)"
proof -
  have f: "has_field (chapter_fields L) ''id'' (into_int ch_ID_update)"
    "has_field (chapter_fields L) ''book_id'' (into_int ch_BookID_update)"
    "has_field (chapter_fields L) ''name'' (into_str ch_Name_update)"
    "has_field (chapter_fields L) ''slug'' (into_str ch_Slug_update)"
    "has_field (chapter_fields L) ''description'' (into_str ch_Description_update)"
    "has_field (chapter_fields L) ''priority'' (into_int ch_Priority_update)"
    "has_field (chapter_fields L) ''created_at'' (into_time L ch_CreatedAt_update)"
    "has_field (chapter_fields L) ''updated_at'' (into_time L ch_UpdatedAt_update)"
    by (simp_all add: has_field_def tables_named) (simp_all add: chapter_fields_def)
  let ?kvs = "omit_int ''id'' (ch_ID c) @ omit_int ''book_id'' (ch_BookID c)
      @ omit_str ''name'' (ch_Name c) @ omit_str ''slug'' (ch_Slug c)
      @ omit_str ''description'' (ch_Description c) @ omit_int ''priority'' (ch_Priority c)"
  let ?v = "zero_chapter\<lparr>ch_ID := ch_ID c, ch_BookID := ch_BookID c, ch_Name := ch_Name c,
      ch_Slug := ch_Slug c, ch_Description := ch_Description c, ch_Priority := ch_Priority c\<rparr>"
  have "decode_members L (chapter_fields L) (?kvs @ rest) zero_chapter Fine
      = decode_members L (chapter_fields L) rest ?v Fine" for rest
    by (simp add: decode_omit_int [OF f(1)] decode_omit_int [OF f(2)] decode_omit_str [OF f(3)]
        decode_omit_str [OF f(4)] decode_omit_str [OF f(5)] decode_omit_int [OF f(6)] zero_chapter_def)
  from decode_timed [OF assms f(7,8) this] show ?thesis
    by - (cases c, simp add: chapter_json_def zero_chapter_def)
qed

lemma page_roundtrip:
  assumes "time_stable L (pg_CreatedAt p)" and "time_stable L (pg_UpdatedAt p)"
  shows "\<exists>j. page_json L p = Some j \<and> decode_struct L (page_fields L) zero_page j = (p, Fine)"
proof -
  have f: "has_field (page_fields L) ''id'' (into_int pg_ID_update)"
    "has_field (page_fields L) ''book_id'' (into_int pg_BookID_update)"
    "has_field (page_fields L) ''chapter_id'' (into_int pg_ChapterID_update)"
    "has_field (page_fields L) ''name'' (into_str pg_Name_update)"
    "has_field (page_fields L) ''slug'' (into_str pg_Slug_update)"
    "has_field (page_fields L) ''markdown'' (into_str pg_Markdown_update)"
    "has_field (page_fields L) ''html'' (into_str pg_HTML_update)"
    "has_field (page_fields L) ''priority'' (into_int pg_Priority_update)"
    "has_field (page_fields L) ''revision_count'' (into_int pg_RevisionCount_update)"
    "has_field (page_fields L) ''created_at'' (into_time L pg_CreatedAt_update)"
    "has_field (page_fields L) ''updated_at'' (into_time L pg_UpdatedAt_update)"
    by (simp_all add: has_field_def tables_named) (simp_all add: page_fields_def)
  let ?kvs = "omit_int ''id'' (pg_ID p) @ omit_int ''book_id'' (pg_BookID p)
      @ omit_int ''chapter_id'' (pg_ChapterID p) @ omit_str ''name'' (pg_Name p)
      @ omit_str ''slug'' (pg_Slug p) @ omit_str ''markdown'' (pg_Markdown p)
      @ omit_str ''html'' (pg_HTML p) @ omit_int ''priority'' (pg_Priority p)
      @ omit_int ''revision_count'' (pg_RevisionCount p)"
  let ?v = "zero_page\<lparr>pg_ID := pg_ID p, pg_BookID := pg_BookID p, pg_ChapterID := pg_ChapterID p,
      pg_Name := pg_Name p, pg_Slug := pg_Slug p, pg_Markdown := pg_Markdown p, pg_HTML := pg_HTML p,
      pg_Priority := pg_Priority p, pg_RevisionCount := pg_RevisionCount p\<rparr>"
  have "decode_members L (page_fields L) (?kvs @ rest) zero_page Fine
      = decode_members L (page_fields L) rest ?v Fine" for rest
    by (simp add: decode_omit_int [OF f(1)] decode_omit_int [OF f(2)] decode_omit_int [OF f(3)]
        decode_omit_str [OF f(4)] decode_omit_str [OF f(5)] decode_omit_str [OF f(6)]
        decode_omit_str [OF f(7)] decode_omit_int [OF f(8)] decode_omit_int [OF f(9)] zero_page_def)
  from decode_timed [OF assms f(10,11) this] show ?thesis
    by - (cases p, simp add: page_json_def zero_page_def)
qed

lemma attachment_roundtrip:
  "decode_struct L attachment_fields zero_attachment (attachment_json a) = (a, Fine)"
proof -
  have f: "has_field attachment_fields ''id'' (into_int at_ID_update)"
    "has_field attachment_fields ''name'' (into_str at_Name_update)"
    "has_field attachment_fields ''uploaded_to'' (into_int at_UploadedTo_update)"
    "has_field attachment_fields ''external'' (into_bool at_External_update)"
    "has_field attachment_fields ''order'' (into_int at_Order_update)"
    by (simp_all add: has_field_def tables_named) (simp_all add: attachment_fields_def)
  have "decode_members L attachment_fields (omit_int ''order'' (at_Order a) @ []) v Fine
      = (at_Order_update (\<lambda>_. at_Order a) v, Fine)" if "at_Order_update (\<lambda>_. 0) v = v" for v
    unfolding decode_omit_int [OF f(5) that] by simp
  then show ?thesis
    by (simp add: attachment_json_def decode_struct_def zero_attachment_def decode_omit_int [OF f(1)]
        decode_str [OF f(2)] decode_omit_int [OF f(3)] decode_bool [OF f(4)])
qed

lemma image_roundtrip:
  "decode_struct L image_fields zero_image (image_json i) = (i, Fine)"
proof -
  have f: "has_field image_fields ''id'' (into_int im_ID_update)"
    "has_field image_fields ''name'' (into_str im_Name_update)"
    "has_field image_fields ''url'' (into_str im_URL_update)"
    "has_field image_fields ''path'' (into_str im_Path_update)"
    "has_field image_fields ''type'' (into_str im_Type_update)"
    "has_field image_fields ''uploaded_to'' (into_int im_UploadedTo_update)"
    by (simp_all add: has_field_def tables_named) (simp_all add: image_fields_def)
  have "decode_members L image_fields (omit_int ''uploaded_to'' (im_UploadedTo i) @ []) v Fine
      = (im_UploadedTo_update (\<lambda>_. im_UploadedTo i) v, Fine)" if "im_UploadedTo_update (\<lambda>_. 0) v = v" for v
    unfolding decode_omit_int [OF f(6) that] by simp
  then show ?thesis
    by (simp add: image_json_def decode_struct_def zero_image_def decode_omit_int [OF f(1)]
        decode_str [OF f(2)] decode_omit_str [OF f(3)] decode_omit_str [OF f(4)] decode_omit_str [OF f(5)])
qed


definition sample_book :: book where
  "sample_book = zero_book\<lparr>bk_ID := 5, bk_Name := ''Guide'', bk_CreatedAt := (7, 0)\<rparr>"


end
