(* ===== verification/WikiApi.thy ===== *)
theory WikiApi
  imports WikiEntities WikiRetry
begin

text \<open>
  The interface the command line has to the wiki client, \<open>api\<close> of \<open>services/wiki-cli/flags.go\<close>: its
  fourteen methods as the values of one type, the client's methods as their meaning, and what any
  sequence of calls can ask of the wiki.
\<close>

section \<open>The interface\<close>

datatype api_call =
    CallListBooks | CallGetBook int | CallCreateBook book | CallUpdateBook int book
  | CallListChapters | CallGetChapter int | CallCreateChapter wiki_chapter
  | CallUpdateChapter int wiki_chapter
  | CallListPages | CallGetPage int | CallCreatePage wiki_page | CallUpdatePage int wiki_page
  | CallUploadAttachment int string string "neterr + string"
  | CallUploadImage int string string string "neterr + string"

datatype api_result =
    BookList "book list option" | OneBook book
  | ChapterList "wiki_chapter list option" | OneChapter wiki_chapter
  | PageList "wiki_page list option" | OnePage wiki_page
  | OneAttachment attachment | OneImage image

text \<open>A call that failed has the error; one that did not, its result.\<close>

definition returning ::
  "('a \<Rightarrow> api_result) \<Rightarrow> 'a answer \<Rightarrow> (client_error + api_result) \<times> ev list" where
  "returning f o' =
     (case o' of ((Some e, _), tr) \<Rightarrow> (Err e, tr) | ((None, v), tr) \<Rightarrow> (Ok (f v), tr))"

fun perform ::
  "golib \<Rightarrow> client \<Rightarrow> wnet \<Rightarrow> api_call \<Rightarrow> ev list \<Rightarrow> (client_error + api_result) \<times> ev list" where
  "perform L c n CallListBooks tr = returning BookList (ListBooks L c n tr)"
| "perform L c n (CallGetBook i) tr = returning OneBook (GetBook L c n i tr)"
| "perform L c n (CallCreateBook b) tr = returning OneBook (CreateBook L c n b tr)"
| "perform L c n (CallUpdateBook i b) tr = returning OneBook (UpdateBook L c n i b tr)"
| "perform L c n CallListChapters tr = returning ChapterList (ListChapters L c n tr)"
| "perform L c n (CallGetChapter i) tr = returning OneChapter (GetChapter L c n i tr)"
| "perform L c n (CallCreateChapter ch) tr = returning OneChapter (CreateChapter L c n ch tr)"
| "perform L c n (CallUpdateChapter i ch) tr = returning OneChapter (UpdateChapter L c n i ch tr)"
| "perform L c n CallListPages tr = returning PageList (ListPages L c n tr)"
| "perform L c n (CallGetPage i) tr = returning OnePage (GetPage L c n i tr)"
| "perform L c n (CallCreatePage p) tr = returning OnePage (CreatePage L c n p tr)"
| "perform L c n (CallUpdatePage i p) tr = returning OnePage (UpdatePage L c n i p tr)"
| "perform L c n (CallUploadAttachment pg name f r) tr =
     returning OneAttachment (UploadAttachment L c n pg name f r tr)"
| "perform L c n (CallUploadImage pg name ty f r) tr =
     returning OneImage (UploadImage L c n pg name ty f r tr)"

section \<open>Sanctioned endpoints\<close>

text \<open>The endpoints of the least-privilege role: reading, creating and updating, two uploads; no
  deletion and no administration.\<close>

fun api_endpoint :: "api_call \<Rightarrow> string \<times> string" where
  "api_endpoint CallListBooks = (''GET'', ''/api/books'')"
| "api_endpoint (CallGetBook i) = (''GET'', ''/api/books/'' @ itoa i)"
| "api_endpoint (CallCreateBook _) = (''POST'', ''/api/books'')"
| "api_endpoint (CallUpdateBook i _) = (''PUT'', ''/api/books/'' @ itoa i)"
| "api_endpoint CallListChapters = (''GET'', ''/api/chapters'')"
| "api_endpoint (CallGetChapter i) = (''GET'', ''/api/chapters/'' @ itoa i)"
| "api_endpoint (CallCreateChapter _) = (''POST'', ''/api/chapters'')"
| "api_endpoint (CallUpdateChapter i _) = (''PUT'', ''/api/chapters/'' @ itoa i)"
| "api_endpoint CallListPages = (''GET'', ''/api/pages'')"
| "api_endpoint (CallGetPage i) = (''GET'', ''/api/pages/'' @ itoa i)"
| "api_endpoint (CallCreatePage _) = (''POST'', ''/api/pages'')"
| "api_endpoint (CallUpdatePage i _) = (''PUT'', ''/api/pages/'' @ itoa i)"
| "api_endpoint (CallUploadAttachment _ _ _ _) = (''POST'', ''/api/attachments'')"
| "api_endpoint (CallUploadImage _ _ _ _ _) = (''POST'', ''/api/image-gallery'')"

lemma endpoint_method: "fst (api_endpoint a) \<in> {''GET'', ''POST'', ''PUT''}"
  by (cases a) simp_all

definition targets :: "string \<Rightarrow> http_req \<Rightarrow> api_call \<Rightarrow> bool" where
  "targets base r a \<longleftrightarrow> rq_method r = fst (api_endpoint a) \<and> rq_url r = base @ snd (api_endpoint a)"

text \<open>The body of a request for a call: the entity, or the form with its fields in any order; a range
  over a map meets every entry once.\<close>

definition range_ok :: "wnet \<Rightarrow> bool" where
  "range_ok n \<longleftrightarrow> (\<forall>tr fs. mset (map_order n tr fs) = mset fs)"

fun body_of :: "golib \<Rightarrow> api_call \<Rightarrow> req_body \<Rightarrow> bool" where
  "body_of L (CallCreateBook b) q = (\<exists>j. book_json L b = Some j \<and> q = JsonBody j)"
| "body_of L (CallUpdateBook _ b) q = (\<exists>j. book_json L b = Some j \<and> q = JsonBody j)"
| "body_of L (CallCreateChapter b) q = (\<exists>j. chapter_json L b = Some j \<and> q = JsonBody j)"
| "body_of L (CallUpdateChapter _ b) q = (\<exists>j. chapter_json L b = Some j \<and> q = JsonBody j)"
| "body_of L (CallCreatePage b) q = (\<exists>j. page_json L b = Some j \<and> q = JsonBody j)"
| "body_of L (CallUpdatePage _ b) q = (\<exists>j. page_json L b = Some j \<and> q = JsonBody j)"
| "body_of L (CallUploadAttachment i name f r) q =
     (\<exists>flds content. mset flds = mset [(''uploaded_to'', itoa i), (''name'', name)]
        \<and> r = Inr content \<and> q = Multipart flds ''file'' f content)"
| "body_of L (CallUploadImage i name ty f r) q =
     (\<exists>flds content. mset flds = mset [(''type'', ty), (''uploaded_to'', itoa i), (''name'', name)]
        \<and> r = Inr content \<and> q = Multipart flds ''image'' f content)"
| "body_of L _ q = (q = NoBody)"

text \<open>One operation adds to the trace requests that are all the same, within the budget.\<close>

definition sends :: "client \<Rightarrow> (neterr + http_req) \<Rightarrow> ev list \<Rightarrow> ev list \<Rightarrow> bool" where
  "sends c build tr tr' \<longleftrightarrow>
     (\<exists>p. tr' = tr @ p \<and> length (reqs p) \<le> nat (cl_maxRetries c + 1)
        \<and> (\<forall>r \<in> set (reqs p). \<exists>req. build = Inr req \<and> r = authorize c req))"

lemma doRaw_sends: "sends c build tr (snd (doRaw L c n meth path build dec zero tr))"
proof (cases "nat (cl_maxRetries c + 1)")
  case 0
  then show ?thesis by (auto simp: sends_def doRaw_def)
next
  case (Suc k)
  show ?thesis
  proof (cases build)
    case (Inl e)
    with Suc show ?thesis
      by (auto simp: sends_def doRaw_def doRaw_loop.simps(2))
  next
    case (Inr req)
    from Suc have "doRaw_loop L c n meth path (Inr req) dec zero (Suc k) 0 None tr
        = doRaw L c n meth path (Inr req) dec zero tr" by (simp add: doRaw_def)
    with doRaw_loop_policy [of "Suc k" None L c n meth path req dec zero 0 tr] obtain p where
      "snd (doRaw L c n meth path (Inr req) dec zero tr) = tr @ p"
      "\<exists>m \<le> Suc k. reqs p = replicate m (authorize c req)"
      by (auto simp: policy_ok_def)
    with Suc show ?thesis by (auto simp: sends_def Inr)
  qed
qed

lemma sends_Nil [simp]: "sends c build tr tr"
  by (auto simp: sends_def)

lemma json_request_shape:
  "json_request L c meth path inp = Inr req \<Longrightarrow>
     rq_method req = meth \<and> rq_url req = cl_baseURL c @ path
     \<and> rq_body req = (case inp of None \<Rightarrow> NoBody | Some j \<Rightarrow> JsonBody j)
     \<and> map_of (rq_header req) ''Authorization'' = None"
  by (auto simp: json_request_def update_conv dest!: newRequest_Some split: option.splits)

lemma upload_request_shape:
  "upload_request L c meth path bnd flds ff f content = Inr req \<Longrightarrow>
     rq_method req = meth \<and> rq_url req = cl_baseURL c @ path
     \<and> rq_body req = Multipart flds ff f content
     \<and> map_of (rq_header req) ''Authorization'' = None"
  by (auto simp: upload_request_def update_conv dest!: newRequest_Some split: option.splits)

lemma authorize_shape:
  "rq_method (authorize c r) = rq_method r" "rq_url (authorize c r) = rq_url r"
  "rq_body (authorize c r) = rq_body r"
  "map_of (rq_header (authorize c r)) ''Authorization'' = Some (''Token '' @ cl_token c)"
  by (simp_all add: authorize_def update_conv)

text \<open>What a call may add to the trace.\<close>

definition confined :: "golib \<Rightarrow> client \<Rightarrow> api_call \<Rightarrow> ev list \<Rightarrow> ev list \<Rightarrow> bool" where
  "confined L c a tr tr' \<longleftrightarrow>
     (\<exists>p. tr' = tr @ p \<and> length (reqs p) \<le> nat (cl_maxRetries c + 1)
        \<and> (\<forall>r \<in> set (reqs p). targets (cl_baseURL c) r a \<and> body_of L a (rq_body r)
             \<and> map_of (rq_header r) ''Authorization'' = Some (''Token '' @ cl_token c)))"

lemma confinedI:
  assumes "sends c build tr tr'"
    and "\<And>req. build = Inr req \<Longrightarrow> rq_method req = fst (api_endpoint a)
          \<and> rq_url req = cl_baseURL c @ snd (api_endpoint a) \<and> body_of L a (rq_body req)"
  shows "confined L c a tr tr'"
  using assms by (fastforce simp: sends_def confined_def targets_def authorize_shape)

lemma snd_returning [simp]: "snd (returning f o') = snd o'"
  by (auto simp: returning_def split: prod.splits option.splits)

lemma do_json_confined:
  assumes "\<And>j. inp = Some (Some j) \<Longrightarrow> body_of L a (JsonBody j)"
    and "inp = None \<Longrightarrow> body_of L a NoBody" and "api_endpoint a = (meth, path)"
  shows "confined L c a tr (snd (do_json L c n meth path inp dec zero tr))"
proof (cases "inp = Some None")
  case True
  then show ?thesis by (auto simp: do_json_def confined_def)
next
  case False
  then obtain i where i: "inp = map_option Some i" by (metis not_None_eq option.map(1) option.map(2))
  then have "do_json L c n meth path inp dec zero tr
      = doRaw L c n meth path (json_request L c meth path i) dec zero tr"
    by (cases i) (simp_all add: do_json_def)
  with doRaw_sends show ?thesis
    by (intro confinedI [of c "json_request L c meth path i"])
      (use assms i in \<open>auto dest!: json_request_shape split: option.splits\<close>)
qed

lemma doUpload_confined:
  assumes "\<And>content fs. r = Inr content \<Longrightarrow> mset fs = mset flds \<Longrightarrow> body_of L a (Multipart fs ff f content)"
    and "api_endpoint a = (meth, path)" and "range_ok n"
  shows "confined L c a tr (snd (doUpload L c n meth path flds ff f r dec zero tr))"
proof (cases r)
  case (Inl e)
  then show ?thesis by (auto simp: doUpload_def confined_def)
next
  case (Inr content)
  with doRaw_sends show ?thesis
    by (intro confinedI [of c "upload_request L c meth path (boundary n tr) (map_order n tr flds) ff f content"])
      (use assms in \<open>auto simp: doUpload_def range_ok_def dest!: upload_request_shape\<close>)
qed

lemma snd_list_data [simp]: "snd (list_data o') = snd o'"
  by (auto simp: list_data_def split: prod.splits option.splits)

lemmas endpoint_defs = ListBooks_def ListChapters_def ListPages_def GetBook_def CreateBook_def
  UpdateBook_def GetChapter_def CreateChapter_def
  UpdateChapter_def GetPage_def CreatePage_def UpdatePage_def UploadAttachment_def UploadImage_def

lemma perform_confined: "range_ok n \<Longrightarrow> confined L c a tr (snd (perform L c n a tr))"
  by (cases a)
    (auto simp: endpoint_defs intro!: do_json_confined doUpload_confined)

section \<open>The contract\<close>

text \<open>What a user of the interface may rely on: a call only adds to the trace, and its requests are
  within a budget and of the kind the call allows. The consequences for a sequence of calls.\<close>

primrec perform_all ::
  "(api_call \<Rightarrow> ev list \<Rightarrow> 'r \<times> ev list) \<Rightarrow> api_call list \<Rightarrow> ev list \<Rightarrow> ev list" where
  "perform_all call [] tr = tr"
| "perform_all call (a # as) tr = perform_all call as (snd (call a tr))"

definition reading :: "api_call \<Rightarrow> bool" where
  "reading a \<longleftrightarrow> fst (api_endpoint a) = ''GET''"

locale wiki_api =
  fixes call :: "api_call \<Rightarrow> ev list \<Rightarrow> 'r \<times> ev list"
    and allowed :: "api_call \<Rightarrow> http_req \<Rightarrow> bool"
    and budget :: nat
  assumes call_allowed:
      "\<exists>p. snd (call a tr) = tr @ p \<and> length (reqs p) \<le> budget \<and> (\<forall>r \<in> set (reqs p). allowed a r)"
    and allowed_method: "allowed a r \<Longrightarrow> rq_method r = fst (api_endpoint a)"
begin

lemma run_allowed:
  "\<exists>p. perform_all call as tr = tr @ p \<and> length (reqs p) \<le> budget * length as
     \<and> (\<forall>r \<in> set (reqs p). \<exists>a \<in> set as. allowed a r)"
proof (induction as arbitrary: tr)
  case Nil
  then show ?case by (intro exI [of _ "[]"]) simp
next
  case (Cons a as)
  obtain p where p: "snd (call a tr) = tr @ p" "length (reqs p) \<le> budget"
    "\<forall>r \<in> set (reqs p). allowed a r" using call_allowed by blast
  obtain q where q: "perform_all call as (tr @ p) = (tr @ p) @ q" "length (reqs q) \<le> budget * length as"
    "\<forall>r \<in> set (reqs q). \<exists>a \<in> set as. allowed a r" using Cons.IH by blast
  from p q show ?case by (intro exI [of _ "p @ q"]) auto
qed

text \<open>No call deletes, and calls that read never write.\<close>

lemma methods_of_run:
  assumes "perform_all call as tr = tr @ p" and "r \<in> set (reqs p)"
  shows "rq_method r \<in> {''GET'', ''POST'', ''PUT''}"
    and "list_all reading as \<Longrightarrow> rq_method r = ''GET''"
proof -
  from run_allowed [of as tr] assms obtain a where a: "a \<in> set as" "allowed a r" by auto
  then show "rq_method r \<in> {''GET'', ''POST'', ''PUT''}" using endpoint_method [of a] allowed_method by simp
  from a show "list_all reading as \<Longrightarrow> rq_method r = ''GET''"
    by (auto simp: reading_def list_all_iff dest: allowed_method)
qed

end

text \<open>The client provides it, with \<open>maxRetries + 1\<close> requests per call, all to the endpoint of the call
  under the base URL, with its body and the token in the one header.\<close>

definition client_allows :: "golib \<Rightarrow> client \<Rightarrow> api_call \<Rightarrow> http_req \<Rightarrow> bool" where
  "client_allows L c a r \<longleftrightarrow> targets (cl_baseURL c) r a \<and> body_of L a (rq_body r)
     \<and> map_of (rq_header r) ''Authorization'' = Some (''Token '' @ cl_token c)"

definition fair_range :: "wnet \<Rightarrow> wnet" where
  "fair_range n = n\<lparr>map_order := (\<lambda>tr fs. if mset (map_order n tr fs) = mset fs
                                        then map_order n tr fs else fs)\<rparr>"

lemma fair_range_ok [simp]: "range_ok (fair_range n)"
  by (simp add: range_ok_def fair_range_def)

lemma fair_range_id: "range_ok n \<Longrightarrow> fair_range n = n"
  by (simp add: range_ok_def fair_range_def)

interpretation wc: wiki_api "perform L c (fair_range n)" "client_allows L c" "nat (cl_maxRetries c + 1)"
  for L c n
proof
  fix a tr
  show "\<exists>p. snd (perform L c (fair_range n) a tr) = tr @ p \<and> length (reqs p) \<le> nat (cl_maxRetries c + 1)
      \<and> (\<forall>r \<in> set (reqs p). client_allows L c a r)"
    using perform_confined [OF fair_range_ok] by (simp add: confined_def client_allows_def)
qed (simp add: client_allows_def targets_def)

text \<open>C34. Whatever sequence of calls is made on the client, the wiki is sent at most
  \<open>maxRetries + 1\<close> requests for each, every one of them to the endpoint of one of the calls below
  the base URL, with that call's body and the token in the \<open>Authorization\<close> header; the methods are
  GET, POST and PUT, and only GET when all calls read.\<close>

theorem client_calls_confined:
  assumes "range_ok n"
  shows "\<exists>p. perform_all (perform L c n) as tr = tr @ p
     \<and> length (reqs p) \<le> nat (cl_maxRetries c + 1) * length as
     \<and> (\<forall>r \<in> set (reqs p). (\<exists>a \<in> set as. client_allows L c a r)
          \<and> rq_method r \<in> {''GET'', ''POST'', ''PUT''}
          \<and> (list_all reading as \<longrightarrow> rq_method r = ''GET''))"
  using wc.run_allowed [of L c n as tr] wc.methods_of_run [of L c n as tr]
  unfolding fair_range_id [OF assms] by blast

theorem client_calls_confined_witness:
  "range_ok flaky_net
   \<and> map (\<lambda>r. (rq_method r, rq_url r))
       (reqs (perform_all (perform sample_lib sample_client flaky_net) [CallGetBook 5, CallListPages] []))
     = [(''GET'', ''https://wiki/api/books/5''), (''GET'', ''https://wiki/api/books/5''),
        (''GET'', ''https://wiki/api/pages'')]
   \<and> list_all (\<lambda>r. rq_method r = ''GET'')
       (reqs (perform_all (perform sample_lib sample_client flaky_net) [CallGetBook 5, CallListPages] []))"
proof -
  let ?tr = "perform_all (perform sample_lib sample_client flaky_net) [CallGetBook 5, CallListPages] []"
  have r: "range_ok flaky_net" by (simp add: range_ok_def flaky_net_def)
  have e: "map (\<lambda>r. (rq_method r, rq_url r)) (reqs ?tr)
      = [(''GET'', ''https://wiki/api/books/5''), (''GET'', ''https://wiki/api/books/5''),
         (''GET'', ''https://wiki/api/pages'')]"
    by code_simp
  have "list_all reading [CallGetBook 5, CallListPages]" by (simp add: reading_def)
  with client_calls_confined [OF r, of sample_lib sample_client "[CallGetBook 5, CallListPages]" "[]"]
  have "\<forall>r \<in> set (reqs ?tr). rq_method r = ''GET''" by (auto simp del: perform_all.simps)
  with r e show ?thesis by (simp add: list_all_iff del: perform_all.simps)
qed

end
