(* ===== verification/WikiToken.thy ===== *)
theory WikiToken
  imports WikiApi
begin

text \<open>
  The token of the wiki client is a secret: what a call returns, which requests it sends where and
  with which body, what it logs and how long it waits do not depend on it. Two runs are compared
  that differ in the token alone, up to the \<open>Authorization\<close> header.
\<close>

section \<open>What an observer without the header sees\<close>

definition blank_req :: "http_req \<Rightarrow> http_req" where
  "blank_req r = r\<lparr>rq_header := AList.delete ''Authorization'' (rq_header r)\<rparr>"

primrec blank_ev :: "ev \<Rightarrow> ev" where
  "blank_ev (Req r) = Req (blank_req r)"
| "blank_ev (Sleep d) = Sleep d"
| "blank_ev (RetryLog m p a s t) = RetryLog m p a s t"

abbreviation blank :: "ev list \<Rightarrow> ev list" where
  "blank \<equiv> map blank_ev"

text \<open>Neither the wiki (which takes either token) nor the machine looks at the token.\<close>

definition token_blind :: "wnet \<Rightarrow> bool" where
  "token_blind n \<longleftrightarrow>
     (\<forall>tr tr' r r'. blank tr = blank tr' \<longrightarrow> blank_req r = blank_req r' \<longrightarrow>
        wiki_do n tr r = wiki_do n tr' r')
     \<and> (\<forall>tr tr'. blank tr = blank tr' \<longrightarrow>
        wait n tr = wait n tr' \<and> rand_below n tr = rand_below n tr' \<and> boundary n tr = boundary n tr'
        \<and> map_order n tr = map_order n tr')"

text \<open>Two outcomes that differ in the header at most.\<close>

definition same_but_token :: "'a \<times> ev list \<Rightarrow> 'a \<times> ev list \<Rightarrow> bool" where
  "same_but_token x y \<longleftrightarrow> fst x = fst y \<and> blank (snd x) = blank (snd y)"

lemma same_but_token_simps [simp]:
  "same_but_token (v, tr) (v', tr') \<longleftrightarrow> v = v' \<and> blank tr = blank tr'"
  by (simp add: same_but_token_def)

lemma blank_authorize: "blank_req (authorize c r) = blank_req (authorize (c\<lparr>cl_token := t\<rparr>) r)"
  by (simp add: authorize_def blank_req_def delete_update delete_update_same)

section \<open>Runs in step\<close>

lemma token_blindD:
  assumes "token_blind n" and "blank tr = blank tr'"
  shows "wait n tr = wait n tr'" and "rand_below n tr = rand_below n tr'"
    and "boundary n tr = boundary n tr'" and "map_order n tr = map_order n tr'"
    and "blank_req r = blank_req r' \<Longrightarrow> wiki_do n tr r = wiki_do n tr' r'"
  using assms unfolding token_blind_def by blast+

lemma jitter_blind:
  "token_blind n \<Longrightarrow> blank tr = blank tr' \<Longrightarrow> jitter n tr d = jitter n tr' d"
  by (simp add: jitter_def token_blindD(2) [of n tr tr'])

lemma logRetry_blind:
  "blank tr = blank tr' \<Longrightarrow> blank (logRetry c m p a s e tr) = blank (logRetry (c\<lparr>cl_token := t\<rparr>) m p a s e tr')"
  by (simp add: logRetry_def)

lemma backoff_blind:
  assumes "token_blind n" and "blank tr = blank tr'"
  shows "same_but_token (backoff c n a tr) (backoff (c\<lparr>cl_token := t\<rparr>) n a tr')"
proof -
  let ?d = "backoff_delay (cl_baseDelay c) a"
  have "jitter n tr ?d = jitter n tr' ?d" by (rule jitter_blind [OF assms])
  moreover have "wait n tr = wait n tr'" by (rule token_blindD(1) [OF assms])
  ultimately show ?thesis using assms(2) by (simp add: backoff_def Let_def)
qed

lemma doRaw_loop_blind:
  assumes n: "token_blind n"
  shows "blank tr = blank tr' \<Longrightarrow>
    same_but_token (doRaw_loop L c n meth path build dec zero k attempt lastErr tr)
      (doRaw_loop L (c\<lparr>cl_token := t\<rparr>) n meth path build dec zero k attempt lastErr tr')"
proof (induction k arbitrary: attempt lastErr tr tr')
  case 0
  then show ?case by simp
next
  case (Suc k)
  let ?c = "c\<lparr>cl_token := t\<rparr>"
  let ?b = "if attempt > 0 then backoff c n attempt tr else (None, tr)"
  let ?b' = "if attempt > 0 then backoff ?c n attempt tr' else (None, tr')"
  have b: "same_but_token ?b ?b'" using backoff_blind [OF n Suc.prems] Suc.prems by simp
  obtain w u u' where w: "?b = (w, u)" "?b' = (w, u')" "blank u = blank u'"
    using b by (cases ?b; cases ?b') auto
  show ?case
  proof (cases "w = None \<and> (\<exists>req. build = Inr req)")
    case False
    with w show ?thesis
      unfolding doRaw_loop.simps(2) w(1,2) by (cases w; cases build) auto
  next
    case True
    then obtain req where req: "w = None" "build = Inr req" by blast
    let ?r = "authorize c req" and ?r' = "authorize ?c req"
    have r: "blank_req ?r = blank_req ?r'" by (rule blank_authorize)
    have "wiki_do n u ?r = wiki_do n u' ?r'"
      by (rule token_blindD(5) [OF n w(3) r])
    then have same: "wiki_do n u' ?r' = wiki_do n u ?r" by simp
    have tr: "blank (u @ [Req ?r]) = blank (u' @ [Req ?r'])" using w(3) r by simp
    note go = Suc.IH [OF logRetry_blind [OF tr]]
    show ?thesis
    proof (cases "wiki_do n u ?r")
      case (Inl e)
      with same go show ?thesis
        unfolding doRaw_loop.simps(2) w(1,2) req by (simp add: Let_def)
    next
      case (Inr resp)
      with same go tr show ?thesis
        unfolding doRaw_loop.simps(2) w(1,2) req
        by (cases "rs_code resp \<ge> 500"; cases "status_2xx resp") (simp_all add: Let_def)
    qed
  qed
qed

lemma doRaw_blind:
  "token_blind n \<Longrightarrow> blank tr = blank tr' \<Longrightarrow>
    same_but_token (doRaw L c n meth path build dec zero tr)
      (doRaw L (c\<lparr>cl_token := t\<rparr>) n meth path build dec zero tr')"
  by (simp add: doRaw_def doRaw_loop_blind)

lemma do_json_blind:
  assumes "token_blind n" and "blank tr = blank tr'"
  shows "same_but_token (do_json L c n meth path inp dec zero tr)
      (do_json L (c\<lparr>cl_token := t\<rparr>) n meth path inp dec zero tr')"
proof -
  have "json_request L (c\<lparr>cl_token := t\<rparr>) meth path i = json_request L c meth path i" for i
    by (simp add: json_request_def)
  with doRaw_blind [OF assms] assms(2) show ?thesis
    by (auto simp: do_json_def split: option.splits)
qed

lemma doUpload_blind:
  assumes "token_blind n" and "blank tr = blank tr'"
  shows "same_but_token (doUpload L c n meth path flds ff f r dec zero tr)
      (doUpload L (c\<lparr>cl_token := t\<rparr>) n meth path flds ff f r dec zero tr')"
proof -
  have "upload_request L (c\<lparr>cl_token := t\<rparr>) meth path b fs ff f x = upload_request L c meth path b fs ff f x"
    for b fs x by (simp add: upload_request_def)
  moreover have "boundary n tr = boundary n tr'" "map_order n tr = map_order n tr'"
    by (rule token_blindD [OF assms])+
  ultimately show ?thesis using doRaw_blind [OF assms] assms(2)
    by (cases r) (simp_all add: doUpload_def)
qed

lemma same_returning:
  "same_but_token x y \<Longrightarrow> same_but_token (returning f x) (returning f y)"
  by (cases x; cases y) (auto simp: returning_def split: option.splits)

lemma same_list_data:
  "same_but_token x y \<Longrightarrow> same_but_token (list_data x) (list_data y)"
  by (cases x; cases y) (auto simp: list_data_def split: option.splits)

lemma perform_blind:
  assumes "token_blind n" and "blank tr = blank tr'"
  shows "same_but_token (perform L c n a tr) (perform L (c\<lparr>cl_token := t\<rparr>) n a tr')"
  by (cases a)
    (auto simp: endpoint_defs intro!: same_returning same_list_data do_json_blind doUpload_blind assms)

text \<open>C35. The token stays in the one header: against a wiki that answers two tokens alike, a call on
  two clients that differ in the token alone returns the same result or error, sends the same
  requests but for the \<open>Authorization\<close> header, logs the same lines and sleeps the same delays.\<close>

theorem token_confined_to_header:
  assumes "token_blind n" and "blank tr = blank tr'"
  shows "fst (perform L c n a tr) = fst (perform L (c\<lparr>cl_token := t\<rparr>) n a tr')
     \<and> blank (snd (perform L c n a tr)) = blank (snd (perform L (c\<lparr>cl_token := t\<rparr>) n a tr'))"
  using perform_blind [OF assms, of L c a t] by (simp add: same_but_token_def)

lemma reqs_blank: "reqs (blank tr) = map blank_req (reqs tr)"
  by (induction tr rule: reqs.induct) simp_all

lemma flaky_net_blind: "token_blind flaky_net"
proof -
  have silent: "reqs tr = [] \<longleftrightarrow> reqs tr' = []" if "blank tr = blank tr'" for tr tr'
    using reqs_blank [of tr] reqs_blank [of tr'] that by (metis Nil_is_map_conv)
  show ?thesis
    unfolding token_blind_def
  proof (intro conjI allI impI)
    fix tr tr' r r' assume "blank tr = blank tr'"
    from silent [OF this] show "wiki_do flaky_net tr r = wiki_do flaky_net tr' r'"
      by (simp add: flaky_net_def)
  qed (simp_all add: flaky_net_def)
qed

theorem token_confined_to_header_witness:
  "fst (perform sample_lib (sample_client\<lparr>cl_token := ''other:token''\<rparr>) flaky_net (CallGetBook 5) [])
     = Inr (OneBook (zero_book\<lparr>bk_ID := 5, bk_Name := ''Guide''\<rparr>))"
proof -
  from token_confined_to_header [OF flaky_net_blind refl, of sample_lib sample_client "CallGetBook 5" "[]" "''other:token''"]
  have "fst (perform sample_lib (sample_client\<lparr>cl_token := ''other:token''\<rparr>) flaky_net (CallGetBook 5) [])
      = fst (perform sample_lib sample_client flaky_net (CallGetBook 5) [])"
    by simp
  also have "\<dots> = Inr (OneBook (zero_book\<lparr>bk_ID := 5, bk_Name := ''Guide''\<rparr>))"
    by code_simp
  finally show ?thesis .
qed

end
