(* ===== verification/WikiOutcome.thy ===== *)
theory WikiOutcome
  imports WikiApi
begin

text \<open>
  What the result of a call says of the wiki's last answer: each error of the client has the cause it
  names, and a result means a 2xx.
\<close>

definition last_answer :: "wnet \<Rightarrow> ev list \<Rightarrow> ev list \<Rightarrow> http_reply \<Rightarrow> bool" where
  "last_answer n tr0 p ans \<longleftrightarrow>
     (\<exists>a r l. p = a @ Req r # l \<and> reqs l = [] \<and> wiki_do n (tr0 @ a) r = ans)"

text \<open>\<open>p\<close> is what was added to the history \<open>tr0\<close>.\<close>

fun explains :: "wnet \<Rightarrow> ev list \<Rightarrow> ev list \<Rightarrow> client_error option \<Rightarrow> bool" where
  "explains n tr0 p None = (\<exists>resp. last_answer n tr0 p (Inr resp) \<and> status_2xx resp)"
| "explains n tr0 p (Some (API e)) =
     (\<exists>resp. last_answer n tr0 p (Inr resp) \<and> \<not> status_2xx resp \<and> ae_StatusCode e = rs_code resp)"
| "explains n tr0 p (Some (TransportFailed m u e)) = last_answer n tr0 p (Inl e)"
| "explains n tr0 p (Some (DecodeFailed m u)) =
     (\<exists>resp. last_answer n tr0 p (Inr resp) \<and> status_2xx resp)"
| "explains n tr0 p (Some (ContextDone e)) = (\<exists>a d. p = a @ [Sleep d] \<and> wait n (tr0 @ a) d = Some e)"
| "explains n tr0 p (Some _) = False"

lemma last_answerI:
  "wiki_do n (tr0 @ a) r = ans \<Longrightarrow> reqs l = [] \<Longrightarrow> last_answer n tr0 (a @ Req r # l) ans"
  by (auto simp: last_answer_def)

lemma last_answer_append: "last_answer n (tr0 @ q) p ans \<Longrightarrow> last_answer n tr0 (q @ p) ans"
  unfolding last_answer_def by (metis append.assoc)

lemma explains_append: "explains n (tr0 @ q) p err \<Longrightarrow> explains n tr0 (q @ p) err"
  by (cases "(n, tr0, p, err)" rule: explains.cases) (auto dest: last_answer_append)

lemma decode_reply_explained:
  assumes "last_answer n tr0 p (Inr resp)" and "status_2xx resp"
  shows "explains n tr0 p (fst (decode_reply L meth path dec zero body))"
  using assms by (auto simp: decode_reply_def split: option.split prod.split)

lemma doRaw_loop_explained:
  "\<exists>p. snd (doRaw_loop L c n meth path (Inr req) dec zero k attempt lastErr tr) = tr @ p
     \<and> (k = 0 \<and> p = []
          \<and> fst (fst (doRaw_loop L c n meth path (Inr req) dec zero k attempt lastErr tr)) = lastErr
        \<or> explains n tr p (fst (fst (doRaw_loop L c n meth path (Inr req) dec zero k attempt lastErr tr))))"
proof (induction k arbitrary: attempt lastErr tr)
  case 0
  then show ?case by simp
next
  case (Suc k)
  let ?d = "attempt_delay c n attempt tr" and ?r = "authorize c req"
  let ?loop = "\<lambda>err tr. doRaw_loop L c n meth path (Inr req) dec zero k (attempt + 1) (Some err) tr"
  have again: ?case
    if eq: "doRaw_loop L c n meth path (Inr req) dec zero (Suc k) attempt lastErr tr
          = ?loop err (tr @ ?d @ Req ?r # l)"
      and ex: "explains n tr (?d @ Req ?r # l) (Some err)" for err l
  proof -
    let ?q = "?d @ Req ?r # l"
    obtain p where p: "snd (?loop err (tr @ ?q)) = (tr @ ?q) @ p"
      "k = 0 \<and> p = [] \<and> fst (fst (?loop err (tr @ ?q))) = Some err
       \<or> explains n (tr @ ?q) p (fst (fst (?loop err (tr @ ?q))))"
      using Suc.IH [of "attempt + 1" "Some err" "tr @ ?q"] by blast
    from p(2) have "explains n tr (?q @ p) (fst (fst (?loop err (tr @ ?q))))"
      using ex by (elim disjE conjE) (simp, rule explains_append)
    with p(1) show ?thesis unfolding eq by (intro exI [of _ "?q @ p"]) simp
  qed
  show ?case
  proof (cases "attempt > 0 \<and> wait n tr (jitter n tr (backoff_delay (cl_baseDelay c) attempt)) \<noteq> None")
    case True
    then obtain e where e: "attempt > 0"
      "wait n tr (jitter n tr (backoff_delay (cl_baseDelay c) attempt)) = Some e" by auto
    then show ?thesis
      by (intro exI [of _ "[Sleep (jitter n tr (backoff_delay (cl_baseDelay c) attempt))]"])
        (simp add: doRaw_loop.simps(2) backoff_def Let_def)
  next
    case False
    then have uncut: "attempt > 0 \<Longrightarrow>
        wait n tr (jitter n tr (backoff_delay (cl_baseDelay c) attempt)) = None" by simp
    note step = doRaw_uncancelled [OF uncut, of L meth path req dec zero k lastErr]
    show ?thesis
    proof (cases "wiki_do n (tr @ ?d) ?r")
      case (Inl e)
      from last_answerI [OF this] Inl step show ?thesis
        by (intro again [of "TransportFailed meth path e" "log_events c meth path attempt 0 True"]) simp_all
    next
      case (Inr resp)
      let ?e = "API (apiErrorFrom L (rs_code resp) (limit_read maxRespBody (rs_body resp)) meth path)"
      have code: "ae_StatusCode (apiErrorFrom L st b m u) = st" for st b m u
        by (simp add: apiErrorFrom_def Let_def split: option.split prod.split)
      consider "rs_code resp \<ge> 500" | "\<not> rs_code resp \<ge> 500" "\<not> status_2xx resp"
        | "\<not> rs_code resp \<ge> 500" "status_2xx resp" by blast
      then show ?thesis
      proof cases
        case 1
        with last_answerI [OF Inr, of "log_events c meth path attempt (rs_code resp) False"]
        have "explains n tr (?d @ Req ?r # log_events c meth path attempt (rs_code resp) False) (Some ?e)"
          by (auto simp: code status_2xx_def intro!: exI [of _ resp])
        with 1 Inr step show ?thesis
          by (intro again [of ?e "log_events c meth path attempt (rs_code resp) False"]) simp_all
      next
        case 2
        with last_answerI [OF Inr, of "[]"] Inr step show ?thesis
          by (intro exI [of _ "?d @ [Req ?r]"]) (auto simp: code)
      next
        case 3
        with decode_reply_explained [OF last_answerI [OF Inr, of "[]"]] Inr step show ?thesis
          by (intro exI [of _ "?d @ [Req ?r]"]) simp
      qed
    qed
  qed
qed

text \<open>Errors that keep a request from being made.\<close>

fun local_error :: "client_error option \<Rightarrow> bool" where
  "local_error (Some (BuildFailed _ _ _)) = True"
| "local_error (Some (MarshalFailed _ _)) = True"
| "local_error (Some (UploadUnreadable _ _)) = True"
| "local_error _ = False"

definition accounted :: "wnet \<Rightarrow> ev list \<Rightarrow> client_error option \<Rightarrow> ev list \<Rightarrow> bool" where
  "accounted n tr err tr' \<longleftrightarrow>
     (\<exists>p. tr' = tr @ p \<and> (explains n tr p err \<or> p = [] \<and> local_error err))"

lemma doRaw_accounted:
  assumes "0 \<le> cl_maxRetries c"
  shows "accounted n tr (fst (fst (doRaw L c n meth path build dec zero tr)))
           (snd (doRaw L c n meth path build dec zero tr))"
proof -
  obtain k where k: "nat (cl_maxRetries c + 1) = Suc k"
    using assms by (metis Suc_nat_eq_nat_zadd1 add.commute)
  show ?thesis
  proof (cases build)
    case (Inl e)
    then show ?thesis
      by (auto simp: accounted_def doRaw_def k doRaw_loop.simps(2))
  next
    case (Inr req)
    from doRaw_loop_explained [of L c n meth path req dec zero "Suc k" 0 None tr] show ?thesis
      by (auto simp: accounted_def doRaw_def k Inr)
  qed
qed

lemma do_json_accounted:
  assumes "0 \<le> cl_maxRetries c"
  shows "accounted n tr (fst (fst (do_json L c n meth path inp dec zero tr)))
           (snd (do_json L c n meth path inp dec zero tr))"
  using doRaw_accounted [OF assms]
  by (auto simp: do_json_def accounted_def split: option.split)

lemma doUpload_accounted:
  assumes "0 \<le> cl_maxRetries c"
  shows "accounted n tr (fst (fst (doUpload L c n meth path flds ff f r dec zero tr)))
           (snd (doUpload L c n meth path flds ff f r dec zero tr))"
  using doRaw_accounted [OF assms]
  by (cases r) (auto simp: doUpload_def accounted_def)

definition error_of :: "client_error + 'a \<Rightarrow> client_error option" where
  "error_of r = (case r of Inl e \<Rightarrow> Some e | Inr _ \<Rightarrow> None)"

lemma error_of_returning [simp]: "error_of (fst (returning f o')) = fst (fst o')"
  by (auto simp: error_of_def returning_def split: prod.splits option.splits)

lemma fst_list_data [simp]: "fst (fst (list_data o')) = fst (fst o')"
  by (auto simp: list_data_def split: prod.splits option.splits)

lemma perform_accounted:
  assumes "0 \<le> cl_maxRetries c"
  shows "accounted n tr (error_of (fst (perform L c n a tr))) (snd (perform L c n a tr))"
  by (cases a)
    (simp_all add: endpoint_defs do_json_accounted [OF assms] doUpload_accounted [OF assms])

end
