(* ===== verification/GoJson.thy ===== *)
theory GoJson
  imports GoLib
begin

text \<open>
  The encoder of \<open>encoding/json\<close> on the values the program writes: \<open>json.Marshal\<close>, and
  \<open>json.MarshalIndent\<close> with an empty prefix and two spaces. Strings are escaped for HTML as Go
  does; a byte that belongs to no rune becomes the escape of the replacement character.
\<close>

definition hex_digit :: "int \<Rightarrow> char" where
  "hex_digit d = (if d < 10 then char_of (48 + d) else char_of (87 + d))"

definition escape_byte :: "int \<Rightarrow> string" where
  "escape_byte b =
     (if b = 92 \<or> b = 34 then [CHR 92, char_of b]
      else if b = 8 then [CHR 92, CHR ''b'']
      else if b = 12 then [CHR 92, CHR ''f'']
      else if b = 10 then [CHR 92, CHR ''n'']
      else if b = 13 then [CHR 92, CHR ''r'']
      else if b = 9 then [CHR 92, CHR ''t'']
      else if b < 32 \<or> b = 60 \<or> b = 62 \<or> b = 38
      then [CHR 92, CHR ''u'', CHR ''0'', CHR ''0'', hex_digit (b div 16), hex_digit (b mod 16)]
      else [char_of b])"

function escape_bytes :: "int list \<Rightarrow> string" where
  "escape_bytes [] = []"
| "escape_bytes (b # bs) =
     (if b < 0x80 then escape_byte b @ escape_bytes bs
      else let (r, w) = decode_rune (b # bs)
           in if r = rune_error \<and> w = 1 then CHR 92 # ''ufffd'' @ escape_bytes bs
              else if r = 0x2028 \<or> r = 0x2029
              then CHR 92 # ''u202'' @ [hex_digit (r mod 16)] @ escape_bytes (drop w (b # bs))
              else map char_of (take w (b # bs)) @ escape_bytes (drop w (b # bs)))"
  by pat_completeness auto
termination
proof (relation "measure length")
  fix b bs x r w
  assume "x = decode_rune (b # bs)" "(r, w) = x"
  then have "1 \<le> w" using decode_rune_width [of "b # bs"] by (metis list.discI snd_conv)
  then show "(drop w (b # bs), b # bs) \<in> measure length"
    and "(drop w (b # bs), b # bs) \<in> measure length" by (simp_all add: less_Suc_eq_le)
qed simp_all

definition json_string :: "string \<Rightarrow> string" where
  "json_string s = CHR 34 # escape_bytes (map of_char s) @ [CHR 34]"

text \<open>\<open>json.Marshal\<close>.\<close>

fun json_text :: "json \<Rightarrow> string" where
  "json_text JNull = ''null''"
| "json_text (JBool b) = (if b then ''true'' else ''false'')"
| "json_text (JInt n) = itoa n"
| "json_text (JNum s) = s"
| "json_text (JStr s) = json_string s"
| "json_text (JArr js) = ''['' @ join '','' (map json_text js) @ '']''"
| "json_text (JObj kvs) =
     ''{'' @ join '','' (map (\<lambda>p. json_string (fst p) @ '':'' @ json_text (snd p)) kvs) @ ''}''"

text \<open>\<open>json.MarshalIndent(v, "", "  ")\<close> at a depth.\<close>

definition newline :: "nat \<Rightarrow> string" where
  "newline depth = CHR 10 # replicate (2 * depth) CHR '' ''"

definition enclose :: "nat \<Rightarrow> char \<Rightarrow> char \<Rightarrow> string list \<Rightarrow> string" where
  "enclose depth l r items =
     (if items = [] then [l, r]
      else l # newline (depth + 1) @ join ('','' @ newline (depth + 1)) items @ newline depth @ [r])"

fun json_indent :: "nat \<Rightarrow> json \<Rightarrow> string" where
  "json_indent depth (JArr js) = enclose depth CHR ''['' CHR '']'' (map (json_indent (depth + 1)) js)"
| "json_indent depth (JObj kvs) =
     enclose depth CHR ''{'' CHR ''}''
       (map (\<lambda>p. json_string (fst p) @ '': '' @ json_indent (depth + 1) (snd p)) kvs)"
| "json_indent depth j = json_text j"

end
