(* ===== verification/CliConfig.thy ===== *)
theory CliConfig
  imports GoFlags WikiEntities
begin

unbundle bit_operations_syntax

text \<open>
  The configuration of the command line, \<open>services/wiki-cli/config.go\<close> with the global flags and the
  errors of \<open>flags.go\<close> and \<open>exitcode.go\<close>: flags before environment before file, the token from the
  environment or a private file only.
\<close>

section \<open>The machine the program runs on\<close>

text \<open>What \<open>os.Stat\<close> says of a path; the permission bits of the mode.\<close>

datatype file_stat = NotExist | StatError string | FileMode int

text \<open>\<open>home\<close> is \<open>os.UserHomeDir\<close>, empty for an error; \<open>os_open\<close> gives an error of \<open>os.Open\<close>;
  \<open>os_read\<close> is \<open>os.ReadFile\<close>, or reading an opened file to its end; \<open>out_error\<close> is the error of a
  write to standard output that fails; \<open>version\<close> is set when the program is built.\<close>

record machine =
  lib :: golib
  getenv :: getenv
  home :: string
  os_stat :: "string \<Rightarrow> file_stat"
  os_read :: "string \<Rightarrow> neterr + string"
  os_open :: "string \<Rightarrow> neterr option"
  out_error :: "neterr option"
  net :: wnet
  version :: string

section \<open>Errors\<close>

datatype cli_error =
    UsageError string
  | PlainError string
  | WriteFailed neterr
  | ClientError client_error

fun cli_error_text :: "golib \<Rightarrow> cli_error \<Rightarrow> string" where
  "cli_error_text L (UsageError t) = t"
| "cli_error_text L (PlainError t) = t"
| "cli_error_text L (WriteFailed e) = e"
| "cli_error_text L (ClientError e) = client_error_text L e"

section \<open>Global flags\<close>

record globalFlags =
  g_json :: bool
  g_baseURL :: string
  g_timeout :: duration
  g_maxRetries :: int
  g_configPath :: string
  g_seen :: "string set"

definition newGlobalFlags :: globalFlags where
  "newGlobalFlags =
     \<lparr>g_json = False, g_baseURL = [], g_timeout = 15 * second, g_maxRetries = 3, g_configPath = [],
      g_seen = {}\<rparr>"

text \<open>The flags \<open>bindGlobal\<close> declares, and what it means that they are bound to the fields of \<open>g\<close>: the
  fields have the values of the flags after parsing.\<close>

definition bindGlobal :: "globalFlags \<Rightarrow> flags" where
  "bindGlobal g =
     [(''json'', FBool (g_json g)), (''base-url'', FStr (g_baseURL g)), (''timeout'', FDur (g_timeout g)),
      (''max-retries'', FInt (g_maxRetries g)), (''config'', FStr (g_configPath g))]"

definition bound :: "flags \<Rightarrow> globalFlags \<Rightarrow> globalFlags" where
  "bound fs g =
     g\<lparr>g_json := flag_bool fs ''json'', g_baseURL := flag_str fs ''base-url'',
       g_timeout := flag_dur fs ''timeout'', g_maxRetries := flag_int fs ''max-retries'',
       g_configPath := flag_str fs ''config''\<rparr>"

definition markSeen :: "string list \<Rightarrow> globalFlags \<Rightarrow> globalFlags" where
  "markSeen names g = g\<lparr>g_seen := g_seen g \<union> set names\<rparr>"

section \<open>The configuration file\<close>

text \<open>The path and whether it was asked for.\<close>

definition configPath :: "machine \<Rightarrow> globalFlags \<Rightarrow> string \<times> bool" where
  "configPath M g =
     (if ''config'' \<in> g_seen g then (g_configPath g, True)
      else if getenv M ''CCC_WIKI_CONFIG'' \<noteq> [] then (getenv M ''CCC_WIKI_CONFIG'', True)
      else if home M = [] then ([], False)
      else (path_clean (lib M) (home M @ ''/.config/ccc-wiki/config''), False))"

fun config_line :: "string \<Rightarrow> (string \<times> string) list \<Rightarrow> (string \<times> string) list" where
  "config_line raw out =
     (let line = trim_space raw
      in if line = [] \<or> hd line = CHR ''#'' then out
         else case cut_byte CHR ''='' line of
                (k, v, ok) \<Rightarrow> if ok then AList.update (trim_space k) (trim_space v) out else out)"

definition parseConfigFile :: "string \<Rightarrow> (string \<times> string) list" where
  "parseConfigFile s = fold config_line (split_byte CHR 10 s) []"

text \<open>The verb \<open>%04o\<close>, for a mode of at most nine bits.\<close>

definition octal4 :: "int \<Rightarrow> string" where
  "octal4 n = map (\<lambda>i. char_of (48 + drop_bit (3 * i) n AND 7)) [3, 2, 1, 0]"

definition loadConfigFile :: "machine \<Rightarrow> string \<Rightarrow> bool \<Rightarrow> cli_error + (string \<times> string) list" where
  "loadConfigFile M path explicit =
     (if path = []
      then (if explicit then Err (UsageError ''--config was given an empty path'') else Ok [])
      else case os_stat M path of
             NotExist \<Rightarrow>
               (if explicit then Err (UsageError (''config file '' @ path @ '' does not exist'')) else Ok [])
           | StatError e \<Rightarrow> Err (UsageError (''config file '' @ path @ '': '' @ e))
           | FileMode perm \<Rightarrow>
               (case os_read M path of
                  Inl e \<Rightarrow> Err (UsageError (''read config file '' @ path @ '': '' @ e))
                | Inr b \<Rightarrow>
                    (let vals = parseConfigFile b
                     in if lookup_def [] vals ''WIKI_API_TOKEN'' \<noteq> [] \<and> perm AND 63 \<noteq> 0
                        then Err (UsageError (''config file '' @ path
                               @ '' holds a token but is accessible by group/others (mode '' @ octal4 perm
                               @ ''); run: chmod 600 '' @ path))
                        else Ok vals)))"

definition displayPath :: "string \<Rightarrow> string" where
  "displayPath path = (if path = [] then ''no config file path resolved'' else path)"

section \<open>Resolution\<close>

text \<open>A present setting, or else the next source.\<close>

definition first_of :: "string \<Rightarrow> string \<Rightarrow> string" where
  "first_of a b = (if a \<noteq> [] then a else b)"

definition resolveConfig :: "machine \<Rightarrow> globalFlags \<Rightarrow> cli_error + wiki_config" where
  "resolveConfig M g =
     (case configPath M g of (path, explicit) \<Rightarrow>
       (case loadConfigFile M path explicit of
          Inl e \<Rightarrow> Err e
        | Inr fileVals \<Rightarrow>
           (let baseURL = lookup_def [] fileVals ''WIKI_BASE_URL'';
                baseURL = first_of (getenv M ''WIKI_BASE_URL'') baseURL;
                baseURL = (if ''base-url'' \<in> g_seen g then g_baseURL g else baseURL);
                token = lookup_def [] fileVals ''WIKI_API_TOKEN'';
                token = first_of (getenv M ''WIKI_API_TOKEN'') token;
                t = getenv M ''WIKI_HTTP_TIMEOUT'';
                r = getenv M ''WIKI_MAX_RETRIES''
            in if t \<noteq> [] \<and> parse_duration (lib M) t = None
               then Err (PlainError (''WIKI_HTTP_TIMEOUT='' @ go_quote (lib M) t
                           @ '' is not a duration (e.g. 15s, 200ms)''))
               else
                 (let timeout = (if t \<noteq> [] then the (parse_duration (lib M) t) else 15 * second);
                      timeout = (if ''timeout'' \<in> g_seen g then g_timeout g else timeout)
                  in if r \<noteq> [] \<and> atoi r = None
                     then Err (PlainError (''WIKI_MAX_RETRIES='' @ go_quote (lib M) r @ '' is not an integer''))
                     else
                       (let maxRetries = (if r \<noteq> [] then the (atoi r) else 3);
                            maxRetries = (if ''max-retries'' \<in> g_seen g then g_maxRetries g else maxRetries)
                        in if baseURL = []
                           then Err (PlainError (''no wiki base URL: set WIKI_BASE_URL, pass --base-url, ''
                                       @ ''or add WIKI_BASE_URL to the config file''))
                           else if token = []
                           then Err (PlainError (''no API token: set WIKI_API_TOKEN, or add WIKI_API_TOKEN ''
                                       @ ''to a 0600 config file ('' @ displayPath path @ '')''))
                           else Ok \<lparr>wc_BaseURL = baseURL, wc_Token = token, wc_HTTPTimeout = timeout,
                                    wc_MaxRetries = maxRetries,
                                    wc_RetryBaseDelay = 200 * millisecond\<rparr>)))))"

end
