(* ===== verification/CliOutput.thy ===== *)
theory CliOutput
  imports CliConfig GoJson WikiApi
begin

text \<open>
  What the command line prints and returns: \<open>services/wiki-cli/render.go\<close> and \<open>exitcode.go\<close>. Standard
  output is a byte string; standard error is a list of texts and of the default usages of flag sets,
  whose layout the package \<open>flag\<close> decides.
\<close>

section \<open>Results\<close>

fun normalizeJSONList :: "api_result \<Rightarrow> api_result" where
  "normalizeJSONList (BookList None) = BookList (Some [])"
| "normalizeJSONList (ChapterList None) = ChapterList (Some [])"
| "normalizeJSONList (PageList None) = PageList (Some [])"
| "normalizeJSONList v = v"

definition list_json :: "('a \<Rightarrow> json option) \<Rightarrow> 'a list option \<Rightarrow> json option" where
  "list_json enc l =
     (case l of None \<Rightarrow> Some JNull | Some xs \<Rightarrow> map_option JArr (those (map enc xs)))"

fun result_json :: "golib \<Rightarrow> api_result \<Rightarrow> json option" where
  "result_json L (BookList l) = list_json (book_json L) l"
| "result_json L (OneBook b) = book_json L b"
| "result_json L (ChapterList l) = list_json (chapter_json L) l"
| "result_json L (OneChapter c) = chapter_json L c"
| "result_json L (PageList l) = list_json (page_json L) l"
| "result_json L (OnePage p) = page_json L p"
| "result_json L (OneAttachment a) = Some (attachment_json a)"
| "result_json L (OneImage i) = Some (image_json i)"

definition line :: "string list \<Rightarrow> string" where
  "line ws = concat ws @ [CHR 10]"

abbreviation tab :: string where "tab \<equiv> [CHR 9]"

text \<open>The lines of a list, or one that says it is empty.\<close>

definition human_list :: "string \<Rightarrow> ('a \<Rightarrow> string) \<Rightarrow> 'a list option \<Rightarrow> string" where
  "human_list none row l =
     (case l of None \<Rightarrow> line [none]
              | Some xs \<Rightarrow> if xs = [] then line [none] else concat (map row xs))"

fun human :: "api_result \<Rightarrow> string" where
  "human (OneBook b) =
     line [''book '', itoa (bk_ID b), ''  '', bk_Name b, ''  (slug: '', bk_Slug b, '')'']"
| "human (OneChapter c) =
     line [''chapter '', itoa (ch_ID c), ''  '', ch_Name c, ''  (slug: '', ch_Slug c,
       '', book: '', itoa (ch_BookID c), '')'']"
| "human (OnePage p) =
     line [''page '', itoa (pg_ID p), ''  '', pg_Name p, ''  (slug: '', pg_Slug p,
       '', book: '', itoa (pg_BookID p), '', revisions: '', itoa (pg_RevisionCount p), '')'']"
| "human (OneAttachment a) =
     line [''attachment '', itoa (at_ID a), ''  '', at_Name a, ''  (page: '', itoa (at_UploadedTo a), '')'']"
| "human (OneImage i) =
     line [''image '', itoa (im_ID i), ''  '', im_Name i, ''  ('', im_URL i, '')'']"
| "human (BookList l) =
     human_list ''(no books)'' (\<lambda>b. line [itoa (bk_ID b), tab, bk_Name b, tab, bk_Slug b]) l"
| "human (ChapterList l) =
     human_list ''(no chapters)''
       (\<lambda>c. line [itoa (ch_ID c), tab, ch_Name c, tab, ch_Slug c, tab, ''book:'', itoa (ch_BookID c)]) l"
| "human (PageList l) =
     human_list ''(no pages)''
       (\<lambda>p. line [itoa (pg_ID p), tab, pg_Name p, tab, pg_Slug p, tab, ''book:'', itoa (pg_BookID p)]) l"

text \<open>A write that fails writes nothing here; its error is returned in JSON mode and ignored in human
  mode. The results are the types the command line has, so the default branch (a type without a
  renderer) is not reached.\<close>

definition emit :: "machine \<Rightarrow> string \<Rightarrow> string \<Rightarrow> string" where
  "emit M text out = (if out_error M = None then out @ text else out)"

definition renderResult ::
  "machine \<Rightarrow> bool \<Rightarrow> api_result \<Rightarrow> string \<Rightarrow> cli_error option \<times> string" where
  "renderResult M asJSON v out =
     (if asJSON
      then (case result_json (lib M) (normalizeJSONList v) of
              None \<Rightarrow> (Some (PlainError ''json: unsupported value''), out)
            | Some j \<Rightarrow> (map_option WriteFailed (out_error M), emit M (line [json_indent 0 j]) out))
      else (None, emit M (human v) out))"

section \<open>Exit codes\<close>

definition codeOK :: int where "codeOK = 0"
definition codeError :: int where "codeError = 1"
definition codeUsage :: int where "codeUsage = 2"
definition codeAuth :: int where "codeAuth = 3"
definition codeForbidden :: int where "codeForbidden = 4"
definition codeServer :: int where "codeServer = 5"

text \<open>\<open>errors.Is(err, context.DeadlineExceeded)\<close> or a \<open>net.Error\<close> that is a timeout, in what the error
  wraps.\<close>

fun timed_out :: "golib \<Rightarrow> cli_error \<Rightarrow> bool" where
  "timed_out L (ClientError (ContextDone e)) = net_timeout L e"
| "timed_out L (ClientError (BuildFailed _ _ e)) = net_timeout L e"
| "timed_out L (ClientError (TransportFailed _ _ e)) = net_timeout L e"
| "timed_out L (ClientError (UploadUnreadable _ e)) = net_timeout L e"
| "timed_out L (WriteFailed e) = net_timeout L e"
| "timed_out L _ = False"

definition exitCode :: "golib \<Rightarrow> cli_error option \<Rightarrow> int" where
  "exitCode L err =
     (case err of
        None \<Rightarrow> codeOK
      | Some e \<Rightarrow>
          (case e of
             UsageError _ \<Rightarrow> codeUsage
           | ClientError (API a) \<Rightarrow>
               (if ae_StatusCode a = 401 then codeAuth
                else if ae_StatusCode a = 403 \<or> ae_StatusCode a = 404 then codeForbidden
                else if ae_StatusCode a \<ge> 500 then codeServer
                else codeError)
           | _ \<Rightarrow> if timed_out L e then codeServer else codeError))"

text \<open>The keys of a marshalled Go map are sorted.\<close>

definition error_json :: "golib \<Rightarrow> cli_error \<Rightarrow> json" where
  "error_json L e =
     JObj [(''error'',
       case e of
         ClientError (API a) \<Rightarrow>
           JObj [(''code'', JInt (ae_Code a)), (''message'', JStr (ae_Message a)),
                 (''status'', JInt (ae_StatusCode a))]
       | _ \<Rightarrow> JObj [(''message'', JStr (cli_error_text L e))])]"

datatype chunk = Text string | FlagDefaults string

definition writeError :: "golib \<Rightarrow> bool \<Rightarrow> cli_error \<Rightarrow> chunk list \<Rightarrow> chunk list" where
  "writeError L asJSON e err =
     err @ [Text (if asJSON then line [json_text (error_json L e)]
                  else line [''ccc-wiki: '', cli_error_text L e])]"

end
