(* ===== verification/CliCommands.thy ===== *)
theory CliCommands
  imports CliOutput
begin

text \<open>
  The command line itself: \<open>services/wiki-cli/main.go\<close>, the command context of \<open>flags.go\<close>,
  \<open>input.go\<close> and the fourteen handlers of \<open>books.go\<close>, \<open>chapters.go\<close>, \<open>pages.go\<close> and
  \<open>uploads.go\<close>. A handler takes the arguments and the context and gives its error, if any, and the
  context afterwards; the requests it makes are on the context's trace.
\<close>

section \<open>The command context\<close>

text \<open>Standard input is what the next \<open>io.ReadAll\<close> gives; once read to its end it is empty.
  \<open>cc_cached\<close> is \<open>None\<close> until the client has been resolved.\<close>

record cmd_context =
  cc_g :: globalFlags
  cc_stdout :: string
  cc_stderr :: "chunk list"
  cc_stdin :: "neterr + string"
  cc_cached :: "(cli_error + client) option"
  cc_trace :: "ev list"

type_synonym handler = "machine \<Rightarrow> string list \<Rightarrow> cmd_context \<Rightarrow> cli_error option \<times> cmd_context"

definition newFlagSet :: "cmd_context \<Rightarrow> flags \<Rightarrow> flags" where
  "newFlagSet cc own = bindGlobal (cc_g cc) @ own"

text \<open>What the package \<open>flag\<close> writes when parsing fails: the message, then the usage of the set.\<close>

definition flag_output :: "flag_error \<Rightarrow> chunk list \<Rightarrow> chunk list" where
  "flag_output e usage =
     (case e of HelpRequested \<Rightarrow> usage | FlagError t \<Rightarrow> Text (line [t]) # usage)"

definition parse ::
  "machine \<Rightarrow> string \<Rightarrow> flags \<Rightarrow> string list \<Rightarrow> cmd_context \<Rightarrow> (cli_error + flags) \<times> cmd_context" where
  "parse M name own args cc =
     (let p = parse_flags (lib M) (newFlagSet cc own) [] args;
          cc = cc\<lparr>cc_g := bound (pr_flags p) (cc_g cc)\<rparr>
      in case pr_error p of
           Some e \<Rightarrow> (Err (UsageError (flag_error_text e)),
                      cc\<lparr>cc_stderr := cc_stderr cc @ flag_output e [FlagDefaults name]\<rparr>)
         | None \<Rightarrow> (Ok (pr_flags p), cc\<lparr>cc_g := markSeen (pr_set p) (cc_g cc)\<rparr>))"

definition cc_client :: "machine \<Rightarrow> cmd_context \<Rightarrow> (cli_error + client) \<times> cmd_context" where
  "cc_client M cc =
     (case cc_cached cc of
        Some r \<Rightarrow> (r, cc)
      | None \<Rightarrow>
          (let r = (case resolveConfig M (cc_g cc) of
                      Inl e \<Rightarrow> Err e
                    | Inr cfg \<Rightarrow> (case New (lib M) cfg False of Inl e \<Rightarrow> Err (UsageError e) | Inr c \<Rightarrow> Ok c))
           in (r, cc\<lparr>cc_cached := Some r\<rparr>)))"

definition fail :: "string \<Rightarrow> cmd_context \<Rightarrow> cli_error option \<times> cmd_context" where
  "fail msg cc = (Some (UsageError msg), cc)"

text \<open>The end of every handler: obtain the client, make the call, render its result.\<close>

definition ask_wiki :: "machine \<Rightarrow> api_call \<Rightarrow> cmd_context \<Rightarrow> cli_error option \<times> cmd_context" where
  "ask_wiki M a cc =
     (case cc_client M cc of
        (Inl e, cc) \<Rightarrow> (Some e, cc)
      | (Inr c, cc) \<Rightarrow>
          (case perform (lib M) c (net M) a (cc_trace cc) of
             (Inl e, tr) \<Rightarrow> (Some (ClientError e), cc\<lparr>cc_trace := tr\<rparr>)
           | (Inr v, tr) \<Rightarrow>
               (case renderResult M (g_json (cc_g cc)) v (cc_stdout cc) of
                  (err, out) \<Rightarrow> (err, cc\<lparr>cc_trace := tr, cc_stdout := out\<rparr>))))"

section \<open>Inputs\<close>

text \<open>The content and whether a source was given.\<close>

definition readSource ::
  "machine \<Rightarrow> string \<Rightarrow> string \<Rightarrow> cmd_context \<Rightarrow> (cli_error + string \<times> bool) \<times> cmd_context" where
  "readSource M literal file cc =
     (if literal \<noteq> [] \<and> file \<noteq> []
      then (Err (UsageError ''provide either the literal value or the --*-file form, not both''), cc)
      else if file = ''-''
      then (case cc_stdin cc of
              Inl e \<Rightarrow> (Err (UsageError (''read body from stdin: '' @ e)), cc)
            | Inr b \<Rightarrow> (Ok (b, True), cc\<lparr>cc_stdin := Inr []\<rparr>))
      else if file \<noteq> []
      then (case os_read M file of
              Inl e \<Rightarrow> (Err (UsageError (''read body file '' @ file @ '': '' @ e)), cc)
            | Inr b \<Rightarrow> (Ok (b, True), cc))
      else if literal \<noteq> [] then (Ok (literal, True), cc)
      else (Ok ([], False), cc))"

text \<open>After the last slash or backslash; the loop runs from the end.\<close>

definition baseName :: "string \<Rightarrow> string" where
  "baseName path = rev (takeWhile (\<lambda>c. c \<noteq> CHR ''/'' \<and> c \<noteq> CHR 92) (rev path))"

definition openFileArg :: "machine \<Rightarrow> string \<Rightarrow> cli_error + (neterr + string) \<times> string" where
  "openFileArg M path =
     (if path = [] then Err (UsageError ''--file is required'')
      else case os_open M path of
             Some e \<Rightarrow> Err (UsageError (''open '' @ path @ '': '' @ e))
           | None \<Rightarrow> Ok (os_read M path, baseName path))"

section \<open>Handlers\<close>

definition cmdBookList :: handler where
  "cmdBookList M args cc =
     (case parse M ''book list'' [] args cc of
        (Inl e, cc) \<Rightarrow> (Some e, cc)
      | (Inr fs, cc) \<Rightarrow> ask_wiki M CallListBooks cc)"

definition cmdBookGet :: handler where
  "cmdBookGet M args cc =
     (case parse M ''book get'' [(''id'', FInt 0)] args cc of
        (Inl e, cc) \<Rightarrow> (Some e, cc)
      | (Inr fs, cc) \<Rightarrow>
          if flag_int fs ''id'' = 0 then fail ''book get: --id is required'' cc
          else ask_wiki M (CallGetBook (flag_int fs ''id'')) cc)"

definition cmdBookCreate :: handler where
  "cmdBookCreate M args cc =
     (case parse M ''book create'' [(''name'', FStr []), (''description'', FStr [])] args cc of
        (Inl e, cc) \<Rightarrow> (Some e, cc)
      | (Inr fs, cc) \<Rightarrow>
          if flag_str fs ''name'' = [] then fail ''book create: --name is required'' cc
          else ask_wiki M (CallCreateBook (zero_book\<lparr>bk_Name := flag_str fs ''name'',
                 bk_Description := flag_str fs ''description''\<rparr>)) cc)"

definition cmdBookUpdate :: handler where
  "cmdBookUpdate M args cc =
     (case parse M ''book update'' [(''id'', FInt 0), (''name'', FStr []), (''description'', FStr [])] args cc of
        (Inl e, cc) \<Rightarrow> (Some e, cc)
      | (Inr fs, cc) \<Rightarrow>
          if flag_int fs ''id'' = 0 then fail ''book update: --id is required'' cc
          else if flag_str fs ''name'' = [] \<and> flag_str fs ''description'' = []
          then fail ''book update: nothing to change (set --name and/or --description)'' cc
          else ask_wiki M (CallUpdateBook (flag_int fs ''id'') (zero_book\<lparr>bk_Name := flag_str fs ''name'',
                 bk_Description := flag_str fs ''description''\<rparr>)) cc)"

definition cmdChapterList :: handler where
  "cmdChapterList M args cc =
     (case parse M ''chapter list'' [] args cc of
        (Inl e, cc) \<Rightarrow> (Some e, cc)
      | (Inr fs, cc) \<Rightarrow> ask_wiki M CallListChapters cc)"

definition cmdChapterGet :: handler where
  "cmdChapterGet M args cc =
     (case parse M ''chapter get'' [(''id'', FInt 0)] args cc of
        (Inl e, cc) \<Rightarrow> (Some e, cc)
      | (Inr fs, cc) \<Rightarrow>
          if flag_int fs ''id'' = 0 then fail ''chapter get: --id is required'' cc
          else ask_wiki M (CallGetChapter (flag_int fs ''id'')) cc)"

definition cmdChapterCreate :: handler where
  "cmdChapterCreate M args cc =
     (case parse M ''chapter create'' [(''book'', FInt 0), (''name'', FStr []), (''description'', FStr [])]
             args cc of
        (Inl e, cc) \<Rightarrow> (Some e, cc)
      | (Inr fs, cc) \<Rightarrow>
          if flag_int fs ''book'' = 0 then fail ''chapter create: --book is required'' cc
          else if flag_str fs ''name'' = [] then fail ''chapter create: --name is required'' cc
          else ask_wiki M (CallCreateChapter (zero_chapter\<lparr>ch_BookID := flag_int fs ''book'',
                 ch_Name := flag_str fs ''name'', ch_Description := flag_str fs ''description''\<rparr>)) cc)"

definition cmdChapterUpdate :: handler where
  "cmdChapterUpdate M args cc =
     (case parse M ''chapter update'' [(''id'', FInt 0), (''name'', FStr []), (''description'', FStr [])]
             args cc of
        (Inl e, cc) \<Rightarrow> (Some e, cc)
      | (Inr fs, cc) \<Rightarrow>
          if flag_int fs ''id'' = 0 then fail ''chapter update: --id is required'' cc
          else if flag_str fs ''name'' = [] \<and> flag_str fs ''description'' = []
          then fail ''chapter update: nothing to change (set --name and/or --description)'' cc
          else ask_wiki M (CallUpdateChapter (flag_int fs ''id'')
                 (zero_chapter\<lparr>ch_Name := flag_str fs ''name'',
                    ch_Description := flag_str fs ''description''\<rparr>)) cc)"

definition cmdPageList :: handler where
  "cmdPageList M args cc =
     (case parse M ''page list'' [] args cc of
        (Inl e, cc) \<Rightarrow> (Some e, cc)
      | (Inr fs, cc) \<Rightarrow> ask_wiki M CallListPages cc)"

definition cmdPageGet :: handler where
  "cmdPageGet M args cc =
     (case parse M ''page get'' [(''id'', FInt 0)] args cc of
        (Inl e, cc) \<Rightarrow> (Some e, cc)
      | (Inr fs, cc) \<Rightarrow>
          if flag_int fs ''id'' = 0 then fail ''page get: --id is required'' cc
          else ask_wiki M (CallGetPage (flag_int fs ''id'')) cc)"

text \<open>The Markdown and the HTML body of a page, each with whether it was given.\<close>

definition page_bodies ::
  "machine \<Rightarrow> flags \<Rightarrow> cmd_context
     \<Rightarrow> (cli_error + (string \<times> bool) \<times> (string \<times> bool)) \<times> cmd_context" where
  "page_bodies M fs cc =
     (case readSource M (flag_str fs ''markdown'') (flag_str fs ''markdown-file'') cc of
        (Inl e, cc) \<Rightarrow> (Err e, cc)
      | (Inr md, cc) \<Rightarrow>
          (case readSource M (flag_str fs ''html'') (flag_str fs ''html-file'') cc of
             (Inl e, cc) \<Rightarrow> (Err e, cc)
           | (Inr html, cc) \<Rightarrow> (Ok (md, html), cc)))"

definition page_of :: "flags \<Rightarrow> string \<Rightarrow> string \<Rightarrow> wiki_page" where
  "page_of fs md html =
     zero_page\<lparr>pg_BookID := flag_int fs ''book'', pg_ChapterID := flag_int fs ''chapter'',
       pg_Name := flag_str fs ''name'', pg_Markdown := md, pg_HTML := html\<rparr>"

definition cmdPageCreate :: handler where
  "cmdPageCreate M args cc =
     (case parse M ''page create''
             [(''book'', FInt 0), (''chapter'', FInt 0), (''name'', FStr []), (''markdown'', FStr []),
              (''markdown-file'', FStr []), (''html'', FStr []), (''html-file'', FStr [])] args cc of
        (Inl e, cc) \<Rightarrow> (Some e, cc)
      | (Inr fs, cc) \<Rightarrow>
          if flag_str fs ''name'' = [] then fail ''page create: --name is required'' cc
          else if flag_int fs ''book'' = 0 \<and> flag_int fs ''chapter'' = 0
          then fail ''page create: one of --book or --chapter is required'' cc
          else if flag_int fs ''book'' \<noteq> 0 \<and> flag_int fs ''chapter'' \<noteq> 0
          then fail ''page create: provide either --book or --chapter, not both'' cc
          else
            (case page_bodies M fs cc of
               (Inl e, cc) \<Rightarrow> (Some e, cc)
             | (Inr ((mdBody, mdSet), (htmlBody, htmlSet)), cc) \<Rightarrow>
                 if mdSet \<and> htmlSet
                 then fail ''page create: provide either Markdown or HTML, not both'' cc
                 else if \<not> mdSet \<and> \<not> htmlSet
                 then fail (''page create: a body is required ''
                          @ ''(--markdown/--markdown-file or --html/--html-file)'') cc
                 else if mdSet \<and> mdBody = [] \<or> htmlSet \<and> htmlBody = []
                 then fail ''page create: the chosen body source is empty'' cc
                 else ask_wiki M (CallCreatePage (page_of fs mdBody htmlBody)) cc))"

definition cmdPageUpdate :: handler where
  "cmdPageUpdate M args cc =
     (case parse M ''page update''
             [(''id'', FInt 0), (''name'', FStr []), (''book'', FInt 0), (''chapter'', FInt 0),
              (''markdown'', FStr []), (''markdown-file'', FStr []), (''html'', FStr []),
              (''html-file'', FStr [])] args cc of
        (Inl e, cc) \<Rightarrow> (Some e, cc)
      | (Inr fs, cc) \<Rightarrow>
          if flag_int fs ''id'' = 0 then fail ''page update: --id is required'' cc
          else if flag_int fs ''book'' \<noteq> 0 \<and> flag_int fs ''chapter'' \<noteq> 0
          then fail ''page update: move to either --book or --chapter, not both'' cc
          else
            (case page_bodies M fs cc of
               (Inl e, cc) \<Rightarrow> (Some e, cc)
             | (Inr ((mdBody, mdSet), (htmlBody, htmlSet)), cc) \<Rightarrow>
                 if mdSet \<and> htmlSet
                 then fail ''page update: provide either Markdown or HTML, not both'' cc
                 else if mdSet \<and> mdBody = [] \<or> htmlSet \<and> htmlBody = []
                 then fail ''page update: the chosen body source is empty'' cc
                 else if flag_str fs ''name'' = [] \<and> flag_int fs ''book'' = 0 \<and> flag_int fs ''chapter'' = 0
                      \<and> \<not> mdSet \<and> \<not> htmlSet
                 then fail (''page update: nothing to change ''
                          @ ''(set --name, --book, --chapter, or a body)'') cc
                 else ask_wiki M (CallUpdatePage (flag_int fs ''id'') (page_of fs mdBody htmlBody)) cc))"

definition cmdAttachmentUpload :: handler where
  "cmdAttachmentUpload M args cc =
     (case parse M ''attachment upload'' [(''page'', FInt 0), (''name'', FStr []), (''file'', FStr [])]
             args cc of
        (Inl e, cc) \<Rightarrow> (Some e, cc)
      | (Inr fs, cc) \<Rightarrow>
          if flag_int fs ''page'' = 0 then fail ''attachment upload: --page is required'' cc
          else if flag_str fs ''name'' = [] then fail ''attachment upload: --name is required'' cc
          else
            (case openFileArg M (flag_str fs ''file'') of
               Inl e \<Rightarrow> (Some e, cc)
             | Inr (f, fileName) \<Rightarrow>
                 ask_wiki M (CallUploadAttachment (flag_int fs ''page'') (flag_str fs ''name'') fileName f) cc))"

definition cmdImageUpload :: handler where
  "cmdImageUpload M args cc =
     (case parse M ''image upload''
             [(''page'', FInt 0), (''name'', FStr []), (''file'', FStr []), (''type'', FStr ''gallery'')]
             args cc of
        (Inl e, cc) \<Rightarrow> (Some e, cc)
      | (Inr fs, cc) \<Rightarrow>
          if flag_int fs ''page'' = 0 then fail ''image upload: --page is required'' cc
          else if flag_str fs ''name'' = [] then fail ''image upload: --name is required'' cc
          else if flag_str fs ''type'' \<noteq> ''gallery'' \<and> flag_str fs ''type'' \<noteq> ''drawio''
          then fail (''image upload: --type must be gallery or drawio, got ''
                   @ go_quote (lib M) (flag_str fs ''type'')) cc
          else
            (case openFileArg M (flag_str fs ''file'') of
               Inl e \<Rightarrow> (Some e, cc)
             | Inr (f, fileName) \<Rightarrow>
                 ask_wiki M (CallUploadImage (flag_int fs ''page'') (flag_str fs ''name'')
                   (flag_str fs ''type'') fileName f) cc))"

section \<open>Dispatch\<close>

definition commands :: "(string \<times> (string \<times> handler) list) list" where
  "commands =
     [(''book'', [(''list'', cmdBookList), (''get'', cmdBookGet), (''create'', cmdBookCreate),
                 (''update'', cmdBookUpdate)]),
      (''chapter'', [(''list'', cmdChapterList), (''get'', cmdChapterGet), (''create'', cmdChapterCreate),
                 (''update'', cmdChapterUpdate)]),
      (''page'', [(''list'', cmdPageList), (''get'', cmdPageGet), (''create'', cmdPageCreate),
                 (''update'', cmdPageUpdate)]),
      (''attachment'', [(''upload'', cmdAttachmentUpload)]),
      (''image'', [(''upload'', cmdImageUpload)])]"

definition lookup :: "string \<Rightarrow> string \<Rightarrow> handler option" where
  "lookup resource action =
     (case map_of commands resource of None \<Rightarrow> None | Some r \<Rightarrow> map_of r action)"

definition usage_text :: string where
  "usage_text = concat (map (\<lambda>l. l @ [CHR 10]) [
     ''ccc-wiki '' @ [CHR 0xE2, CHR 0x80, CHR 0x94] @ '' headless client for the CCC BookStack wiki'',
     [],
     ''usage: ccc-wiki [global flags] <resource> <action> [action flags]'',
     [],
     ''resources and actions:'',
     ''  book      list | get --id N | create --name S [--description S] | update --id N [...]'',
     ''  chapter   list | get --id N | create --book N --name S [--description S] | update --id N [...]'',
     ''  page      list | get --id N'',
     ''            create --book N|--chapter N --name S (--markdown S|--markdown-file P|--html S|--html-file P)'',
     ''            update --id N [--name S] [body flags]'',
     ''  attachment upload --page N --name S --file P'',
     ''  image      upload --page N --name S --file P [--type gallery|drawio]'',
     [],
     ''  (no delete/admin commands '' @ [CHR 0xE2, CHR 0x80, CHR 0x94] @ '' the Agent author role does not grant them)'',
     [],
     ''global flags:'',
     ''  --json              machine-readable JSON output (errors to stderr)'',
     ''  --base-url URL      wiki base URL (overrides WIKI_BASE_URL)'',
     ''  --timeout D         per-request timeout (default 15s; overrides WIKI_HTTP_TIMEOUT)'',
     ''  --max-retries N     retry budget on 5xx/transport errors (default 3; overrides WIKI_MAX_RETRIES)'',
     ''  --config PATH       config file (default $CCC_WIKI_CONFIG or ~/.config/ccc-wiki/config)'',
     ''  help, version'',
     [],
     ''auth (never a flag '' @ [CHR 0xE2, CHR 0x80, CHR 0x94] @ '' would leak in ps/shell history/CI logs):'',
     ''  WIKI_BASE_URL, WIKI_API_TOKEN ('' @ [CHR 0x22] @ ''<id>:<secret>'' @ [CHR 0x22] @ '') via env, or a 0600 config file.'',
     ''  A body flag'' @ [CHR 0x27] @ ''s '' @ [CHR 0x22] @ ''-'' @ [CHR 0x22] @ '' value (e.g. --markdown-file -) reads from stdin.'',
     [],
     ''exit codes: 0 ok '' @ [CHR 0xC2, CHR 0xB7] @ '' 2 usage/config '' @ [CHR 0xC2, CHR 0xB7] @ '' 3 auth(401) '' @ [CHR 0xC2, CHR 0xB7] @ '' 4 forbidden/not-found(403/404) '' @ [CHR 0xC2, CHR 0xB7] @ '' 5 server(5xx) '' @ [CHR 0xC2, CHR 0xB7] @ '' 1 other''])"

text \<open>What \<open>run\<close> leaves: the exit code, the two outputs and the trace of the client.\<close>

record run_result =
  exit_code :: int
  out_text :: string
  err_text :: "chunk list"
  made :: "ev list"

definition finished :: "int \<Rightarrow> string \<Rightarrow> chunk list \<Rightarrow> run_result" where
  "finished code out err = \<lparr>exit_code = code, out_text = out, err_text = err, made = []\<rparr>"

definition help_words :: "string list" where
  "help_words = [''help'', ''-h'', ''--help'', ''-help'']"

definition version_words :: "string list" where
  "version_words = [''version'', ''--version'', ''-version'']"

text \<open>Up to the handler: the end of the run, or the handler with its arguments and the context.\<close>

definition dispatch ::
  "machine \<Rightarrow> string list \<Rightarrow> (neterr + string) \<Rightarrow> run_result + handler \<times> string list \<times> cmd_context" where
  "dispatch M argv stdin =
     (let g = newGlobalFlags
      in if argv \<noteq> [] \<and> hd argv \<in> set help_words then Inl (finished codeOK (emit M usage_text []) [])
         else if argv \<noteq> [] \<and> hd argv \<in> set version_words
         then Inl (finished codeOK (emit M (line [version M]) []) [])
         else
           (let p = parse_flags (lib M) (bindGlobal g) [] argv
            in case pr_error p of
                 Some HelpRequested \<Rightarrow> Inl (finished codeOK (emit M usage_text []) [])
               | Some e \<Rightarrow> Inl (finished codeUsage [] (flag_output e [] @ [Text usage_text]))
               | None \<Rightarrow>
                   (let g = markSeen (pr_set p) (bound (pr_flags p) g); rest = pr_args p
                    in if rest = [] \<or> hd rest = ''help''
                       then Inl (finished codeOK (emit M usage_text []) [])
                       else if hd rest = ''version''
                       then Inl (finished codeOK (emit M (line [version M]) []) [])
                       else if length rest < 2
                       then Inl (finished codeUsage []
                              [Text (line [''ccc-wiki: expected '', [CHR 39], ''<resource> <action>'',
                                 [CHR 39], ''; run '', [CHR 39], ''ccc-wiki help'', [CHR 39]])])
                       else
                         (case lookup (hd rest) (rest ! 1) of
                            None \<Rightarrow>
                              Inl (finished codeUsage []
                                [Text (line [''ccc-wiki: unknown command '', go_quote (lib M) (hd rest), '' '',
                                   go_quote (lib M) (rest ! 1), ''; run '', [CHR 39], ''ccc-wiki help'',
                                   [CHR 39]])])
                          | Some h \<Rightarrow>
                              Inr (h, drop 2 rest,
                                \<lparr>cc_g = g, cc_stdout = [], cc_stderr = [], cc_stdin = stdin,
                                 cc_cached = None, cc_trace = []\<rparr>)))))"

text \<open>After the handler.\<close>

definition conclude :: "machine \<Rightarrow> cli_error option \<times> cmd_context \<Rightarrow> run_result" where
  "conclude M o' =
     (case o' of
        (Some e, cc) \<Rightarrow>
          \<lparr>exit_code = exitCode (lib M) (Some e), out_text = cc_stdout cc,
           err_text = writeError (lib M) (g_json (cc_g cc)) e (cc_stderr cc), made = cc_trace cc\<rparr>
      | (None, cc) \<Rightarrow>
          \<lparr>exit_code = codeOK, out_text = cc_stdout cc, err_text = cc_stderr cc, made = cc_trace cc\<rparr>)"

definition run :: "machine \<Rightarrow> string list \<Rightarrow> (neterr + string) \<Rightarrow> run_result" where
  "run M argv stdin =
     (case dispatch M argv stdin of
        Inl o' \<Rightarrow> o'
      | Inr (h, args, cc) \<Rightarrow> conclude M (h M args cc))"

end
