(* ===== verification/CliHandlers.thy ===== *)
theory CliHandlers
  imports CliCommands WikiOutcome
begin

text \<open>
  What the handlers of the command line do: each one either fails with a usage error before anything
  is sent, or makes exactly one call, the call of its command, with arguments that passed its checks.
\<close>

section \<open>Calls and commands\<close>

fun command_of :: "api_call \<Rightarrow> string \<times> string" where
  "command_of CallListBooks = (''book'', ''list'')"
| "command_of (CallGetBook _) = (''book'', ''get'')"
| "command_of (CallCreateBook _) = (''book'', ''create'')"
| "command_of (CallUpdateBook _ _) = (''book'', ''update'')"
| "command_of CallListChapters = (''chapter'', ''list'')"
| "command_of (CallGetChapter _) = (''chapter'', ''get'')"
| "command_of (CallCreateChapter _) = (''chapter'', ''create'')"
| "command_of (CallUpdateChapter _ _) = (''chapter'', ''update'')"
| "command_of CallListPages = (''page'', ''list'')"
| "command_of (CallGetPage _) = (''page'', ''get'')"
| "command_of (CallCreatePage _) = (''page'', ''create'')"
| "command_of (CallUpdatePage _ _) = (''page'', ''update'')"
| "command_of (CallUploadAttachment _ _ _ _) = (''attachment'', ''upload'')"
| "command_of (CallUploadImage _ _ _ _ _) = (''image'', ''upload'')"

text \<open>What the checks of the handlers leave: no identifier is 0, nothing is created without a name or
  a place, a page has one body at most, an update changes something.\<close>

fun sensible :: "api_call \<Rightarrow> bool" where
  "sensible (CallGetBook i) \<longleftrightarrow> i \<noteq> 0"
| "sensible (CallCreateBook b) \<longleftrightarrow> bk_Name b \<noteq> []"
| "sensible (CallUpdateBook i b) \<longleftrightarrow> i \<noteq> 0 \<and> (bk_Name b \<noteq> [] \<or> bk_Description b \<noteq> [])"
| "sensible (CallGetChapter i) \<longleftrightarrow> i \<noteq> 0"
| "sensible (CallCreateChapter c) \<longleftrightarrow> ch_BookID c \<noteq> 0 \<and> ch_Name c \<noteq> []"
| "sensible (CallUpdateChapter i c) \<longleftrightarrow> i \<noteq> 0 \<and> (ch_Name c \<noteq> [] \<or> ch_Description c \<noteq> [])"
| "sensible (CallGetPage i) \<longleftrightarrow> i \<noteq> 0"
| "sensible (CallCreatePage p) \<longleftrightarrow>
     pg_Name p \<noteq> [] \<and> (pg_BookID p = 0) \<noteq> (pg_ChapterID p = 0) \<and> (pg_Markdown p = []) \<noteq> (pg_HTML p = [])"
| "sensible (CallUpdatePage i p) \<longleftrightarrow>
     i \<noteq> 0 \<and> (pg_BookID p = 0 \<or> pg_ChapterID p = 0) \<and> (pg_Markdown p = [] \<or> pg_HTML p = [])
     \<and> (pg_Name p \<noteq> [] \<or> pg_BookID p \<noteq> 0 \<or> pg_ChapterID p \<noteq> 0 \<or> pg_Markdown p \<noteq> [] \<or> pg_HTML p \<noteq> [])"
| "sensible (CallUploadAttachment pg name f r) \<longleftrightarrow> pg \<noteq> 0 \<and> name \<noteq> []"
| "sensible (CallUploadImage pg name ty f r) \<longleftrightarrow> pg \<noteq> 0 \<and> name \<noteq> [] \<and> ty \<in> {''gallery'', ''drawio''}"
| "sensible _ \<longleftrightarrow> True"

section \<open>Steps that send nothing\<close>

definition quiet :: "cmd_context \<Rightarrow> cmd_context \<Rightarrow> bool" where
  "quiet cc cc' \<longleftrightarrow>
     cc_trace cc' = cc_trace cc \<and> cc_stdout cc' = cc_stdout cc \<and> cc_stderr cc' = cc_stderr cc
     \<and> cc_cached cc' = cc_cached cc"

text \<open>A usage error, with perhaps a message of the package \<open>flag\<close> before it.\<close>

definition refused :: "cmd_context \<Rightarrow> cli_error option \<times> cmd_context \<Rightarrow> bool" where
  "refused cc out \<longleftrightarrow>
     (\<exists>t cc' msgs. out = (Some (UsageError t), cc'\<lparr>cc_stderr := cc_stderr cc' @ msgs\<rparr>) \<and> quiet cc cc')"

lemma quiet_refl [simp]: "quiet cc cc"
  by (simp add: quiet_def)

lemma quiet_trans: "quiet a b \<Longrightarrow> quiet b c \<Longrightarrow> quiet a c"
  by (simp add: quiet_def)

lemma parse_quiet:
  assumes "parse M name own args cc = (r, cc')"
  shows "r = Inr fs \<Longrightarrow> quiet cc cc'" and "r = Inl e \<Longrightarrow> refused cc (Some e, cc')"
proof -
  let ?p = "parse_flags (lib M) (newFlagSet cc own) [] args"
  let ?cc = "cc\<lparr>cc_g := bound (pr_flags ?p) (cc_g cc)\<rparr>"
  have q: "quiet cc ?cc" by (simp add: quiet_def)
  from assms show "r = Inr fs \<Longrightarrow> quiet cc cc'"
    by (auto simp: parse_def quiet_def Let_def split: option.splits)
  show "refused cc (Some e, cc')" if "r = Inl e"
  proof -
    from assms that obtain x where "e = UsageError (flag_error_text x)"
      "cc' = ?cc\<lparr>cc_stderr := cc_stderr ?cc @ flag_output x [FlagDefaults name]\<rparr>"
      by (auto simp: parse_def Let_def split: option.splits)
    with q show ?thesis unfolding refused_def by blast
  qed
qed

lemma readSource_quiet:
  "readSource M literal file cc = (r, cc') \<Longrightarrow>
     quiet cc cc' \<and> (\<forall>e. r = Inl e \<longrightarrow> (\<exists>t. e = UsageError t)) \<and> (\<forall>b. r = Inr (b, False) \<longrightarrow> b = [])"
  by (auto simp: readSource_def quiet_def split: if_splits sum.splits)

lemma page_bodies_quiet:
  assumes "page_bodies M fs cc = (r, cc')"
  shows "quiet cc cc'" and "r = Inl e \<Longrightarrow> \<exists>t. e = UsageError t"
    and "r = Inr ((m, False), h) \<Longrightarrow> m = []" and "r = Inr (m', (x, False)) \<Longrightarrow> x = []"
proof -
  obtain r1 c1 where 1: "readSource M (flag_str fs ''markdown'') (flag_str fs ''markdown-file'') cc = (r1, c1)"
    by fastforce
  obtain r2 c2 where 2: "readSource M (flag_str fs ''html'') (flag_str fs ''html-file'') c1 = (r2, c2)"
    by fastforce
  note q = readSource_quiet [OF 1] readSource_quiet [OF 2]
  from assms 1 2 q show "quiet cc cc'"
    by (auto simp: page_bodies_def split: sum.splits intro: quiet_trans)
  from assms 1 2 q show "r = Inl e \<Longrightarrow> \<exists>t. e = UsageError t"
    "r = Inr ((m, False), h) \<Longrightarrow> m = []" "r = Inr (m', (x, False)) \<Longrightarrow> x = []"
    by (auto simp: page_bodies_def split: sum.splits)
qed

section \<open>Handlers\<close>

definition does_command ::
  "machine \<Rightarrow> string \<times> string \<Rightarrow> cmd_context \<Rightarrow> cli_error option \<times> cmd_context \<Rightarrow> bool" where
  "does_command M cmd cc out \<longleftrightarrow>
     refused cc out
     \<or> (\<exists>a cc'. out = ask_wiki M a cc' \<and> quiet cc cc' \<and> command_of a = cmd \<and> sensible a)"

lemma handled_usage: "quiet cc cc' \<Longrightarrow> does_command M cmd cc (Some (UsageError t), cc')"
proof -
  assume "quiet cc cc'"
  then show ?thesis
    unfolding does_command_def refused_def
    by (intro disjI1 exI [of _ t] exI [of _ cc'] exI [of _ "[]"]) simp
qed

lemma handled_fail: "quiet cc cc' \<Longrightarrow> does_command M cmd cc (fail t cc')"
  by (simp add: fail_def handled_usage)

lemma handled_request:
  "quiet cc cc' \<Longrightarrow> command_of a = cmd \<Longrightarrow> sensible a \<Longrightarrow> does_command M cmd cc (ask_wiki M a cc')"
  by (auto simp: does_command_def)

lemma handled_parse:
  assumes "\<And>fs cc'. quiet cc cc' \<Longrightarrow> does_command M cmd cc (k fs cc')"
  shows "does_command M cmd cc
    (case parse M name own args cc of (Inl e, cc) \<Rightarrow> (Some e, cc) | (Inr fs, cc) \<Rightarrow> k fs cc)"
proof -
  obtain r cc' where r: "parse M name own args cc = (r, cc')" by fastforce
  from parse_quiet [OF r] assms show ?thesis
    by (cases r) (simp_all add: r does_command_def)
qed

lemma handled_bodies:
  assumes "quiet cc cc0"
    and "\<And>m ms h hs cc'. quiet cc cc' \<Longrightarrow> \<not> ms \<longrightarrow> m = [] \<Longrightarrow> \<not> hs \<longrightarrow> h = [] \<Longrightarrow> does_command M cmd cc (k m ms h hs cc')"
  shows "does_command M cmd cc
    (case page_bodies M fs cc0 of (Inl e, cc) \<Rightarrow> (Some e, cc) | (Inr ((m, ms), (h, hs)), cc) \<Rightarrow> k m ms h hs cc)"
proof -
  obtain r cc' where r: "page_bodies M fs cc0 = (r, cc')" by fastforce
  note q = page_bodies_quiet [OF r]
  show ?thesis
  proof (cases r)
    case (Inl e)
    with q(1,2) assms(1) show ?thesis by (auto simp: r intro: handled_usage quiet_trans)
  next
    case (Inr b)
    obtain m ms h hs where b: "b = ((m, ms), (h, hs))" by (metis surj_pair)
    with Inr q(1,3,4) assms(1) have "does_command M cmd cc (k m ms h hs cc')"
      by (intro assms(2)) (auto intro: quiet_trans)
    with Inr b show ?thesis by (simp add: r)
  qed
qed

lemma handled_guard:
  assumes "quiet cc cc'" and "\<not> b \<Longrightarrow> does_command M cmd cc x"
  shows "does_command M cmd cc (if b then fail t cc' else x)"
  using assms by (auto intro: handled_fail)

lemma handled_file:
  assumes "quiet cc cc0" and "\<And>f name. does_command M cmd cc (k f name cc0)"
  shows "does_command M cmd cc
    (case openFileArg M path of Inl e \<Rightarrow> (Some e, cc0) | Inr (f, name) \<Rightarrow> k f name cc0)"
  using assms by (auto simp: openFileArg_def split: option.split intro: handled_usage)

named_theorems handlers \<open>each handler makes the call of its command\<close>

lemma lists_handled [handlers]:
  "does_command M (''book'', ''list'') cc (cmdBookList M args cc)"
  "does_command M (''chapter'', ''list'') cc (cmdChapterList M args cc)"
  "does_command M (''page'', ''list'') cc (cmdPageList M args cc)"
  unfolding cmdBookList_def cmdChapterList_def cmdPageList_def
  by (rule handled_parse; rule handled_request; simp)+

lemma gets_handled [handlers]:
  "does_command M (''book'', ''get'') cc (cmdBookGet M args cc)"
  "does_command M (''chapter'', ''get'') cc (cmdChapterGet M args cc)"
  "does_command M (''page'', ''get'') cc (cmdPageGet M args cc)"
  unfolding cmdBookGet_def cmdChapterGet_def cmdPageGet_def
  by (rule handled_parse, simp add: handled_fail handled_request)+

lemma books_handled [handlers]:
  "does_command M (''book'', ''create'') cc (cmdBookCreate M args cc)"
  "does_command M (''book'', ''update'') cc (cmdBookUpdate M args cc)"
  unfolding cmdBookCreate_def cmdBookUpdate_def
  by (rule handled_parse, simp add: handled_fail handled_request)+

lemma chapters_handled [handlers]:
  "does_command M (''chapter'', ''create'') cc (cmdChapterCreate M args cc)"
  "does_command M (''chapter'', ''update'') cc (cmdChapterUpdate M args cc)"
  unfolding cmdChapterCreate_def cmdChapterUpdate_def
  by (rule handled_parse, simp add: handled_fail handled_request)+

lemma pages_handled [handlers]:
  "does_command M (''page'', ''create'') cc (cmdPageCreate M args cc)"
  "does_command M (''page'', ''update'') cc (cmdPageUpdate M args cc)"
  unfolding cmdPageCreate_def cmdPageUpdate_def
  by (rule handled_parse, (rule handled_guard, assumption)+, rule handled_bodies, assumption,
      (rule handled_guard, assumption)+, rule handled_request, assumption, simp,
      auto simp: page_of_def)+

lemma uploads_handled [handlers]:
  "does_command M (''attachment'', ''upload'') cc (cmdAttachmentUpload M args cc)"
  "does_command M (''image'', ''upload'') cc (cmdImageUpload M args cc)"
  unfolding cmdAttachmentUpload_def cmdImageUpload_def
  by (rule handled_parse, auto intro!: handled_fail handled_file handled_request)+

lemma lookup_handled:
  assumes "lookup resource action = Some h"
  shows "does_command M (resource, action) cc (h M args cc)"
  using assms by (auto simp: lookup_def commands_def handlers split: if_splits option.splits)

end
