(* ===== verification/CliRuns.thy ===== *)
theory CliRuns
  imports CliHandlers
begin

text \<open>
  Whole runs of the command line: the flags it reads, the sources of its configuration, what a run
  sends and what its exit code says.
\<close>

section \<open>Flags\<close>

lemma bindGlobal_names: "map fst (bindGlobal g) = [''json'', ''base-url'', ''timeout'', ''max-retries'', ''config'']"
  by (simp add: bindGlobal_def)


section \<open>A sample machine\<close>

definition sample_machine :: machine where
  "sample_machine =
     \<lparr>lib = sample_lib,
      getenv = (\<lambda>k. if k = ''WIKI_BASE_URL'' then ''https://wiki'' else []),
      home = ''/home/op'',
      os_stat = (\<lambda>p. if p = ''/home/op/.config/ccc-wiki/config'' then FileMode 384 else NotExist),
      os_read = (\<lambda>p. if p = ''/home/op/.config/ccc-wiki/config''
                     then Inr (''WIKI_API_TOKEN = id:secret'' @ [CHR 10]) else Inl ''no such file''),
      os_open = (\<lambda>_. Some ''no such file''), out_error = None, net = flaky_net, version = ''dev''\<rparr>"

definition sample_context :: cmd_context where
  "sample_context =
     \<lparr>cc_g = newGlobalFlags, cc_stdout = [], cc_stderr = [], cc_stdin = Inr [], cc_cached = None,
      cc_trace = []\<rparr>"

definition sample_flags :: flags where
  "sample_flags =
     [(''json'', FBool True), (''base-url'', FStr []), (''timeout'', FDur (15 * second)),
      (''max-retries'', FInt 3), (''config'', FStr []), (''id'', FInt 16)]"


section \<open>Configuration\<close>

lemma loadConfigFile_token:
  assumes "loadConfigFile M path explicit = Inr vals" and "lookup_def [] vals ''WIKI_API_TOKEN'' \<noteq> []"
  shows "\<exists>perm b. os_stat M path = FileMode perm \<and> perm AND 63 = 0
     \<and> os_read M path = Inr b \<and> vals = parseConfigFile b"
  using assms
  by (auto simp: loadConfigFile_def lookup_def_def Let_def split: if_splits file_stat.splits sum.splits)

lemma resolveConfig_values:
  assumes "resolveConfig M g = Inr c"
  obtains vals where
    "loadConfigFile M (fst (configPath M g)) (snd (configPath M g)) = Inr vals"
    "wc_BaseURL c = (if ''base-url'' \<in> g_seen g then g_baseURL g
        else first_of (getenv M ''WIKI_BASE_URL'') (lookup_def [] vals ''WIKI_BASE_URL''))"
    "wc_Token c = first_of (getenv M ''WIKI_API_TOKEN'') (lookup_def [] vals ''WIKI_API_TOKEN'')"
    "wc_BaseURL c \<noteq> []" "wc_Token c \<noteq> []"
    "wc_HTTPTimeout c = (if ''timeout'' \<in> g_seen g then g_timeout g
        else if getenv M ''WIKI_HTTP_TIMEOUT'' = [] then 15 * second
        else the (parse_duration (lib M) (getenv M ''WIKI_HTTP_TIMEOUT'')))"
    "wc_MaxRetries c = (if ''max-retries'' \<in> g_seen g then g_maxRetries g
        else if getenv M ''WIKI_MAX_RETRIES'' = [] then 3 else the (atoi (getenv M ''WIKI_MAX_RETRIES'')))"
    "\<not> malformed_duration (lib M) (getenv M) ''WIKI_HTTP_TIMEOUT''"
    "\<not> malformed_int (getenv M) ''WIKI_MAX_RETRIES''"
    "wc_RetryBaseDelay c = 200 * millisecond"
proof -
  obtain path explicit where p: "configPath M g = (path, explicit)" by fastforce
  with assms obtain vals where vals: "loadConfigFile M path explicit = Inr vals"
    by (auto simp: resolveConfig_def split: sum.splits)
  let ?u = "if ''base-url'' \<in> g_seen g then g_baseURL g
      else first_of (getenv M ''WIKI_BASE_URL'') (lookup_def [] vals ''WIKI_BASE_URL'')"
  let ?t = "first_of (getenv M ''WIKI_API_TOKEN'') (lookup_def [] vals ''WIKI_API_TOKEN'')"
  let ?d = "getenv M ''WIKI_HTTP_TIMEOUT''" and ?r = "getenv M ''WIKI_MAX_RETRIES''"
  have md: "(?d \<noteq> [] \<and> parse_duration (lib M) ?d = None) = False"
  proof (rule ccontr)
    assume "\<not> ?thesis"
    then have "?d \<noteq> [] \<and> parse_duration (lib M) ?d = None" by blast
    then show False using assms by (simp add: resolveConfig_def p vals Let_def)
  qed
  have mi: "(?r \<noteq> [] \<and> atoi ?r = None) = False"
  proof (rule ccontr)
    assume "\<not> ?thesis"
    then have "?r \<noteq> [] \<and> atoi ?r = None" by blast
    then show False using assms by (simp add: resolveConfig_def p vals Let_def md)
  qed
  note eval = resolveConfig_def p vals Let_def md mi
  let ?c = "\<lparr>wc_BaseURL = ?u, wc_Token = ?t,
      wc_HTTPTimeout = (if ''timeout'' \<in> g_seen g then g_timeout g
        else if getenv M ''WIKI_HTTP_TIMEOUT'' = [] then 15 * second
        else the (parse_duration (lib M) (getenv M ''WIKI_HTTP_TIMEOUT''))),
      wc_MaxRetries = (if ''max-retries'' \<in> g_seen g then g_maxRetries g
        else if getenv M ''WIKI_MAX_RETRIES'' = [] then 3 else the (atoi (getenv M ''WIKI_MAX_RETRIES''))),
      wc_RetryBaseDelay = 200 * millisecond\<rparr>"
  have u: "?u \<noteq> []"
  proof
    assume "?u = []"
    with assms show False by (simp add: eval)
  qed
  have t: "?t \<noteq> []"
  proof
    assume "?t = []"
    with u show False using assms by (simp add: eval)
  qed
  from u t have "resolveConfig M g = Inr ?c" by (simp add: eval)
  with assms have "c = ?c" by simp
  with u t vals md mi show thesis
    by (intro that [of vals]) (simp_all add: p malformed_duration_def malformed_int_def)
qed

text \<open>C37. Where the configuration comes from: an explicit flag before the environment before the file
  for the URL, a flag before the environment before the default for the numbers; the token is the
  environment's, or else that of a file no one but its owner may read; and flags that select the same
  file cannot change it.\<close>

theorem resolveConfig_sources:
  assumes "resolveConfig M g = Inr c"
  shows "\<exists>vals. loadConfigFile M (fst (configPath M g)) (snd (configPath M g)) = Inr vals
     \<and> wc_BaseURL c = (if ''base-url'' \<in> g_seen g then g_baseURL g
          else first_of (getenv M ''WIKI_BASE_URL'') (lookup_def [] vals ''WIKI_BASE_URL''))
     \<and> wc_HTTPTimeout c = (if ''timeout'' \<in> g_seen g then g_timeout g
          else if getenv M ''WIKI_HTTP_TIMEOUT'' = [] then 15 * second
          else the (parse_duration (lib M) (getenv M ''WIKI_HTTP_TIMEOUT'')))
     \<and> wc_MaxRetries c = (if ''max-retries'' \<in> g_seen g then g_maxRetries g
          else if getenv M ''WIKI_MAX_RETRIES'' = [] then 3 else the (atoi (getenv M ''WIKI_MAX_RETRIES'')))
     \<and> (wc_Token c = getenv M ''WIKI_API_TOKEN''
          \<or> (\<exists>perm b. os_stat M (fst (configPath M g)) = FileMode perm \<and> perm AND 63 = 0
               \<and> os_read M (fst (configPath M g)) = Inr b
               \<and> wc_Token c = lookup_def [] (parseConfigFile b) ''WIKI_API_TOKEN''))
     \<and> (\<forall>g' c'. configPath M g' = configPath M g \<longrightarrow> resolveConfig M g' = Inr c'
          \<longrightarrow> wc_Token c' = wc_Token c)"
proof -
  from resolveConfig_values [OF assms] obtain vals where vals:
    "loadConfigFile M (fst (configPath M g)) (snd (configPath M g)) = Inr vals"
    "wc_BaseURL c = (if ''base-url'' \<in> g_seen g then g_baseURL g
        else first_of (getenv M ''WIKI_BASE_URL'') (lookup_def [] vals ''WIKI_BASE_URL''))"
    "wc_Token c = first_of (getenv M ''WIKI_API_TOKEN'') (lookup_def [] vals ''WIKI_API_TOKEN'')"
    "wc_Token c \<noteq> []"
    "wc_HTTPTimeout c = (if ''timeout'' \<in> g_seen g then g_timeout g
        else if getenv M ''WIKI_HTTP_TIMEOUT'' = [] then 15 * second
        else the (parse_duration (lib M) (getenv M ''WIKI_HTTP_TIMEOUT'')))"
    "wc_MaxRetries c = (if ''max-retries'' \<in> g_seen g then g_maxRetries g
        else if getenv M ''WIKI_MAX_RETRIES'' = [] then 3 else the (atoi (getenv M ''WIKI_MAX_RETRIES'')))"
    by blast
  have token: "wc_Token c = getenv M ''WIKI_API_TOKEN''
     \<or> (\<exists>perm b. os_stat M (fst (configPath M g)) = FileMode perm \<and> perm AND 63 = 0
          \<and> os_read M (fst (configPath M g)) = Inr b
          \<and> wc_Token c = lookup_def [] (parseConfigFile b) ''WIKI_API_TOKEN'')"
    using vals(3,4) loadConfigFile_token [OF vals(1)] by (auto simp: first_of_def)
  have "wc_Token c' = wc_Token c" if same: "configPath M g' = configPath M g" and "resolveConfig M g' = Inr c'"
    for g' c'
  proof -
    from resolveConfig_values [OF that(2)] vals(1) obtain vals' where
      "loadConfigFile M (fst (configPath M g)) (snd (configPath M g)) = Inr vals'"
      "wc_Token c' = first_of (getenv M ''WIKI_API_TOKEN'') (lookup_def [] vals' ''WIKI_API_TOKEN'')"
      unfolding same by blast
    with vals(1,3) show ?thesis by simp
  qed
  with vals(1,2,5,6) token show ?thesis by (intro exI [of _ vals]) blast
qed

definition sample_globals :: globalFlags where
  "sample_globals = newGlobalFlags\<lparr>g_maxRetries := 1, g_seen := {''max-retries''}\<rparr>"

theorem resolveConfig_sources_witness:
  "\<exists>c. resolveConfig sample_machine sample_globals = Inr c \<and> wc_Token c = ''id:secret''
     \<and> wc_BaseURL c = ''https://wiki'' \<and> wc_MaxRetries c = 1 \<and> wc_HTTPTimeout c = 15 * second"
proof -
  have r: "resolveConfig sample_machine sample_globals
      = Inr \<lparr>wc_BaseURL = ''https://wiki'', wc_Token = ''id:secret'', wc_HTTPTimeout = 15 * second,
             wc_MaxRetries = 1, wc_RetryBaseDelay = 200 * millisecond\<rparr>"
    by code_simp
  from resolveConfig_sources [OF r] have "(15::int) * second = (if ''timeout'' \<in> g_seen sample_globals
      then g_timeout sample_globals
      else if getenv sample_machine ''WIKI_HTTP_TIMEOUT'' = [] then 15 * second
      else the (parse_duration (lib sample_machine) (getenv sample_machine ''WIKI_HTTP_TIMEOUT'')))"
    by (elim exE conjE) (simp only: wiki_config.simps)
  with r show ?thesis by simp
qed

section \<open>One request\<close>

definition resolved :: "machine \<Rightarrow> globalFlags \<Rightarrow> client \<Rightarrow> bool" where
  "resolved M g c \<longleftrightarrow>
     (\<exists>cfg. resolveConfig M g = Inr cfg \<and> New (lib M) cfg False = Inr c)"

lemma resolved_retries: "resolved M g c \<Longrightarrow> 0 \<le> cl_maxRetries c"
  by (auto simp: resolved_def New_def wiki_validate_None split: option.splits)

text \<open>Its errors are of its own making: nothing of the network is in them.\<close>

definition own_error :: "cli_error + 'a \<Rightarrow> bool" where
  "own_error r \<longleftrightarrow> (\<forall>e. r = Inl e \<longrightarrow> (\<exists>t. e = UsageError t) \<or> (\<exists>t. e = PlainError t))"

lemma own_error_intros:
  "own_error (Inl (UsageError t))" "own_error (Inl (PlainError t))" "own_error (Inr x)"
  "own_error r \<Longrightarrow> own_error r' \<Longrightarrow> own_error (if b then r else r')"
  by (simp_all add: own_error_def)

lemma loadConfigFile_errors: "own_error (loadConfigFile M path explicit)"
  unfolding loadConfigFile_def Let_def
  by (auto intro: own_error_intros simp: own_error_def split: file_stat.split sum.split)

lemma resolveConfig_errors: "own_error (resolveConfig M g)"
proof -
  obtain path explicit where p: "configPath M g = (path, explicit)" by fastforce
  show ?thesis
  proof (cases "loadConfigFile M path explicit")
    case (Inl e)
    with loadConfigFile_errors [of M path explicit] show ?thesis
      by (simp add: resolveConfig_def p own_error_def)
  next
    case (Inr vals)
    show ?thesis
      unfolding resolveConfig_def p prod.case Inr sum.case Let_def by (intro own_error_intros)
  qed
qed

text \<open>The three ways a request ends: no client, an error of the call, a result that is rendered.\<close>

lemma request_cases:
  assumes "cc_cached cc = None"
  obtains (unconfigured) e where "(\<exists>t. e = UsageError t) \<or> (\<exists>t. e = PlainError t)"
      "ask_wiki M a cc = (Some e, cc\<lparr>cc_cached := Some (Inl e)\<rparr>)"
  | (failed) c e tr where "resolved M (cc_g cc) c"
      "perform (lib M) c (net M) a (cc_trace cc) = (Inl e, tr)"
      "ask_wiki M a cc = (Some (ClientError e), cc\<lparr>cc_cached := Some (Inr c), cc_trace := tr\<rparr>)"
  | (answered) c v tr err out where "resolved M (cc_g cc) c"
      "perform (lib M) c (net M) a (cc_trace cc) = (Inr v, tr)"
      "renderResult M (g_json (cc_g cc)) v (cc_stdout cc) = (err, out)"
      "ask_wiki M a cc = (err, cc\<lparr>cc_cached := Some (Inr c), cc_trace := tr, cc_stdout := out\<rparr>)"
proof -
  let ?r = "case resolveConfig M (cc_g cc) of Inl e \<Rightarrow> Inl e
     | Inr cfg \<Rightarrow> (case New (lib M) cfg False of Inl e \<Rightarrow> Inl (UsageError e) | Inr c \<Rightarrow> Inr c)"
  have client: "cc_client M cc = (?r, cc\<lparr>cc_cached := Some ?r\<rparr>)"
    using assms by (simp add: cc_client_def Let_def)
  show thesis
  proof (cases ?r)
    case (Inl e)
    then have "(\<exists>t. e = UsageError t) \<or> (\<exists>t. e = PlainError t)"
      using resolveConfig_errors [of M "cc_g cc"] by (auto simp: own_error_def split: sum.splits)
    with Inl client show thesis by (intro unconfigured [of e]) (simp_all add: ask_wiki_def)
  next
    case (Inr c)
    then have c: "resolved M (cc_g cc) c" by (auto simp: resolved_def split: sum.splits)
    obtain res tr where p: "perform (lib M) c (net M) a (cc_trace cc) = (res, tr)" by fastforce
    show thesis
    proof (cases res)
      case (Inl e)
      with p c client Inr show thesis by (intro failed [of c e tr]) (simp_all add: ask_wiki_def)
    next
      case v: (Inr v)
      obtain err out where "renderResult M (g_json (cc_g cc)) v (cc_stdout cc) = (err, out)" by fastforce
      with v p c client Inr show thesis
        by (intro answered [of c v tr err out]) (simp_all add: ask_wiki_def)
    qed
  qed
qed

end
