(* ===== verification/CliContract.thy ===== *)
theory CliContract
  imports CliRuns
begin

text \<open>
  The contract of the command \<open>ccc-wiki\<close> with its user: what one run sends to the wiki, and what its
  exit code and its outputs tell.
\<close>

section \<open>Cases of a run\<close>

definition fresh :: "cmd_context \<Rightarrow> bool" where
  "fresh cc \<longleftrightarrow> cc_stdout cc = [] \<and> cc_stderr cc = [] \<and> cc_cached cc = None \<and> cc_trace cc = []"

lemma quiet_fresh: "quiet cc cc' \<Longrightarrow> fresh cc \<Longrightarrow> fresh cc'"
  by (simp add: quiet_def fresh_def)

text \<open>The dispatcher ends with 0 or 2, or finds a handler of the table and gives it a fresh context.\<close>

definition dispatch_ok :: "run_result + handler \<times> string list \<times> cmd_context \<Rightarrow> bool" where
  "dispatch_ok d \<longleftrightarrow>
     (case d of
        Inl o' \<Rightarrow> (\<exists>shown. o' = finished codeOK shown []) \<or> (\<exists>err. o' = finished codeUsage [] err \<and> err \<noteq> [])
      | Inr (h, args, cc) \<Rightarrow> fresh cc \<and> (\<exists>resource action. lookup resource action = Some h))"

lemma dispatch_ok_intros:
  "dispatch_ok (Inl (finished codeOK shown []))"
  "err \<noteq> [] \<Longrightarrow> dispatch_ok (Inl (finished codeUsage [] err))"
  "lookup resource action = Some h \<Longrightarrow> fresh cc \<Longrightarrow> dispatch_ok (Inr (h, args, cc))"
  by (auto simp: dispatch_ok_def)

lemma dispatch_ok_branches:
  "(b \<Longrightarrow> dispatch_ok x) \<Longrightarrow> (\<not> b \<Longrightarrow> dispatch_ok y) \<Longrightarrow> dispatch_ok (if b then x else y)"
  "(q = None \<Longrightarrow> dispatch_ok x) \<Longrightarrow> (\<And>v. q = Some v \<Longrightarrow> dispatch_ok (f v)) \<Longrightarrow>
     dispatch_ok (case q of None \<Rightarrow> x | Some v \<Rightarrow> f v)"
  "dispatch_ok x \<Longrightarrow> (\<And>t. dispatch_ok (g t)) \<Longrightarrow>
     dispatch_ok (case e of HelpRequested \<Rightarrow> x | FlagError t \<Rightarrow> g t)"
  by (auto split: option.split flag_error.split)

lemma dispatch_cases: "dispatch_ok (dispatch M argv stdin)"
  unfolding dispatch_def Let_def
  by (intro dispatch_ok_branches dispatch_ok_intros; simp add: fresh_def)

lemma run_dispatch:
  obtains (informed) shown where "run M argv stdin = finished codeOK shown []"
  | (wrong) err where "run M argv stdin = finished codeUsage [] err" "err \<noteq> []"
  | (handler) resource action h args cc where "lookup resource action = Some h" "fresh cc"
      "run M argv stdin = conclude M (h M args cc)"
  using dispatch_cases [of M argv stdin]
  by (cases "dispatch M argv stdin") (auto simp: dispatch_ok_def run_def)

lemma run_cases:
  obtains (informed) shown where "run M argv stdin = finished codeOK shown []"
  | (wrong) "exit_code (run M argv stdin) = codeUsage" "made (run M argv stdin) = []"
      "out_text (run M argv stdin) = []" "err_text (run M argv stdin) \<noteq> []"
  | (request) a cc where "run M argv stdin = conclude M (ask_wiki M a cc)" "fresh cc" "sensible a"
      "lookup (fst (command_of a)) (snd (command_of a)) \<noteq> None"
proof (cases rule: run_dispatch [of M argv stdin])
  case (informed shown)
  then show thesis by (rule that(1))
next
  case (wrong err)
  then show thesis by (intro that(2)) (simp_all add: finished_def)
next
  case (handler resource action h args cc)
  from lookup_handled [OF handler(1)] have "does_command M (resource, action) cc (h M args cc)" .
  then consider "refused cc (h M args cc)"
    | a cc' where "h M args cc = ask_wiki M a cc'" "quiet cc cc'" "command_of a = (resource, action)" "sensible a"
    by (auto simp: does_command_def)
  then show thesis
  proof cases
    case 1
    then obtain t cc' msgs where r: "h M args cc = (Some (UsageError t), cc'\<lparr>cc_stderr := cc_stderr cc' @ msgs\<rparr>)"
      "quiet cc cc'" by (auto simp: refused_def)
    with quiet_fresh [OF r(2) handler(2)] show thesis
      by (intro that(2)) (simp_all add: handler(3) conclude_def fresh_def exitCode_def writeError_def)
  next
    case 2
    with handler quiet_fresh show thesis by (intro that(3) [of a cc']) auto
  qed
qed

section \<open>Effects\<close>



section \<open>Exit codes\<close>

text \<open>The class of an answer that is not a success.\<close>

definition status_class :: "int \<Rightarrow> int" where
  "status_class code =
     (if code = 401 then 3 else if code = 403 \<or> code = 404 then 4 else if code \<ge> 500 then 5 else 1)"

definition exit_says :: "machine \<Rightarrow> http_reply \<Rightarrow> int \<Rightarrow> bool" where
  "exit_says M ans code \<longleftrightarrow>
     (case ans of
        Inl e \<Rightarrow> code = (if net_timeout (lib M) e then 5 else 1)
      | Inr resp \<Rightarrow> if status_2xx resp then code \<in> {0, 1} else code = status_class (rs_code resp))"

lemmas code_defs = codeOK_def codeError_def codeUsage_def codeAuth_def codeForbidden_def codeServer_def

lemma exit_says_simps [simp]:
  "exit_says M (Inl e) code \<longleftrightarrow> code = (if net_timeout (lib M) e then 5 else 1)"
  "exit_says M (Inr resp) code \<longleftrightarrow>
     (if status_2xx resp then code \<in> {0, 1} else code = status_class (rs_code resp))"
  by (simp_all add: exit_says_def)

lemma exit_of_error:
  assumes "explains (net M) [] tr (Some e)" and "\<And>tr d. wait (net M) tr d = None"
  shows "\<exists>ans. last_answer (net M) [] tr ans \<and> exit_says M ans (exitCode (lib M) (Some (ClientError e)))"
proof (cases e)
  case (ContextDone x)
  with assms show ?thesis by simp
next
  case (TransportFailed m u x)
  with assms(1) show ?thesis
    by (intro exI [of _ "Inl x"]) (simp add: exitCode_def code_defs)
next
  case (DecodeFailed m u)
  with assms(1) obtain resp where "last_answer (net M) [] tr (Inr resp)" "status_2xx resp" by auto
  with DecodeFailed show ?thesis
    by (intro exI [of _ "Inr resp"]) (simp add: exitCode_def code_defs)
next
  case (API x)
  with assms(1) obtain resp where "last_answer (net M) [] tr (Inr resp)" "\<not> status_2xx resp"
    "ae_StatusCode x = rs_code resp" by auto
  with API show ?thesis
    by (intro exI [of _ "Inr resp"]) (simp add: exitCode_def code_defs status_class_def)
qed (use assms(1) in simp_all)

lemma exit_of_result:
  assumes "explains (net M) [] tr None" and "err = None \<or> err = Some (PlainError t)"
  shows "\<exists>ans. last_answer (net M) [] tr ans \<and> exit_says M ans (exitCode (lib M) err)"
proof -
  from assms(1) obtain resp where "last_answer (net M) [] tr (Inr resp)" "status_2xx resp" by auto
  with assms(2) show ?thesis
    by (intro exI [of _ "Inr resp"]) (auto simp: exitCode_def code_defs)
qed

lemma renderResult_outcome:
  assumes "renderResult M asJSON v [] = (err, out)" and "out_error M = None"
  shows "err = None \<or> err = Some (PlainError ''json: unsupported value'') \<and> out = []"
  using assms by (auto simp: renderResult_def split: if_splits option.splits)

text \<open>What a run leaves, when it comes to a request.\<close>

definition run_says :: "machine \<Rightarrow> run_result \<Rightarrow> bool" where
  "run_says M o' \<longleftrightarrow>
     (if made o' = [] then exit_code o' \<in> {0, 1, 2, 5}
      else \<exists>ans. last_answer (net M) [] (made o') ans \<and> exit_says M ans (exit_code o'))
     \<and> (if exit_code o' = 0 then err_text o' = [] else out_text o' = [] \<and> err_text o' \<noteq> [])"

lemma exitCode_nonzero: "exitCode L (Some e) \<in> {1, 2, 3, 4, 5}"
  by (auto simp: exitCode_def code_defs split: cli_error.split client_error.split)

lemma local_exit: "local_error (Some e) \<Longrightarrow> exitCode L (Some (ClientError e)) \<in> {1, 5}"
  by (cases e) (auto simp: exitCode_def code_defs)

lemma request_says:
  assumes "fresh cc" and "\<And>tr d. wait (net M) tr d = None" and "out_error M = None"
  shows "run_says M (conclude M (ask_wiki M a cc))"
proof -
  have cc: "cc_trace cc = []" "cc_cached cc = None" "cc_stdout cc = []" "cc_stderr cc = []"
    using assms(1) by (simp_all add: fresh_def)
  have account: "explains (net M) [] tr (error_of r) \<or> tr = [] \<and> local_error (error_of r)"
    if "perform (lib M) c (net M) a (cc_trace cc) = (r, tr)" "resolved M (cc_g cc) c" for c r tr
    using perform_accounted [OF resolved_retries [OF that(2)], of "net M" "[]" "lib M" a] that(1) cc
    by (auto simp: accounted_def)
  show ?thesis
    using cc(2)
  proof (cases rule: request_cases [where M = M and a = a])
    case (unconfigured e)
    have "exitCode (lib M) (Some e) \<in> {1, 2}"
      using unconfigured(1) by (auto simp: exitCode_def code_defs)
    with cc show ?thesis
      by (auto simp: unconfigured(2) conclude_def run_says_def writeError_def)
  next
    case (failed c e tr)
    let ?code = "exitCode (lib M) (Some (ClientError e))"
    have "if tr = [] then ?code \<in> {0, 1, 2, 5}
        else \<exists>ans. last_answer (net M) [] tr ans \<and> exit_says M ans ?code"
    proof (cases "explains (net M) [] tr (Some e)")
      case True
      from exit_of_error [OF this assms(2)] show ?thesis by (auto simp: last_answer_def)
    next
      case False
      with account [OF failed(2,1)] have "tr = []" "local_error (Some e)" by (simp_all add: error_of_def)
      with local_exit [of e "lib M"] show ?thesis by auto
    qed
    moreover have "?code \<noteq> 0" using exitCode_nonzero [of "lib M" "ClientError e"] by auto
    ultimately show ?thesis
      using cc by (auto simp: failed(3) conclude_def run_says_def writeError_def split: if_splits)
  next
    case (answered c v tr err out)
    from account [OF answered(2,1)] have ex: "explains (net M) [] tr None" by (simp add: error_of_def)
    from renderResult_outcome [OF _ assms(3)] answered(3) cc
    have err: "err = None \<or> err = Some (PlainError ''json: unsupported value'') \<and> out = []" by simp
    from ex have "tr \<noteq> []" by (auto simp: last_answer_def)
    moreover from exit_of_result [OF ex, of err] err obtain ans where
      "last_answer (net M) [] tr ans" "exit_says M ans (exitCode (lib M) err)" by blast
    ultimately show ?thesis
      using cc err exitCode_nonzero [of "lib M"]
      by (auto simp: answered(4) conclude_def run_says_def writeError_def exitCode_def code_defs)
  qed
qed

text \<open>C40. The exit code and the outputs of a run: if anything was sent, the code is the class of the
  wiki's last answer (3 for 401, 4 for 403 and 404, 5 for a 5xx or a timeout, 1 for any other refusal
  or failed exchange, 0 for a 2xx, unless its body cannot be decoded or printed, then 1); if nothing
  was, it is none of 3 and 4; and errors go to standard error alone, with standard output empty,
  successes to standard output alone.\<close>

theorem run_exit_contract:
  assumes "\<And>tr d. wait (net M) tr d = None" and "out_error M = None"
  shows "run_says M (run M argv stdin)"
proof (cases rule: run_cases [of M argv stdin])
  case (informed shown)
  then show ?thesis by (simp add: run_says_def finished_def code_defs)
next
  case wrong
  then show ?thesis by (simp add: run_says_def code_defs)
next
  case (request a cc)
  with request_says [OF request(2) assms] show ?thesis by simp
qed

theorem run_exit_contract_witness:
  "exit_code (run sample_machine [''book'', ''get'', ''--id'', ''5''] (Inr [])) = 0
   \<and> made (run sample_machine [''book'', ''get'', ''--id'', ''5''] (Inr [])) \<noteq> []
   \<and> (\<exists>resp. last_answer (net sample_machine) []
          (made (run sample_machine [''book'', ''get'', ''--id'', ''5''] (Inr []))) (Inr resp) \<and> status_2xx resp)
   \<and> err_text (run sample_machine [''book'', ''get'', ''--id'', ''5''] (Inr [])) = []"
proof -
  let ?o = "run sample_machine [''book'', ''get'', ''--id'', ''5''] (Inr [])"
  have w: "wait (net sample_machine) tr d = None" "out_error sample_machine = None" for tr d
    by (simp_all add: sample_machine_def flaky_net_def)
  have e: "exit_code ?o = 0" by code_simp
  have "length (reqs (made ?o)) = 2" by code_simp
  then have m: "made ?o \<noteq> []" by auto
  have zero: "exit_says sample_machine ans 0 \<Longrightarrow> \<exists>resp. ans = Inr resp \<and> status_2xx resp" for ans
    by (cases ans) (auto simp: status_class_def split: if_splits)
  from run_exit_contract [OF w, of "[''book'', ''get'', ''--id'', ''5'']" "Inr []"] e m
  obtain ans where "last_answer (net sample_machine) [] (made ?o) ans" "exit_says sample_machine ans 0"
    and "err_text ?o = []" by (auto simp: run_says_def)
  with zero e m show ?thesis by blast
qed

text \<open>A missing token is a plain error, not a usage error: the run ends with 1, and nothing is sent.\<close>

lemma missing_token_exits_1:
  "exit_code (run (sample_machine\<lparr>os_stat := \<lambda>_. NotExist\<rparr>) [''book'', ''list''] (Inr [])) = 1
   \<and> made (run (sample_machine\<lparr>os_stat := \<lambda>_. NotExist\<rparr>) [''book'', ''list''] (Inr [])) = []"
  by code_simp

end
