(* ===== verification/CliSecrecy.thy ===== *)
theory CliSecrecy
  imports CliContract WikiToken
begin

text \<open>
  The token and the command line: two runs that differ in the token of the environment alone print
  the same, end with the same code and send the same requests but for the \<open>Authorization\<close> header.
\<close>

section \<open>Machines that differ in the token\<close>

definition with_token :: "machine \<Rightarrow> string \<Rightarrow> machine" where
  "with_token M t = M\<lparr>getenv := (getenv M)(''WIKI_API_TOKEN'' := t)\<rparr>"

lemma with_token_simps [simp]:
  "lib (with_token M t) = lib M" "net (with_token M t) = net M" "home (with_token M t) = home M"
  "os_stat (with_token M t) = os_stat M" "os_read (with_token M t) = os_read M"
  "os_open (with_token M t) = os_open M" "out_error (with_token M t) = out_error M"
  "version (with_token M t) = version M"
  "getenv (with_token M t) = (getenv M)(''WIKI_API_TOKEN'' := t)"
  by (simp_all add: with_token_def)

text \<open>Everything but the resolution of the configuration is the same on both.\<close>

lemma token_free_emit [simp]: "emit (with_token M t) = emit M"
  by (simp add: emit_def fun_eq_iff)

lemma token_free [simp]:
  "parse (with_token M t) name own args cc = parse M name own args cc"
  "readSource (with_token M t) literal file cc = readSource M literal file cc"
  "openFileArg (with_token M t) path = openFileArg M path"
  "renderResult (with_token M t) asJSON v out = renderResult M asJSON v out"
  "loadConfigFile (with_token M t) path explicit = loadConfigFile M path explicit"
  unfolding parse_def readSource_def openFileArg_def renderResult_def loadConfigFile_def
    with_token_simps token_free_emit by (rule refl)+

lemma token_free_path [simp]: "configPath (with_token M t) g = configPath M g"
  by (simp add: configPath_def)

lemma token_free_bodies [simp]: "page_bodies (with_token M t) fs cc = page_bodies M fs cc"
  unfolding page_bodies_def token_free by (rule refl)

lemma resolveConfig_token:
  assumes "t \<noteq> []" and "t' \<noteq> []"
  shows "resolveConfig (with_token M t') g
    = map_sum id (\<lambda>c. c\<lparr>wc_Token := t'\<rparr>) (resolveConfig (with_token M t) g)"
proof -
  obtain path explicit where p: "configPath M g = (path, explicit)" by fastforce
  have first: "first_of t x = t" "first_of t' x = t'" for x using assms by (simp_all add: first_of_def)
  have if_map: "map_sum id f (if b then x else y) = (if b then map_sum id f x else map_sum id f y)"
    for b x y and f :: "wiki_config \<Rightarrow> wiki_config" by simp
  show ?thesis
  proof (cases "loadConfigFile M path explicit")
    case (Inl e)
    then show ?thesis by (simp add: resolveConfig_def p)
  next
    case (Inr vals)
    with assms show ?thesis
      by (simp add: resolveConfig_def p Let_def first if_map split del: if_split cong: if_cong)
  qed
qed

lemma New_token:
  assumes "token_form t" and "token_form t'" and "wc_Token c = t"
  shows "New L (c\<lparr>wc_Token := t'\<rparr>) b = map_sum id (\<lambda>cl. cl\<lparr>cl_token := t'\<rparr>) (New L c b)"
proof -
  have "t \<noteq> []" "t' \<noteq> []" using assms(1,2) by (auto simp: token_form_def)
  with assms have "wiki_validate L (c\<lparr>wc_Token := t'\<rparr>) = wiki_validate L c"
    by (auto simp: wiki_validate_def token_form_cut split: prod.splits)
  then show ?thesis by (simp add: New_def split: option.split)
qed

section \<open>Twin runs\<close>

definition twin :: "cli_error option \<times> cmd_context \<Rightarrow> cli_error option \<times> cmd_context \<Rightarrow> bool" where
  "twin x y \<longleftrightarrow>
     fst x = fst y \<and> cc_g (snd x) = cc_g (snd y) \<and> cc_stdout (snd x) = cc_stdout (snd y)
     \<and> cc_stderr (snd x) = cc_stderr (snd y) \<and> blank (cc_trace (snd x)) = blank (cc_trace (snd y))"

lemma twin_refl [simp]: "twin x x"
  by (simp add: twin_def)

lemma twin_ask_wiki:
  assumes "token_blind (net M)" and "token_form t" and "token_form t'" and "cc_cached cc = None"
  shows "twin (ask_wiki (with_token M t) a cc) (ask_wiki (with_token M t') a cc)"
proof -
  have ne: "t \<noteq> []" "t' \<noteq> []" using assms(2,3) by (auto simp: token_form_def)
  note res = resolveConfig_token [OF ne, of M "cc_g cc"]
  show ?thesis
  proof (cases "resolveConfig (with_token M t) (cc_g cc)")
    case (Inl e)
    with res assms(4) show ?thesis by (simp add: ask_wiki_def cc_client_def Let_def twin_def)
  next
    case (Inr cfg)
    then have "wc_Token cfg = t"
      using ne by (auto elim!: resolveConfig_values simp: first_of_def)
    note new = New_token [OF assms(2,3) this, of "lib M" False]
    show ?thesis
    proof (cases "New (lib M) cfg False")
      case (Inl e)
      with Inr res new assms(4) show ?thesis
        by (simp add: ask_wiki_def cc_client_def Let_def twin_def)
    next
      case c: (Inr c)
      obtain r tr where p: "perform (lib M) c (net M) a (cc_trace cc) = (r, tr)" by fastforce
      obtain r' tr' where p': "perform (lib M) (c\<lparr>cl_token := t'\<rparr>) (net M) a (cc_trace cc) = (r', tr')"
        by fastforce
      from perform_blind [OF assms(1) refl, of "lib M" c a "cc_trace cc" t'] p p'
      have same: "r' = r" "blank tr = blank tr'" by (simp_all add: same_but_token_def)
      from p' same(1) have "perform (lib M) (c\<lparr>cl_token := t'\<rparr>) (net M) a (cc_trace cc) = (r, tr')" by simp
      with Inr res new c p same(2) assms(4) show ?thesis
        by (cases r)
          (simp_all add: ask_wiki_def cc_client_def Let_def twin_def split: prod.split)
    qed
  qed
qed

text \<open>The handlers are alike up to the request.\<close>

lemma twin_case:
  "(\<And>e c. twin (f e c) (f' e c)) \<Longrightarrow> (\<And>v c. x = (Inr v, c) \<Longrightarrow> twin (g v c) (g' v c)) \<Longrightarrow>
    twin (case x of (Inl e, c) \<Rightarrow> f e c | (Inr v, c) \<Rightarrow> g v c) (case x of (Inl e, c) \<Rightarrow> f' e c | (Inr v, c) \<Rightarrow> g' v c)"
  by (auto split: prod.split sum.split)

lemma twin_file:
  "(\<And>f name. twin (k f name) (k' f name)) \<Longrightarrow>
    twin (case x of Inl e \<Rightarrow> (Some e, cc) | Inr (f, name) \<Rightarrow> k f name)
      (case x of Inl e \<Rightarrow> (Some e, cc) | Inr (f, name) \<Rightarrow> k' f name)"
  by (auto split: prod.split sum.split)

lemma twin_bodies:
  "(\<And>m ms h hs c. x = (Inr ((m, ms), (h, hs)), c) \<Longrightarrow> twin (k m ms h hs c) (k' m ms h hs c)) \<Longrightarrow>
    twin (case x of (Inl e, cc) \<Rightarrow> (Some e, cc) | (Inr ((m, ms), (h, hs)), cc) \<Rightarrow> k m ms h hs cc)
      (case x of (Inl e, cc) \<Rightarrow> (Some e, cc) | (Inr ((m, ms), (h, hs)), cc) \<Rightarrow> k' m ms h hs cc)"
  by (auto split: prod.split sum.split)

lemma twin_if: "twin x x' \<Longrightarrow> twin y y' \<Longrightarrow> twin (if b then x else y) (if b then x' else y')"
  by simp

lemma parse_uncached: "parse M name own args cc = (Inr fs, cc') \<Longrightarrow> cc_cached cc = None \<Longrightarrow> cc_cached cc' = None"
  using parse_quiet(1) by (fastforce simp: quiet_def)

lemma bodies_uncached: "page_bodies M fs cc = (r, cc') \<Longrightarrow> cc_cached cc = None \<Longrightarrow> cc_cached cc' = None"
  using page_bodies_quiet(1) by (fastforce simp: quiet_def)

lemmas handler_defs = cmdBookList_def cmdBookGet_def cmdBookCreate_def cmdBookUpdate_def
  cmdChapterList_def cmdChapterGet_def cmdChapterCreate_def cmdChapterUpdate_def
  cmdPageList_def cmdPageGet_def cmdPageCreate_def cmdPageUpdate_def
  cmdAttachmentUpload_def cmdImageUpload_def

lemma twin_handlers:
  assumes "lookup resource action = Some h" and "cc_cached cc = None"
    and "token_blind (net M)" and "token_form t" and "token_form t'"
  shows "twin (h (with_token M t) args cc) (h (with_token M t') args cc)"
proof -
  have ask: "cc_cached c = None \<Longrightarrow> twin (ask_wiki (with_token M t) a c) (ask_wiki (with_token M t') a c)"
    for a c by (rule twin_ask_wiki [OF assms(3-5)])
  note un = parse_uncached [OF _ assms(2)]
  have "h \<in> set (concat (map (map snd \<circ> snd) commands))"
    using assms(1) by (auto simp: lookup_def commands_def split: if_splits option.splits)
  then show ?thesis
    unfolding commands_def
    by (simp add: o_def) (elim disjE; simp only: handler_defs token_free token_free_bodies with_token_simps;
        (rule twin_case, rule twin_refl, ((rule twin_if, rule twin_refl)+)?, (rule twin_file)?,
         (rule twin_bodies, (rule twin_if, rule twin_refl)+)?, rule ask,
         ((erule bodies_uncached)?, erule un)))
qed

lemma dispatch_token [simp]: "dispatch (with_token M t) = dispatch M"
  unfolding dispatch_def with_token_simps token_free_emit fun_eq_iff by simp

lemma conclude_twin:
  "twin x y \<Longrightarrow> exit_code (conclude (with_token M t) x) = exit_code (conclude (with_token M t') y)
     \<and> out_text (conclude (with_token M t) x) = out_text (conclude (with_token M t') y)
     \<and> err_text (conclude (with_token M t) x) = err_text (conclude (with_token M t') y)
     \<and> blank (made (conclude (with_token M t) x)) = blank (made (conclude (with_token M t') y))"
  by (cases x; cases y; cases "fst x") (auto simp: conclude_def twin_def)

text \<open>C39. The token is never shown: two runs of the command that differ in the token of the
  environment alone, against a wiki that takes both, print the same to standard output and standard
  error, end with the same exit code, and send the same requests but for the \<open>Authorization\<close> header.\<close>

theorem run_hides_token:
  assumes "token_blind (net M)" and "token_form t" and "token_form t'"
  shows "exit_code (run (with_token M t) argv stdin) = exit_code (run (with_token M t') argv stdin)
     \<and> out_text (run (with_token M t) argv stdin) = out_text (run (with_token M t') argv stdin)
     \<and> err_text (run (with_token M t) argv stdin) = err_text (run (with_token M t') argv stdin)
     \<and> blank (made (run (with_token M t) argv stdin)) = blank (made (run (with_token M t') argv stdin))"
proof (cases "dispatch M argv stdin")
  case (Inl o')
  then show ?thesis by (simp add: run_def)
next
  case (Inr p)
  obtain h args cc where p: "p = (h, args, cc)" by (cases p)
  with Inr dispatch_cases [of M argv stdin] obtain resource action where
    "lookup resource action = Some h" "cc_cached cc = None"
    by (auto simp: dispatch_ok_def fresh_def)
  from conclude_twin [OF twin_handlers [OF this assms]] show ?thesis
    by (simp add: run_def Inr p)
qed

definition sample_env_machine :: machine where
  "sample_env_machine = sample_machine\<lparr>os_stat := \<lambda>_. NotExist\<rparr>"

theorem run_hides_token_witness:
  "exit_code (run (with_token sample_env_machine ''id:secret'') [''book'', ''get'', ''--id'', ''5''] (Inr [])) = 0
   \<and> out_text (run (with_token sample_env_machine ''other:token'') [''book'', ''get'', ''--id'', ''5''] (Inr []))
      = out_text (run (with_token sample_env_machine ''id:secret'') [''book'', ''get'', ''--id'', ''5''] (Inr []))"
proof
  show "exit_code (run (with_token sample_env_machine ''id:secret'') [''book'', ''get'', ''--id'', ''5''] (Inr [])) = 0"
    by code_simp
  have n: "token_blind (net sample_env_machine)"
    by (simp add: sample_env_machine_def sample_machine_def flaky_net_blind)
  have "token_form ''id:secret''" "token_form ''other:token''"
    by (simp_all add: token_form_cut)
  from run_hides_token [OF n this(2,1)] show
    "out_text (run (with_token sample_env_machine ''other:token'') [''book'', ''get'', ''--id'', ''5''] (Inr []))
      = out_text (run (with_token sample_env_machine ''id:secret'') [''book'', ''get'', ''--id'', ''5''] (Inr []))"
    by blast
qed

end
