(* ===== verification/Spec2Isabelle.thy ===== *)
theory Spec2Isabelle
  imports RateLimit ContactConfig Submission SubmissionTexts MailWire MailTransport GitHub
    ContactServer ContactGuards ContactReplies ContactRuns ContactMain
    WikiConfig WikiClient WikiRetry WikiEntities WikiWire WikiApi WikiToken WikiOutcome
    GoFlags GoJson CliConfig CliOutput CliCommands CliHandlers CliRuns CliContract CliSecrecy
begin

text \<open>
  A verification development of the Go services of this repository: the contact service
  (\<open>services/contact\<close>), the wiki client (\<open>services/wiki-client\<close>) and the command over it
  (\<open>services/wiki-cli\<close>).

  The repository documents and deploys an organisation's wiki. Its Go code, modelled here, is three
  packages under \<open>src/services\<close>:

  \<^item> \<open>contact\<close>: an HTTP service with a contact form. A submission passes the guards of a request
    (size, CSRF, honeypot, rate limits, validation), is mailed through one of three transports
    (SMTP, Microsoft Graph, Agent 365) and, where GitHub is configured, filed as an issue.
  \<^item> \<open>wiki-client\<close>: a client of the wiki's REST API with a retry policy, used by
  \<^item> \<open>wiki-cli\<close>: the command \<open>wiki-cli\<close>: global flags, a configuration of four layers, one handler per
    command, output as text or JSON, and an exit code that classes the outcome.

  The service and the command share no code; the command calls the client through the interface
  \<open>api\<close> of \<open>flags.go\<close>.

  \<^bold>\<open>How Go is modelled.\<close> A Go \<open>string\<close> is its bytes (\<^typ>\<open>string\<close>); a rune is what \<open>utf8\<close> decodes from
  them. \<open>int\<close> and \<open>time.Duration\<close> are \<^typ>\<open>int\<close>, with the 64-bit wrap-around written out where it can
  show (the shift of the backoff, \<open>UnixNano\<close>, \<open>strconv.Atoi\<close>). An instant is its nanoseconds. A map
  whose order can matter is an association list, its iteration order an argument. A pair
  \<open>(value, error)\<close> is a sum or a pair with an optional error, one constructor per kind of error.
  Handlers are functions from the state of the service to its next state.

  \<^bold>\<open>What is a parameter.\<close> Code outside the repository that the source calls is an argument:
  the record \<open>golib\<close> (case tables, \<open>mail.ParseAddress\<close>, \<open>url.Parse\<close>, \<open>time.Format\<close>, the JSON parser and
  other large library functions); the records \<open>net\<close>, \<open>outside\<close> and \<open>wnet\<close> (mail servers, GitHub, the
  wiki, timers, the random source: arbitrary functions of the history of what was done); the record
  \<open>machine\<close> (environment, files, standard output). The theorems hold for all of them, but for the
  hypotheses they state. \<open>sample_lib\<close> is a small instance of \<open>golib\<close> on which witnesses evaluate.
\<close>

section \<open>The theories\<close>

text \<open>
  \<^bold>\<open>Shared.\<close> \<open>Prelude\<close>: types, collections of rules, lists and association lists. \<open>GoStrings\<close>: the
  functions of \<open>strings\<close>, \<open>strconv\<close> and \<open>utf8\<close> in use. \<open>GoLib\<close>: JSON values and the library record.
  \<open>GoNet\<close>: HTTP requests and responses, traces of calls. \<open>GoFlags\<close>: the package \<open>flag\<close>. \<open>GoJson\<close>: the
  encoder of \<open>encoding/json\<close>.

  \<^bold>\<open>contact, \<open>ratelimit.go\<close>.\<close> \<open>SlidingWindow\<close> states the abstract limiter on the log of granted calls
  and the locale \<open>window_limiter\<close>, the laws a provider owes it. \<open>RateLimit\<close> has the record
  \<open>rate_limiter\<close> (fields of \<open>rateLimiter\<close>) with \<open>allow\<close>, \<open>sweep\<close> and \<open>evictBatch\<close>, and interprets the locale
  (\<open>rl\<close>): refinement, the window and memory bounds, justified denials, eviction of the stalest.

  \<^bold>\<open>contact, \<open>config.go\<close>, \<open>submission.go\<close>.\<close> \<open>ContactConfig\<close>: \<open>Load\<close>, its loaders and predicates, with the
  sender policy. \<open>Submission\<close>: kinds, validation, the texts of mail and issue; \<open>SubmissionTexts\<close> proves
  that truncation keeps runes whole and that no field leaves its code fence, against a reader of
  fenced Markdown.

  \<^bold>\<open>contact, \<open>mailer.go\<close>, \<open>github.go\<close>.\<close> \<open>Mailer\<close>: the three transports, each a sequence of network calls
  that stops at the first error. \<open>MailWire\<close> reads the RFC 822 bytes back. \<open>MailTransport\<close> has the locale
  \<open>mail_transport\<close> (offered to the recipient alone; success means accepted), interpreted on \<open>Send\<close>
  (\<open>transport\<close>), and the order of TLS and credentials. \<open>GitHub\<close>: \<open>CreateIssue\<close>.

  \<^bold>\<open>contact, \<open>server.go\<close>, \<open>main.go\<close>.\<close> \<open>ContactServer\<close>: the record \<open>server\<close> (configuration, mailer,
  GitHub client, three limiters) and the routes, with \<open>handleSubmit\<close> split at its guards. \<open>ContactGuards\<close>: what passes the guards and
  what then happens. \<open>ContactReplies\<close>: response, page and log of each outcome, client address, CSRF,
  headers, readiness. \<open>ContactRuns\<close>: runs of the service; the locale \<open>metered\<close>, a system whose effects are
  paid at a limiter, interpreted for mails (\<open>mails\<close>) and issues (\<open>issues\<close>), carries the bounds of
  \<open>window_limiter\<close> over to both. \<open>ContactMain\<close>: the start of the program and the life of the process as an
  inductive step relation: graceful shutdown and its termination.

  \<^bold>\<open>wiki-client.\<close> \<open>WikiConfig\<close>: \<open>Load\<close> and \<open>validate\<close> of \<open>config.go\<close>. \<open>WikiClient\<close>: \<open>client.go\<close> and
  \<open>errors.go\<close>, from \<open>New\<close> to \<open>doRaw\<close>, multipart bodies and retry log included. \<open>WikiRetry\<close>: the retry
  policy, its delays, and that it survives short outages. \<open>WikiEntities\<close>: \<open>models.go\<close> and the endpoints of
  \<open>books.go\<close>, \<open>chapters.go\<close>, \<open>pages.go\<close>, \<open>attachments.go\<close> and \<open>images.go\<close>; \<open>WikiWire\<close>: decoding inverts
  encoding. \<open>WikiApi\<close>: the calls as a datatype, the locale \<open>wiki_api\<close> (what a call may send, how often)
  interpreted on \<open>perform\<close> (\<open>wc\<close>). \<open>WikiToken\<close>: noninterference of the token. \<open>WikiOutcome\<close>: every
  error names its cause in the last answer.

  \<^bold>\<open>wiki-cli.\<close> \<open>CliConfig\<close>: \<open>config.go\<close> and the global flags of \<open>flags.go\<close>. \<open>CliOutput\<close>: \<open>render.go\<close> and
  \<open>exitcode.go\<close>. \<open>CliCommands\<close>: \<open>input.go\<close>, the handlers of \<open>books.go\<close>, \<open>chapters.go\<close>, \<open>pages.go\<close> and
  \<open>uploads.go\<close>, and \<open>run\<close> of \<open>main.go\<close> (\<open>dispatch\<close>, then \<open>conclude\<close>). \<open>CliHandlers\<close>: each handler makes
  at most the one call of its command. \<open>CliRuns\<close>: the parse keeps its types; the sources of each setting.
  \<open>CliContract\<close>: effects, output and exit code of a run. \<open>CliSecrecy\<close>: nothing a run shows depends on the
  token.
\<close>

section \<open>Bounds and termination\<close>

text \<open>
  Every function is total. \<open>doRaw_loop\<close> counts the attempts left, started with \<open>maxRetries + 1\<close>, the
  number of iterations of the Go loop, so that running out is the loop's own exit. \<open>compact_loop\<close>,
  \<open>parse_flags\<close>, \<open>escape_bytes\<close>, \<open>runes_of\<close>, the trimming functions and \<open>dec_digits\<close> recurse on a
  measure: what is left of the list, of the arguments, of the bytes, or the number itself. All other
  recursion is structural.
\<close>

section \<open>Not modelled\<close>

text \<open>
  \<^item> The text of the HTML templates and static pages, and \<open>html/template\<close>: the model hands the view
    record to a page. The plain-text mail template is modelled.
  \<^item> The layout of the usage that the package \<open>flag\<close> prints for a flag set: a token of standard error.
  \<^item> Concurrency of handlers: each limiter operation holds its mutex, so handlers are run one after
    another; \<open>ContactMain\<close> has the interleaving of the two goroutines of \<open>main\<close>.
  \<^item> Deadlines of single network calls, the timeouts of \<open>http.Server\<close>, deferred closes, and redirects
    that \<open>http.Client\<close> follows: they are part of the answer of the network.
  \<^item> The options \<open>WithHTTPClient\<close> and \<open>WithLogger\<close>, which replace those parameters.
  \<^item> Detail log lines of the service beside the one event of a submission; the text of a JSON decoding
    error; errors of encoding a value that cannot fail or of writing to a buffer in memory.
  \<^item> Terraform, shell scripts, runbooks and tests: no Go code of the program.

  Next: the JSON printer of \<open>GoJson\<close> against a parser, so that the round trip of \<open>WikiWire\<close> holds for bytes;
  a written configuration file read back by \<open>CliConfig\<close>; responses of the service under a
  limiter that has swept in between.
\<close>

end
